(* ===== verification/Dobby_Prelude.thy ===== *)
theory Dobby_Prelude
  imports Main "HOL-Library.Word"
begin

text \<open>
  Shared vocabulary of the development: the machine integer types of the C and C++
  sources, the result type of code that can fail, the bit-field macros of
  \<^verbatim>\<open>source/dobby/utility_macro.h\<close>, little-endian byte encodings (what
  \<^verbatim>\<open>Emit<T>\<close> and the unaligned pointer casts do on the supported targets), and a
  byte-addressed memory.  The lemmas here are the ones several components use.
\<close>

unbundle bit_operations_syntax

section \<open>Types\<close>

type_synonym u8 = "8 word"
type_synonym u16 = "16 word"
type_synonym u32 = "32 word"
type_synonym u64 = "64 word"

text \<open>
  Why code stops without returning normally: a read or write outside an object, the
  \<^verbatim>\<open>UNIMPLEMENTED()\<close> and \<^verbatim>\<open>UNREACHABLE()\<close> macros (both end in
  \<^verbatim>\<open>FATAL_LOG\<close>, which faults), the use of a variable no branch assigned, and a failed
  \<^verbatim>\<open>assert\<close>.
\<close>

datatype stop = OutOfBounds | Unimplemented | Unreachable | Uninitialised | AssertFailed

type_synonym 'a result = "stop + 'a"

definition sbind :: "'e + 'a \<Rightarrow> ('a \<Rightarrow> 'e + 'b) \<Rightarrow> 'e + 'b" where
  "sbind m f = (case m of Inl e \<Rightarrow> Inl e | Inr x \<Rightarrow> f x)"

lemma sbind_simps [simp]:
  "sbind (Inl e) f = Inl e"
  "sbind (Inr x) f = f x"
  by (simp_all add: sbind_def)

lemma sbind_eq_Inr: "sbind m f = Inr y \<longleftrightarrow> (\<exists>x. m = Inr x \<and> f x = Inr y)"
  by (cases m) auto

lemma sbind_eq_Inl: "sbind m f = Inl e \<longleftrightarrow> m = Inl e \<or> (\<exists>x. m = Inr x \<and> f x = Inl e)"
  by (cases m) auto

lemma sbind_assoc: "sbind (sbind m f) g = sbind m (\<lambda>x. sbind (f x) g)"
  by (cases m) auto

lemma sbind_cong [fundef_cong]:
  "m = m' \<Longrightarrow> (\<And>x. m' = Inr x \<Longrightarrow> f x = f' x) \<Longrightarrow> sbind m f = sbind m' f'"
  by (cases m') auto

text \<open>
  Partial-correctness reasoning on results: \<open>rpost P r\<close> says that \<open>r\<close>, if it is a value,
  satisfies \<open>P\<close>.  The collection \<open>rpost\<close> pushes it through the control structures.
\<close>

named_theorems rpost

definition rpost :: "('a \<Rightarrow> bool) \<Rightarrow> 'e + 'a \<Rightarrow> bool" where
  "rpost P r = (case r of Inl _ \<Rightarrow> True | Inr x \<Rightarrow> P x)"

lemma rpost_simps [simp, rpost]:
  "rpost P (Inr x) = P x" "rpost P (Inl e)"
  by (simp_all add: rpost_def)

lemma rpost_bind [rpost]: "rpost P (sbind m f) = rpost (\<lambda>x. rpost P (f x)) m"
  by (cases m) auto

lemma rpost_if [rpost]:
  "rpost P (if b then m else n) = ((b \<longrightarrow> rpost P m) \<and> (\<not> b \<longrightarrow> rpost P n))"
  by simp

lemma rpost_weaken: "rpost Q m \<Longrightarrow> (\<And>x. Q x \<Longrightarrow> P x) \<Longrightarrow> rpost P m"
  by (cases m) auto

lemma rpost_any: "(\<And>x. P x) \<Longrightarrow> rpost P m"
  by (cases m) auto

lemma rpostD: "rpost P m \<Longrightarrow> m = Inr x \<Longrightarrow> P x"
  by simp

section \<open>Bit-field macros\<close>

definition submask :: "nat \<Rightarrow> 'a::len word" where
  "submask x = mask (x + 1)"

definition c_bits :: "'a::len word \<Rightarrow> nat \<Rightarrow> nat \<Rightarrow> 'a word" where
  "c_bits obj st fn = drop_bit st obj AND submask (fn - st)"

definition c_bit :: "'a::len word \<Rightarrow> nat \<Rightarrow> 'a word" where
  "c_bit obj st = drop_bit st obj AND 1"

definition c_set_bit :: "'a::len word \<Rightarrow> nat \<Rightarrow> 'a word \<Rightarrow> 'a word" where
  "c_set_bit obj st b = (NOT (push_bit st 1) AND obj) OR push_bit st b"

definition c_set_bits :: "'a::len word \<Rightarrow> nat \<Rightarrow> nat \<Rightarrow> 'a word \<Rightarrow> 'a word" where
  "c_set_bits obj st fn v = (NOT (push_bit st (submask (fn - st))) AND obj) OR push_bit st v"

definition LeftShift :: "'a::len word \<Rightarrow> nat \<Rightarrow> nat \<Rightarrow> 'a word" where
  "LeftShift a b c = push_bit c (a AND (push_bit b 1 - 1))"

definition ALIGN_FLOOR :: "'a::len word \<Rightarrow> 'a word \<Rightarrow> 'a word" where
  "ALIGN_FLOOR address rng = address AND NOT (rng - 1)"

definition ALIGN_CEIL :: "'a::len word \<Rightarrow> 'a word \<Rightarrow> 'a word" where
  "ALIGN_CEIL address rng = (address + rng - 1) AND NOT (rng - 1)"

lemma unat_less_exp: "unat (w :: 'a::len word) < 2 ^ LENGTH('a)"
  by (rule unsigned_less)

lemma unat_of_nat_small: "n < 2 ^ LENGTH('a) \<Longrightarrow> unat (of_nat n :: 'a::len word) = n"
  by (simp add: unat_of_nat)

lemma ucast_of_nat_down:
  "LENGTH('b) \<le> LENGTH('a) \<Longrightarrow> ucast (of_nat n :: 'a::len word) = (of_nat n :: 'b::len word)"
  by (rule bit_word_eqI) (simp add: bit_simps)

lemma bit_nat_bound: "bit (n :: nat) k \<Longrightarrow> n < 2 ^ m \<Longrightarrow> k < m"
  using bit_take_bit_iff[of m n k] by (simp add: take_bit_nat_eq_self)

lemma ucast_of_nat_up_down:
  "n < 2 ^ LENGTH('b) \<Longrightarrow> ucast (ucast (of_nat n :: 'a::len word) :: 'b::len word) = (of_nat n :: 'a word)"
  by (rule bit_word_eqI) (auto simp: bit_simps dest: bit_nat_bound)

lemma ucast_of_nat_small:
  "n < 2 ^ LENGTH('b) \<Longrightarrow> ucast (of_nat n :: 'b::len word) = (of_nat n :: 'a::len word)"
  by (rule bit_word_eqI) (auto simp: bit_simps dest: bit_nat_bound)

lemma unat_ucast_small: "unat (w :: 'a::len word) < 2 ^ LENGTH('b) \<Longrightarrow> unat (ucast w :: 'b::len word) = unat w"
  by (simp add: unsigned_ucast_eq take_bit_nat_eq_self)

lemma unat_ucast_up:
  assumes "LENGTH('a) \<le> LENGTH('b)"
  shows "unat (ucast (w :: 'a::len word) :: 'b::len word) = unat w"
  using less_le_trans[OF unat_less_exp[of w] power_increasing[OF assms, of 2]] by (intro unat_ucast_small) simp

lemma unat_add_small: "unat a + unat b < 2 ^ LENGTH('a) \<Longrightarrow> unat (a + b :: 'a::len word) = unat a + unat b"
  by (subst unat_add_lem[symmetric])

lemma LeftShift_eq: "LeftShift a b c = push_bit c (take_bit b a)"
  by (simp add: LeftShift_def take_bit_eq_mask mask_eq_exp_minus_1)

lemma and_not_mask: "(w :: 'a::len word) AND NOT (mask k) = push_bit k (drop_bit k w)"
  by (rule bit_word_eqI) (auto simp: bit_simps)

lemma ALIGN_FLOOR_unat:
  assumes "k < LENGTH('a)"
  shows "unat (ALIGN_FLOOR (w :: 'a::len word) (2 ^ k)) = unat w div 2 ^ k * 2 ^ k"
proof -
  have "unat w div 2 ^ k * 2 ^ k < 2 ^ LENGTH('a)"
    using unat_less_exp[of w] div_times_less_eq_dividend[of "unat w" "2 ^ k"] by linarith
  moreover have "ALIGN_FLOOR w (2 ^ k) = push_bit k (drop_bit k w)"
    by (simp add: ALIGN_FLOOR_def and_not_mask flip: mask_eq_exp_minus_1)
  moreover have "unat (push_bit k (drop_bit k w)) = take_bit LENGTH('a) (push_bit k (drop_bit k (unat w)))"
    by (simp only: unsigned_push_bit_eq unsigned_drop_bit_eq) (simp add: unat_less_exp take_bit_nat_eq_self)
  ultimately show ?thesis
    by (simp only: push_bit_eq_mult drop_bit_eq_div take_bit_nat_eq_self)
qed

text \<open>Sign extension undoes truncation of a value that fits.\<close>

lemma scast_ucast_fits:
  assumes "- (2 ^ 31) \<le> sint w" and "sint w < 2 ^ 31"
  shows "scast (ucast (w :: u64) :: u32) = w"
proof -
  have sext: "signed_take_bit 31 (sint w) = sint w"
    using assms by (simp add: signed_take_bit_int_eq_self)
  have hi: "bit w n = bit w (min n 31)" if "n < 64" for n
  proof -
    have "bit (sint w) n = bit (sint w) (min n 31)"
      using bit_signed_take_bit_iff[of 31 "sint w" n] unfolding sext by (simp add: min.commute)
    moreover have "bit (sint w) k = bit w k" if "k < 64" for k
      using that by (simp add: bit_sint_iff)
    ultimately show ?thesis
      using that by simp
  qed
  show ?thesis
  proof (rule bit_word_eqI)
    fix n
    assume "n < LENGTH(64)"
    then show "bit (scast (ucast w :: u32) :: u64) n = bit w n"
      using hi[of n] by (cases "n \<le> 31") (simp_all add: bit_simps min_def)
  qed
qed

lemma uint_less_unat: "unat (w :: 'a::len word) < 2 ^ n \<longleftrightarrow> uint w < 2 ^ n"
proof -
  have "unat w < 2 ^ n \<longleftrightarrow> int (unat w) < int (2 ^ n)"
    by (rule of_nat_less_iff[symmetric])
  then show ?thesis
    by (simp only: of_nat_unat of_nat_power of_nat_numeral)
qed

lemma sint_ucast_small:
  assumes "unat (w :: u64) < 2 ^ 31"
  shows "sint (ucast w :: u32) = int (unat w)"
proof -
  have "uint w < 2 ^ 31"
    using assms by (simp only: uint_less_unat)
  moreover have "- (2 ^ 31) \<le> uint w"
    by (rule order_trans[OF _ uint_ge_0]) simp
  ultimately have "signed_take_bit 31 (take_bit 32 (uint w)) = uint w"
    by (simp add: take_bit_int_eq_self signed_take_bit_int_eq_self)
  then show ?thesis
    by (simp add: sint_uint unsigned_ucast_eq)
qed

section \<open>Little-endian bytes\<close>

fun le_bytes :: "nat \<Rightarrow> 'a::len word \<Rightarrow> u8 list" where
  "le_bytes 0 w = []"
| "le_bytes (Suc n) w = ucast w # le_bytes n (drop_bit 8 w)"

fun le_word :: "u8 list \<Rightarrow> 'a::len word" where
  "le_word [] = 0"
| "le_word (b # bs) = ucast b OR push_bit 8 (le_word bs)"

lemma length_le_bytes [simp]: "length (le_bytes n w) = n"
  by (induction n arbitrary: w) auto

lemma le_word_le_bytes: "le_word (le_bytes n w) = (take_bit (8 * n) w :: 'a::len word)"
proof (induction n arbitrary: w)
  case 0
  then show ?case by simp
next
  case (Suc n)
  show ?case
    by (rule bit_word_eqI)
      (auto simp: Suc.IH bit_simps)
qed

lemma le_word_le_bytes_u32 [simp]: "le_word (le_bytes 4 w) = (w :: u32)"
  using le_word_le_bytes [of 4 w] by (simp add: take_bit_word_eq_self)

lemma le_word_le_bytes_u64 [simp]: "le_word (le_bytes 8 w) = (w :: u64)"
  using le_word_le_bytes [of 8 w] by (simp add: take_bit_word_eq_self)

lemma le_word_le_bytes_u16 [simp]: "le_word (le_bytes 2 w) = (w :: u16)"
  using le_word_le_bytes [of 2 w] by (simp add: take_bit_word_eq_self)

lemma le_word_le_bytes_u8 [simp]: "le_word (le_bytes 1 w) = (w :: u8)"
  using le_word_le_bytes [of 1 w] by (simp add: take_bit_word_eq_self)

section \<open>Byte-addressed memory\<close>

type_synonym 'a mem = "'a word \<Rightarrow> u8"

fun mem_read :: "('a::len) mem \<Rightarrow> 'a word \<Rightarrow> nat \<Rightarrow> u8 list" where
  "mem_read m a 0 = []"
| "mem_read m a (Suc n) = m a # mem_read m (a + 1) n"

fun mem_write :: "('a::len) mem \<Rightarrow> 'a word \<Rightarrow> u8 list \<Rightarrow> 'a mem" where
  "mem_write m a [] = m"
| "mem_write m a (b # bs) = mem_write (m(a := b)) (a + 1) bs"

lemma length_mem_read [simp]: "length (mem_read m a n) = n"
  by (induction n arbitrary: a) auto

lemma nth_mem_read: "i < n \<Longrightarrow> mem_read m a n ! i = m (a + of_nat i)"
proof (induction n arbitrary: a i)
  case (Suc n)
  then show ?case by (cases i) (auto simp: algebra_simps)
qed simp

lemma mem_read_drop:
  "i + k \<le> n \<Longrightarrow> mem_read m (a + of_nat i) k = take k (drop i (mem_read m a n))"
  by (rule nth_equalityI) (auto simp: nth_mem_read algebra_simps)

text \<open>The bytes \<open>bs\<close> lie at address \<open>a\<close>.\<close>

definition bytes_at :: "('a::len) mem \<Rightarrow> 'a word \<Rightarrow> u8 list \<Rightarrow> bool" where
  "bytes_at m a bs \<longleftrightarrow> mem_read m a (length bs) = bs"

lemma bytes_at_nth: "bytes_at m a bs \<Longrightarrow> i < length bs \<Longrightarrow> m (a + of_nat i) = bs ! i"
  unfolding bytes_at_def by (metis nth_mem_read)

lemma bytes_at_read:
  "bytes_at m a bs \<Longrightarrow> i + k \<le> length bs \<Longrightarrow> mem_read m (a + of_nat i) k = take k (drop i bs)"
  unfolding bytes_at_def using mem_read_drop[of i k "length bs" m a] by simp

text \<open>The addresses of a range of \<open>n\<close> bytes, which may wrap around.\<close>

definition range_addrs :: "'a::len word \<Rightarrow> nat \<Rightarrow> 'a word set" where
  "range_addrs a n = (\<lambda>i. a + of_nat i) ` {..<n}"

lemma range_addrs_0 [simp]: "range_addrs a 0 = {}"
  by (simp add: range_addrs_def)

lemma range_addrs_Suc: "range_addrs a (Suc n) = insert a (range_addrs (a + 1) n)"
  by (force simp: range_addrs_def lessThan_Suc_eq_insert_0 image_image algebra_simps)

lemma mem_write_outside: "x \<notin> range_addrs a (length bs) \<Longrightarrow> mem_write m a bs x = m x"
  by (induction bs arbitrary: m a) (auto simp: range_addrs_Suc)

lemma range_addrs_fresh:
  assumes "n < 2 ^ LENGTH('a::len)"
  shows "(a :: 'a word) \<notin> range_addrs (a + 1) n"
proof
  assume "a \<in> range_addrs (a + 1) n"
  then obtain i where i: "i < n" and "a = a + 1 + of_nat i"
    by (auto simp: range_addrs_def)
  then have "of_nat (Suc i) = (0 :: 'a word)"
    by (simp add: algebra_simps)
  then have "2 ^ LENGTH('a) dvd Suc i"
    by (simp only: word_of_nat_eq_0_iff)
  with i assms show False
    by (auto dest: dvd_imp_le)
qed

lemma mem_read_cong:
  "(\<And>x. x \<in> range_addrs a n \<Longrightarrow> m x = m' x) \<Longrightarrow> mem_read m a n = mem_read m' a n"
  by (induction n arbitrary: a) (auto simp: range_addrs_Suc)

lemma range_addrs_mono: "k \<le> n \<Longrightarrow> range_addrs a k \<subseteq> range_addrs a n"
  by (auto simp: range_addrs_def)

lemma range_addrs_sub: "i + k \<le> n \<Longrightarrow> range_addrs (a + of_nat i) k \<subseteq> range_addrs a n"
  by (force simp: range_addrs_def add.assoc simp flip: of_nat_add)

lemma bytes_at_cong:
  assumes "bytes_at m a bs" and "\<forall>x \<in> range_addrs a (length bs). m' x = m x"
  shows "bytes_at m' a bs"
  using assms mem_read_cong[of a "length bs" m' m] by (simp add: bytes_at_def)

lemma mem_write_append: "mem_write m a (xs @ ys) = mem_write (mem_write m a xs) (a + of_nat (length xs)) ys"
  by (induction xs arbitrary: m a) (simp_all add: algebra_simps)

lemma mem_read_write_same:
  "length bs \<le> 2 ^ LENGTH('a::len) \<Longrightarrow> mem_read (mem_write m (a :: 'a word) bs) a (length bs) = bs"
proof (induction bs arbitrary: m a)
  case Nil
  then show ?case by simp
next
  case (Cons b bs)
  then have "mem_write (m(a := b)) (a + 1) bs a = b"
    by (subst mem_write_outside) (auto intro!: range_addrs_fresh)
  with Cons show ?case by simp
qed

lemma mem_write_bytes_at: "length bs \<le> 2 ^ LENGTH('a::len) \<Longrightarrow> bytes_at (mem_write m (a :: 'a word) bs) a bs"
  unfolding bytes_at_def by (rule mem_read_write_same)

lemma mem_write_read_same: "mem_write m a (mem_read m a n) = m"
  by (induction n arbitrary: a) (auto simp: fun_upd_idem)

lemma mem_write_inside:
  "x \<in> range_addrs a (length bs) \<Longrightarrow> mem_write m a bs x = mem_write m' a bs x"
proof (induction bs arbitrary: m m' a)
  case Nil
  then show ?case by simp
next
  case (Cons b bs)
  show ?case
  proof (cases "x \<in> range_addrs (a + 1) (length bs)")
    case True
    then show ?thesis by (simp only: mem_write.simps) (rule Cons.IH)
  next
    case False
    with Cons.prems have "x = a" by (simp add: range_addrs_Suc)
    with False show ?thesis by (simp add: mem_write_outside)
  qed
qed

lemma mem_write_write:
  "length bs = length cs \<Longrightarrow> mem_write (mem_write m a bs) a cs = mem_write m a cs"
proof
  fix x
  assume len: "length bs = length cs"
  show "mem_write (mem_write m a bs) a cs x = mem_write m a cs x"
  proof (cases "x \<in> range_addrs a (length cs)")
    case True
    then show ?thesis by (rule mem_write_inside)
  next
    case False
    with len show ?thesis by (simp add: mem_write_outside)
  qed
qed

lemma mem_write_restore:
  "length bs = n \<Longrightarrow> mem_write (mem_write m a bs) a (mem_read m a n) = m"
  using mem_write_write [of bs "mem_read m a n" m a] by (simp add: mem_write_read_same)

lemma unat_two_power: "k < LENGTH('a) \<Longrightarrow> unat (2 ^ k :: 'a :: len word) = 2 ^ k"
  using unat_of_nat [of "2 ^ k", where 'a = 'a] power_strict_increasing [of k "LENGTH('a)" "2 :: nat"]
  by simp

end
