(* ===== verification/Mem_Range.thy ===== *)
theory Mem_Range
  imports Dobby_Prelude
begin

text \<open>
  \<^verbatim>\<open>MemRange\<close> and \<^verbatim>\<open>MemBlock\<close> of
  \<^verbatim>\<open>source/MemoryAllocator/MemoryAllocator.h\<close> on a 64-bit target: an address and a
  size, both machine words, whose end wraps around as the C++ addition does.  The lemmas
  relate \<^verbatim>\<open>contains\<close> and \<^verbatim>\<open>intersect\<close> to the intervals of integers the ranges
  stand for; \<open>range_ok\<close> is the condition that the end does not wrap.
\<close>

type_synonym addr_t = u64
type_synonym size_t = u64

record MemRange =
  rstart :: addr_t
  rsize :: size_t

definition MemRange_new :: "addr_t \<Rightarrow> size_t \<Rightarrow> MemRange" where
  "MemRange_new s n = \<lparr>rstart = s, rsize = n\<rparr>"

definition MemRange_empty :: MemRange where
  "MemRange_empty = MemRange_new 0 0"

definition range_start :: "MemRange \<Rightarrow> addr_t" where
  "range_start r = rstart r"

definition range_addr :: "MemRange \<Rightarrow> addr_t" where
  "range_addr r = rstart r"

definition range_end :: "MemRange \<Rightarrow> addr_t" where
  "range_end r = rstart r + rsize r"

definition range_resize :: "MemRange \<Rightarrow> size_t \<Rightarrow> MemRange" where
  "range_resize r n = r\<lparr>rsize := n\<rparr>"

definition range_reset :: "MemRange \<Rightarrow> addr_t \<Rightarrow> size_t \<Rightarrow> MemRange" where
  "range_reset r s n = r\<lparr>rstart := s, rsize := n\<rparr>"

definition UINTPTR_MAX :: u64 where
  "UINTPTR_MAX = - 1"

definition contains :: "MemRange \<Rightarrow> addr_t \<Rightarrow> size_t \<Rightarrow> bool" where
  "contains r in_addr in_size =
     (if in_size = 0 then False
      else if in_addr < range_addr r then False
      else if in_addr > UINTPTR_MAX - in_size then False
      else in_addr + in_size \<le> range_end r)"

definition intersect :: "MemRange \<Rightarrow> MemRange \<Rightarrow> MemRange" where
  "intersect r other =
     (let s = (if range_addr r > range_addr other then range_addr r else range_addr other);
          e = (if range_end r < range_end other then range_end r else range_end other)
      in if s < e then MemRange_new s (e - s) else MemRange_empty)"

lemmas range_defs [simp] =
  MemRange_new_def range_start_def range_addr_def range_end_def range_resize_def
  range_reset_def MemRange_empty_def

section \<open>Ranges as integer intervals\<close>

definition range_ok :: "MemRange \<Rightarrow> bool" where
  "range_ok r \<longleftrightarrow> uint (rstart r) + uint (rsize r) < 2 ^ 64"

definition interval :: "MemRange \<Rightarrow> int set" where
  "interval r = {uint (rstart r) ..< uint (rstart r) + uint (rsize r)}"

lemma uint_add_small: "uint a + uint b < 2 ^ 64 \<Longrightarrow> uint (a + b :: u64) = uint a + uint b"
  by (simp add: uint_word_ariths)

lemma uint_end: "range_ok r \<Longrightarrow> uint (range_end r) = uint (rstart r) + uint (rsize r)"
  by (simp add: range_ok_def uint_add_small)

lemma contains_no_wrap:
  "in_addr \<le> UINTPTR_MAX - in_size \<longleftrightarrow> uint in_addr + uint in_size < 2 ^ 64"
proof -
  have "uint (UINTPTR_MAX - in_size) = 2 ^ 64 - 1 - uint in_size"
    using uint_lt2p [of in_size] uint_sub_lem [of in_size UINTPTR_MAX]
    by (simp add: UINTPTR_MAX_def unsigned_minus_1_eq_mask mask_eq_exp_minus_1)
  then show ?thesis
    by (auto simp: word_le_def)
qed

lemma no_wrap_unat:
  "in_addr \<le> UINTPTR_MAX - in_size \<longleftrightarrow> unat in_addr + unat in_size < 2 ^ 64"
proof -
  have "unat in_addr + unat in_size < 2 ^ 64 \<longleftrightarrow> int (unat in_addr + unat in_size) < int (2 ^ 64)"
    by (rule of_nat_less_iff[symmetric])
  also have "\<dots> \<longleftrightarrow> uint in_addr + uint in_size < 2 ^ 64"
    by (simp only: of_nat_add of_nat_unat of_nat_power of_nat_numeral)
  finally show ?thesis
    by (simp only: contains_no_wrap)
qed

lemma contains_interval:
  assumes "range_ok r"
  shows "contains r a n \<longleftrightarrow>
    n \<noteq> 0 \<and> uint a + uint n < 2 ^ 64 \<and> {uint a ..< uint a + uint n} \<subseteq> interval r"
proof (cases "n \<noteq> 0 \<and> uint a + uint n < 2 ^ 64")
  case True
  then have "0 < uint n" and s: "uint (a + n) = uint a + uint n"
    by (auto simp: word_neq_0_conv word_less_def uint_add_small)
  then show ?thesis
    using True uint_end [OF assms] contains_no_wrap [of a n]
    by (auto simp: contains_def interval_def word_le_def word_less_def not_less)
next
  case False
  then show ?thesis
    using contains_no_wrap [of a n] by (auto simp: contains_def not_less)
qed

lemma intersect_interval:
  assumes "range_ok r" "range_ok s"
  shows "interval (intersect r s) = interval r \<inter> interval s"
proof -
  have *: "uint (e - b) = uint e - uint b" if "b < e" for e b :: u64
    using that uint_sub_lem [of b e] by (simp add: word_less_def)
  show ?thesis
    using uint_end [OF assms(1)] uint_end [OF assms(2)]
    by (auto simp: intersect_def Let_def interval_def word_less_def * [unfolded word_less_def]
        split: if_splits)
qed

lemma intersect_ok:
  assumes "range_ok r" "range_ok s"
  shows "range_ok (intersect r s)"
proof -
  have *: "uint b + uint (e - b) < 2 ^ 64" if "b < e" for e b :: u64
    using that uint_sub_lem [of b e] uint_lt2p [of e] by (simp add: word_less_def)
  show ?thesis
    using * by (auto simp: range_ok_def intersect_def Let_def)
qed

end
