(* ===== verification/Code_Mem_Buffer.thy ===== *)
theory Code_Mem_Buffer
  imports Dobby_Prelude
begin

text \<open>
  \<^verbatim>\<open>MemBuffer\<close> and \<^verbatim>\<open>CodeMemBuffer\<close> of
  \<^verbatim>\<open>source/MemoryAllocator/CodeMemBuffer.h\<close>: the growable byte buffer every assembler
  emits into.  A byte of the heap block that was never written is \<open>None\<close>, so reading it is
  visible.  An operation returns \<open>None\<close> when it has no defined result: a copy outside the
  block, a read of an uninitialised byte, or the growth loop not ending (its 32-bit
  capacity can double to 0).  \<open>contents\<close> is the abstract value, the bytes emitted so far;
  the locale \<open>code_sink\<close> is what the assemblers and the relocators rely on.
\<close>

record MemBuffer =
  buffer :: "u8 option list"
  buffer_size :: u32
  buffer_capacity :: u32

definition MemBuffer_new :: MemBuffer where
  "MemBuffer_new = \<lparr>buffer = replicate 64 None, buffer_size = 0, buffer_capacity = 64\<rparr>"

definition buf_read :: "MemBuffer \<Rightarrow> u32 \<Rightarrow> nat \<Rightarrow> u8 list option" where
  "buf_read b offset n =
     (let bs = take n (drop (unat offset) (buffer b))
      in if unat offset + n \<le> length (buffer b) \<and> None \<notin> set bs then Some (map the bs) else None)"

definition buf_write :: "MemBuffer \<Rightarrow> u32 \<Rightarrow> u8 list \<Rightarrow> MemBuffer option" where
  "buf_write b offset bs =
     (if unat offset + length bs \<le> length (buffer b)
      then Some (b\<lparr>buffer := take (unat offset) (buffer b) @ map Some bs
                              @ drop (unat offset + length bs) (buffer b)\<rparr>)
      else None)"

partial_function (option) grow_capacity :: "u32 \<Rightarrow> u32 \<Rightarrow> u32 option" where
  "grow_capacity new_capacity need =
     (if new_capacity < need then grow_capacity (new_capacity * 2) need else Some new_capacity)"

definition ensure_capacity :: "MemBuffer \<Rightarrow> u32 \<Rightarrow> MemBuffer option" where
  "ensure_capacity b in_size =
     (if buffer_size b + in_size > buffer_capacity b
      then (case grow_capacity (buffer_capacity b * 2) (buffer_size b + in_size) of
              None \<Rightarrow> None
            | Some new_capacity \<Rightarrow>
                if unat (buffer_size b) \<le> unat new_capacity
                then Some (b\<lparr>buffer := take (unat (buffer_size b)) (buffer b)
                                         @ replicate (unat new_capacity - unat (buffer_size b)) None,
                             buffer_capacity := new_capacity\<rparr>)
                else None)
      else Some b)"

definition buf_emit :: "MemBuffer \<Rightarrow> u8 list \<Rightarrow> MemBuffer option" where
  "buf_emit b bs =
     (case ensure_capacity b (of_nat (length bs)) of
        None \<Rightarrow> None
      | Some b1 \<Rightarrow>
          (case buf_write b1 (buffer_size b1) bs of
             None \<Rightarrow> None
           | Some b2 \<Rightarrow> Some (b2\<lparr>buffer_size := buffer_size b2 + of_nat (length bs)\<rparr>)))"

text \<open>\<^verbatim>\<open>dup\<close> copies the emitted bytes into a fresh block: its value is the bytes.\<close>

definition buf_dup :: "MemBuffer \<Rightarrow> u8 list option" where
  "buf_dup b = buf_read b 0 (unat (buffer_size b))"

text \<open>\<^verbatim>\<open>CodeMemBuffer::Emit<T>\<close>, \<^verbatim>\<open>Load<T>\<close> and \<^verbatim>\<open>Store<T>\<close> for 4-byte types.\<close>

definition EmitBuffer :: "MemBuffer \<Rightarrow> u8 list \<Rightarrow> MemBuffer option" where
  "EmitBuffer b bs = buf_emit b bs"

definition Emit32 :: "MemBuffer \<Rightarrow> u32 \<Rightarrow> MemBuffer option" where
  "Emit32 b v = EmitBuffer b (le_bytes 4 v)"

definition Load32 :: "MemBuffer \<Rightarrow> u32 \<Rightarrow> u32 option" where
  "Load32 b offset = map_option le_word (buf_read b offset 4)"

definition Store32 :: "MemBuffer \<Rightarrow> u32 \<Rightarrow> u32 \<Rightarrow> MemBuffer option" where
  "Store32 b offset v = buf_write b offset (le_bytes 4 v)"

section \<open>The interface of an emission buffer\<close>

fun emit_all :: "('b \<Rightarrow> u8 list \<Rightarrow> 'b option) \<Rightarrow> 'b \<Rightarrow> u8 list list \<Rightarrow> 'b option" where
  "emit_all em b [] = Some b"
| "emit_all em b (c # cs) = (case em b c of None \<Rightarrow> None | Some b' \<Rightarrow> emit_all em b' cs)"

locale code_sink =
  fixes em :: "'b \<Rightarrow> u8 list \<Rightarrow> 'b option"
    and conts :: "'b \<Rightarrow> u8 list"
    and ok :: "'b \<Rightarrow> bool"
    and limit :: nat
  assumes emit_appends:
    "ok b \<Longrightarrow> length (conts b) + length bs \<le> limit \<Longrightarrow>
       \<exists>b'. em b bs = Some b' \<and> ok b' \<and> conts b' = conts b @ bs"
begin

lemma emit_all_appends:
  "ok b \<Longrightarrow> length (conts b) + length (concat cs) \<le> limit \<Longrightarrow>
     \<exists>b'. emit_all em b cs = Some b' \<and> ok b' \<and> conts b' = conts b @ concat cs"
proof (induction cs arbitrary: b)
  case Nil
  then show ?case by simp
next
  case (Cons c cs)
  then obtain b1 where b1: "em b c = Some b1" "ok b1" "conts b1 = conts b @ c"
    using emit_appends [of b c] by auto
  with Cons.IH [of b1] Cons.prems show ?case by auto
qed

end

section \<open>The buffer implements the interface\<close>

definition contents :: "MemBuffer \<Rightarrow> u8 list" where
  "contents b = map the (take (unat (buffer_size b)) (buffer b))"

definition buf_ok :: "MemBuffer \<Rightarrow> bool" where
  "buf_ok b \<longleftrightarrow>
     length (buffer b) = unat (buffer_capacity b) \<and> buffer_size b \<le> buffer_capacity b
     \<and> 0 < buffer_capacity b \<and> None \<notin> set (take (unat (buffer_size b)) (buffer b))"

lemma buf_ok_new [simp]: "buf_ok MemBuffer_new"
  by (simp add: buf_ok_def MemBuffer_new_def)

lemma contents_new [simp]: "contents MemBuffer_new = []"
  by (simp add: contents_def MemBuffer_new_def)

lemma length_contents: "buf_ok b \<Longrightarrow> length (contents b) = unat (buffer_size b)"
  by (simp add: contents_def buf_ok_def word_le_nat_alt)

lemma unat_double: "unat c < 2 ^ 31 \<Longrightarrow> unat (c * 2 :: u32) = unat c * 2"
  by (simp add: unat_word_ariths)

lemma grow_capacity_returns:
  assumes "0 < unat c" "unat need \<le> 2 ^ 31"
  shows "\<exists>c'. grow_capacity c need = Some c' \<and> need \<le> c' \<and> c \<le> c'"
  using assms
proof (induction "unat need - unat c" arbitrary: c rule: less_induct)
  case less
  show ?case
  proof (cases "c < need")
    case True
    then have d: "unat (c * 2) = unat c * 2"
      using less.prems by (intro unat_double) (simp add: word_less_nat_alt)
    then have "unat need - unat (c * 2) < unat need - unat c"
      using True less.prems by (simp add: word_less_nat_alt)
    then obtain c' where "grow_capacity (c * 2) need = Some c'" "need \<le> c'" "c * 2 \<le> c'"
      using less.hyps [of "c * 2"] less.prems d by auto
    with True d show ?thesis
      by (auto simp: grow_capacity.simps [of c] word_le_nat_alt)
  next
    case False
    then show ?thesis by (auto simp: grow_capacity.simps [of c] not_less)
  qed
qed

lemma ensure_capacity_ok:
  assumes "buf_ok b" "unat (buffer_size b) + n \<le> 2 ^ 31"
  shows "\<exists>b'. ensure_capacity b (of_nat n) = Some b' \<and> buf_ok b' \<and> contents b' = contents b
    \<and> buffer_size b' = buffer_size b \<and> unat (buffer_size b) + n \<le> length (buffer b')"
proof -
  have n: "unat (buffer_size b + of_nat n) = unat (buffer_size b) + n"
    using assms(2) by (simp add: unat_word_ariths unat_of_nat)
  show ?thesis
  proof (cases "buffer_capacity b < buffer_size b + of_nat n")
    case True
    have cap: "unat (buffer_capacity b) < 2 ^ 31" "0 < unat (buffer_capacity b)"
      using True assms n by (auto simp: word_less_nat_alt buf_ok_def)
    have "unat (buffer_capacity b * 2) = unat (buffer_capacity b) * 2"
      using cap(1) by (rule unat_double)
    then obtain c where c: "grow_capacity (buffer_capacity b * 2) (buffer_size b + of_nat n) = Some c"
      "buffer_size b + of_nat n \<le> c" "buffer_capacity b * 2 \<le> c"
      using grow_capacity_returns [of "buffer_capacity b * 2" "buffer_size b + of_nat n"]
        assms(2) n cap by auto
    then have "unat (buffer_size b) + n \<le> unat c"
      using n by (simp add: word_le_nat_alt)
    with True c assms(1) show ?thesis
      by (auto simp: ensure_capacity_def buf_ok_def contents_def word_le_nat_alt word_less_nat_alt)
  next
    case False
    with assms n show ?thesis
      by (auto simp: ensure_capacity_def buf_ok_def word_le_nat_alt word_less_nat_alt not_less)
  qed
qed

lemma buf_emit_appends:
  assumes "buf_ok b" "length (contents b) + length bs \<le> 2 ^ 31"
  shows "\<exists>b'. buf_emit b bs = Some b' \<and> buf_ok b' \<and> contents b' = contents b @ bs"
proof -
  have sz: "unat (buffer_size b) + length bs \<le> 2 ^ 31"
    using assms by (simp add: length_contents)
  obtain b1 where b1: "ensure_capacity b (of_nat (length bs)) = Some b1" "buf_ok b1"
    "contents b1 = contents b" "buffer_size b1 = buffer_size b"
    "unat (buffer_size b) + length bs \<le> length (buffer b1)"
    using ensure_capacity_ok [OF assms(1) sz] by blast
  have n: "unat (buffer_size b + of_nat (length bs)) = unat (buffer_size b) + length bs"
    using sz by (simp add: unat_word_ariths unat_of_nat)
  have "bs \<noteq> [] \<Longrightarrow> unat (buffer_size b) < length (buffer b1)"
    using b1(5) by (cases bs) auto
  then show ?thesis
    using b1 n
    by (auto simp: buf_emit_def buf_write_def buf_ok_def contents_def word_le_nat_alt
        word_less_nat_alt min_def)
qed

interpretation membuf: code_sink buf_emit contents buf_ok "2 ^ 31"
  by unfold_locales (rule buf_emit_appends)

lemma Store32_contents:
  assumes "buf_ok b" "unat off + 4 \<le> unat (buffer_size b)"
  shows "\<exists>b'. Store32 b off v = Some b' \<and> buf_ok b' \<and> Load32 b' off = Some v
    \<and> contents b' = take (unat off) (contents b) @ le_bytes 4 v @ drop (unat off + 4) (contents b)"
proof -
  let ?n = "unat (buffer_size b)" and ?o = "unat off"
  let ?b = "take ?o (buffer b) @ map Some (le_bytes 4 v) @ drop (?o + 4) (buffer b)"
  have len: "?n \<le> length (buffer b)" "?o + 4 \<le> length (buffer b)"
    using assms by (auto simp: buf_ok_def word_le_nat_alt)
  have store: "Store32 b off v = Some (b\<lparr>buffer := ?b\<rparr>)"
    using len by (simp add: Store32_def buf_write_def)
  have tk: "take ?n ?b = take ?o (take ?n (buffer b)) @ map Some (le_bytes 4 v) @ drop (?o + 4) (take ?n (buffer b))"
    using assms(2) len by (simp add: take_drop min_def)
  have "buf_ok (b\<lparr>buffer := ?b\<rparr>)"
    using assms(1) len tk
    by (auto simp: buf_ok_def dest: in_set_takeD in_set_dropD simp del: take_append take_take)
  moreover have "contents (b\<lparr>buffer := ?b\<rparr>) =
      take ?o (contents b) @ le_bytes 4 v @ drop (?o + 4) (contents b)"
    by (simp add: contents_def tk take_map drop_map o_def del: take_append take_take)
  moreover have "Load32 (b\<lparr>buffer := ?b\<rparr>) off = Some v"
    using len by (simp add: Load32_def buf_read_def o_def)
  ultimately show ?thesis using store by blast
qed

end
