(* ===== verification/Code_Patch.thy ===== *)
theory Code_Patch
  imports Mem_Range
begin

text \<open>
  \<^verbatim>\<open>DobbyCodePatch\<close> of
  \<^verbatim>\<open>source/Backend/UserMode/ExecMemory/code-patch-tool-posix.cc\<close> (the Linux and Android
  branch).  A \<open>machine\<close> is the byte memory, the protection of every page, and a state of the
  kernel the code cannot see.  The system calls are parameters: \<open>mprotect\<close>, the page size
  \<^verbatim>\<open>sysconf\<close> returns, and the lines of \<^verbatim>\<open>/proc/self/maps\<close>; \<open>mprotect_ok\<close> is what
  the manual page says of the first.  A copy that touches a page without the permission it
  needs faults, \<open>Inl OutOfBounds\<close>.  Clearing the instruction cache changes no byte.
\<close>

section \<open>Machine and system calls\<close>

record 'k machine =
  m_mem :: "64 mem"
  m_prot :: "u64 \<Rightarrow> u32 option"
  m_kernel :: 'k

text \<open>Address, length and protection; the result is the return value and the new machine.\<close>

type_synonym 'k mprotect = "'k machine \<Rightarrow> u64 \<Rightarrow> u64 \<Rightarrow> u32 \<Rightarrow> int \<times> 'k machine"

definition PROT_NONE :: u32 where "PROT_NONE = 0"
definition PROT_READ :: u32 where "PROT_READ = 1"
definition PROT_WRITE :: u32 where "PROT_WRITE = 2"
definition PROT_EXEC :: u32 where "PROT_EXEC = 4"

lemmas prot_defs = PROT_NONE_def PROT_READ_def PROT_WRITE_def PROT_EXEC_def

definition mprotect_ok :: "u64 \<Rightarrow> 'k mprotect \<Rightarrow> bool" where
  "mprotect_ok page_size mprotect \<longleftrightarrow>
     (\<forall>m page prot r m'. mprotect m page page_size prot = (r, m') \<longrightarrow>
        m_mem m' = m_mem m
        \<and> m_prot m' = (if r = 0 then (m_prot m)(page := Some prot) else m_prot m))"

text \<open>
  \<^verbatim>\<open>/proc/self/maps\<close>: \<open>None\<close> when it cannot be opened, else its lines, each the start,
  end and permission letters \<^verbatim>\<open>sscanf\<close> reads, or \<open>None\<close> where it does not match.
\<close>

type_synonym proc_maps = "(u64 \<times> u64 \<times> string) option list option"

text \<open>The four letters are read into a zeroed array of five characters.\<close>

definition perm_at :: "string \<Rightarrow> nat \<Rightarrow> char" where
  "perm_at perm i = (if i < length perm \<and> i < 4 then perm ! i else CHR 0x00)"

definition prot_of_perm :: "string \<Rightarrow> u32" where
  "prot_of_perm perm =
     (let prot = PROT_NONE;
          prot = (if perm_at perm 0 = CHR ''r'' then prot OR PROT_READ else prot);
          prot = (if perm_at perm 1 = CHR ''w'' then prot OR PROT_WRITE else prot);
          prot = (if perm_at perm 2 = CHR ''x'' then prot OR PROT_EXEC else prot)
      in prot)"

fun find_page :: "(u64 \<times> u64 \<times> string) option list \<Rightarrow> u64 \<Rightarrow> u32 option" where
  "find_page [] page = None"
| "find_page (None # ls) page = find_page ls page"
| "find_page (Some (start, end', perm) # ls) page =
     (if page \<ge> start \<and> page < end' then Some (prot_of_perm perm) else find_page ls page)"

text \<open>\<open>None\<close> is the return value -1.\<close>

definition page_protection_from_maps :: "proc_maps \<Rightarrow> u64 \<Rightarrow> u32 option" where
  "page_protection_from_maps maps page =
     (case maps of None \<Rightarrow> None | Some ls \<Rightarrow> find_page ls page)"

section \<open>Memory accesses\<close>

definition access_ok :: "u64 \<Rightarrow> 'k machine \<Rightarrow> u32 \<Rightarrow> u64 \<Rightarrow> nat \<Rightarrow> bool" where
  "access_ok page_size m flag a n =
     list_all (\<lambda>i. case m_prot m (ALIGN_FLOOR (a + of_nat i) page_size) of
                     None \<Rightarrow> False | Some prot \<Rightarrow> prot AND flag \<noteq> 0) [0..<n]"

definition memcpy_from :: "u64 \<Rightarrow> 'k machine \<Rightarrow> u64 \<Rightarrow> nat \<Rightarrow> u8 list result" where
  "memcpy_from page_size m a n =
     (if access_ok page_size m PROT_READ a n then Inr (mem_read (m_mem m) a n) else Inl OutOfBounds)"

definition memcpy_to :: "u64 \<Rightarrow> 'k machine \<Rightarrow> u64 \<Rightarrow> u8 list \<Rightarrow> 'k machine result" where
  "memcpy_to page_size m a bs =
     (if access_ok page_size m PROT_WRITE a (length bs)
      then Inr (m\<lparr>m_mem := mem_write (m_mem m) a bs\<rparr>) else Inl OutOfBounds)"

section \<open>The patch\<close>

text \<open>
  The loops over the parallel vectors \<^verbatim>\<open>pages\<close> and \<^verbatim>\<open>original_protections\<close>, here one
  list of pairs.  Errors of the restoring calls are only logged.
\<close>

fun restore_page_permissions ::
  "'k mprotect \<Rightarrow> u64 \<Rightarrow> (u64 \<times> u32) list \<Rightarrow> 'k machine \<Rightarrow> 'k machine" where
  "restore_page_permissions mprotect page_size [] m = m"
| "restore_page_permissions mprotect page_size ((page, prot) # pages) m =
     restore_page_permissions mprotect page_size pages (snd (mprotect m page page_size prot))"

text \<open>
  The page loop: the outer \<open>None\<close> is a loop that does not end, the inner one the return
  value -1.
\<close>

partial_function (option) collect_pages ::
  "proc_maps \<Rightarrow> u64 \<Rightarrow> u64 \<Rightarrow> u64 \<Rightarrow> (u64 \<times> u32) list option option" where
  "collect_pages maps page_size last_page page =
     (case page_protection_from_maps maps page of
        None \<Rightarrow> Some None
      | Some prot \<Rightarrow>
          if page = last_page then Some (Some [(page, prot)])
          else if page > UINTPTR_MAX - page_size then Some None
          else Option.bind (collect_pages maps page_size last_page (page + page_size))
                 (\<lambda>r. Some (map_option (Cons (page, prot)) r)))"

text \<open>The loop that makes the pages writable; False when a call failed.\<close>

fun make_writable ::
  "'k mprotect \<Rightarrow> u64 \<Rightarrow> (u64 \<times> u32) list \<Rightarrow> 'k machine \<Rightarrow> bool \<times> 'k machine" where
  "make_writable mprotect page_size [] m = (True, m)"
| "make_writable mprotect page_size ((page, prot) # pages) m =
     (let (r, m') = mprotect m page page_size (prot OR PROT_WRITE)
      in if r \<noteq> 0 then (False, m') else make_writable mprotect page_size pages m')"

text \<open>The loop that restores the protections and remembers an error; True when none failed.\<close>

fun restore_checked ::
  "'k mprotect \<Rightarrow> u64 \<Rightarrow> (u64 \<times> u32) list \<Rightarrow> 'k machine \<Rightarrow> bool \<times> 'k machine" where
  "restore_checked mprotect page_size [] m = (True, m)"
| "restore_checked mprotect page_size ((page, prot) # pages) m =
     (let (r, m') = mprotect m page page_size prot;
          (ok, m'') = restore_checked mprotect page_size pages m'
      in (r = 0 \<and> ok, m''))"

text \<open>What follows the page loop.\<close>

definition patch_pages ::
  "'k mprotect \<Rightarrow> u64 \<Rightarrow> (u64 \<times> u32) list \<Rightarrow> 'k machine \<Rightarrow> u64 \<Rightarrow> u8 list \<Rightarrow>
     (int \<times> 'k machine) result" where
  "patch_pages mprotect page_size pages m address buffer =
     sbind (memcpy_from page_size m address (length buffer)) (\<lambda>original_bytes.
       let (writable, m) = make_writable mprotect page_size pages m
       in if \<not> writable then Inr (-1, restore_page_permissions mprotect page_size pages m)
          else sbind (memcpy_to page_size m address buffer) (\<lambda>m.
            let (restored, m) = restore_checked mprotect page_size pages m
            in if restored then Inr (0, m)
               else
                 let m = restore_page_permissions mprotect page_size
                           (map (\<lambda>(page, prot). (page, prot OR PROT_WRITE)) pages) m
                 in sbind (memcpy_to page_size m address original_bytes) (\<lambda>m.
                      Inr (-1, restore_page_permissions mprotect page_size pages m))))"

text \<open>\<open>buffer\<close> is the bytes at the \<^verbatim>\<open>buffer\<close> argument, \<open>None\<close> for a null pointer.\<close>

definition DobbyCodePatch ::
  "'k mprotect \<Rightarrow> int \<Rightarrow> proc_maps \<Rightarrow> 'k machine \<Rightarrow> u64 \<Rightarrow> u8 list option \<Rightarrow>
     (int \<times> 'k machine) result option" where
  "DobbyCodePatch mprotect page_size_long maps m address buffer =
     (case buffer of
        None \<Rightarrow> Some (Inr (-1, m))
      | Some bytes \<Rightarrow>
          if address = 0 \<or> length bytes = 0 then Some (Inr (-1, m))
          else if page_size_long \<le> 0 then Some (Inr (-1, m))
          else
            let page_size = word_of_int page_size_long;
                patch_end = address + of_nat (length bytes) - 1
            in if patch_end < address then Some (Inr (-1, m))
               else
                 let first_page = ALIGN_FLOOR address page_size;
                     last_page = ALIGN_FLOOR patch_end page_size
                 in Option.bind (collect_pages maps page_size last_page first_page)
                      (\<lambda>r. case r of
                              None \<Rightarrow> Some (Inr (-1, m))
                            | Some pages \<Rightarrow> Some (patch_pages mprotect page_size pages m address bytes)))"

section \<open>Frame lemmas of the protection loops\<close>

lemma mprotect_frame:
  assumes "mprotect_ok page_size mprotect"
  shows "m_mem (snd (mprotect m page page_size prot)) = m_mem m"
    and "m_prot (snd (mprotect m page page_size prot)) =
      (if fst (mprotect m page page_size prot) = 0 then (m_prot m)(page := Some prot) else m_prot m)"
  using assms unfolding mprotect_ok_def by (metis surjective_pairing)+

lemma restore_mem [simp]:
  "mprotect_ok page_size mprotect \<Longrightarrow>
     m_mem (restore_page_permissions mprotect page_size pages m) = m_mem m"
  by (induction pages arbitrary: m) (auto simp: mprotect_frame)

lemma make_writable_mem:
  "mprotect_ok page_size mprotect \<Longrightarrow> m_mem (snd (make_writable mprotect page_size pages m)) = m_mem m"
  by (induction pages arbitrary: m) (auto simp: Let_def split_def mprotect_frame)

lemma restore_checked_mem:
  "mprotect_ok page_size mprotect \<Longrightarrow> m_mem (snd (restore_checked mprotect page_size pages m)) = m_mem m"
  by (induction pages arbitrary: m) (auto simp: Let_def split_def mprotect_frame)

lemma patch_pages_atomic:
  assumes "mprotect_ok page_size mprotect"
  shows "rpost (\<lambda>(r, m'). r = 0 \<and> m_mem m' = mem_write (m_mem m) address buffer
      \<or> r = -1 \<and> m_mem m' = m_mem m) (patch_pages mprotect page_size pages m address buffer)"
  using assms
  by (auto simp: patch_pages_def Let_def split_def rpost memcpy_from_def memcpy_to_def
      make_writable_mem restore_checked_mem mem_write_restore)

lemma make_writable_prot:
  "mprotect_ok page_size mprotect \<Longrightarrow> fst (make_writable mprotect page_size pages m) \<Longrightarrow>
     m_prot (snd (make_writable mprotect page_size pages m)) =
       m_prot m ++ map_of (rev (map (\<lambda>(page, prot). (page, prot OR PROT_WRITE)) pages))"
  by (induction pages arbitrary: m)
    (auto simp: Let_def split_def mprotect_frame map_add_assoc split: if_splits)

lemma restore_checked_prot:
  "mprotect_ok page_size mprotect \<Longrightarrow> fst (restore_checked mprotect page_size pages m) \<Longrightarrow>
     m_prot (snd (restore_checked mprotect page_size pages m)) = m_prot m ++ map_of (rev pages)"
  by (induction pages arbitrary: m)
    (auto simp: Let_def split_def mprotect_frame map_add_assoc split: if_splits)

text \<open>\<open>pages_agree\<close>: the recorded protections are the ones in force.\<close>

definition pages_agree :: "(u64 \<times> u32) list \<Rightarrow> 'k machine \<Rightarrow> bool" where
  "pages_agree pages m \<longleftrightarrow> (\<forall>(page, prot) \<in> set pages. m_prot m page = Some prot)"

lemma map_add_overwrite: "dom f \<subseteq> dom g \<Longrightarrow> h ++ f ++ g = h ++ g"
  by (rule ext) (force simp: map_add_def split: option.splits)

lemma map_add_agree: "pages_agree pages m \<Longrightarrow> m_prot m ++ map_of (rev pages) = m_prot m"
  by (rule ext) (force simp: pages_agree_def map_add_def split: option.splits dest!: map_of_SomeD)

lemma patch_pages_prot:
  assumes "mprotect_ok page_size mprotect" and "pages_agree pages m"
  shows "rpost (\<lambda>(r, m'). r = 0 \<longrightarrow> m_prot m' = m_prot m)
    (patch_pages mprotect page_size pages m address buffer)"
proof -
  have "dom (map_of (rev (map (\<lambda>(page, prot). (page, prot OR PROT_WRITE)) pages))) \<subseteq> dom (map_of (rev pages))"
    unfolding dom_map_of_conv_image_fst by (auto simp: image_iff split_def) force
  then have "m_prot m ++ map_of (rev (map (\<lambda>(page, prot). (page, prot OR PROT_WRITE)) pages))
      ++ map_of (rev pages) = m_prot m"
    using assms(2) by (simp add: map_add_overwrite map_add_agree)
  then show ?thesis
    using assms(1)
    by (auto simp: patch_pages_def Let_def split_def rpost memcpy_from_def memcpy_to_def
        make_writable_prot restore_checked_prot)
qed

section \<open>The page loop\<close>

lemma collect_pages_returns:
  assumes "0 < page_size"
  shows "\<exists>r. collect_pages maps page_size last_page page = Some r \<and>
    (\<forall>pages. r = Some pages \<longrightarrow> (\<forall>(p, q) \<in> set pages. page_protection_from_maps maps p = Some q
       \<and> (unat page_size dvd unat page \<longrightarrow> unat page_size dvd unat p)))"
proof (induction "2 ^ 64 - unat page" arbitrary: page rule: less_induct)
  case less
  show ?case
  proof (cases "page_protection_from_maps maps page")
    case None
    then show ?thesis by (subst collect_pages.simps) simp
  next
    case (Some prot)
    show ?thesis
    proof (cases "page = last_page \<or> page > UINTPTR_MAX - page_size")
      case True
      with Some show ?thesis by (subst collect_pages.simps) auto
    next
      case False
      then have "uint page + uint page_size < 2 ^ 64"
        using contains_no_wrap[of page page_size] by (simp add: not_less)
      then have sum: "uint (page + page_size) = uint page + uint page_size"
        by (rule uint_add_small)
      then have "int (unat (page + page_size)) = int (unat page + unat page_size)"
        by simp
      then have "unat (page + page_size) = unat page + unat page_size"
        by (simp only: of_nat_eq_iff)
      then have al: "unat page_size dvd unat page \<Longrightarrow> unat page_size dvd unat (page + page_size)"
        by simp
      have "page < page + page_size"
        using assms sum by (simp add: word_less_def)
      then have "unat page < unat (page + page_size)"
        by (simp add: word_less_nat_alt)
      then have "2 ^ 64 - unat (page + page_size) < 2 ^ 64 - unat page"
        using unat_less_exp[of "page + page_size"] by simp
      from less[OF this] False Some al show ?thesis
        by (subst collect_pages.simps) fastforce
    qed
  qed
qed

lemma collect_pages_listed:
  assumes "0 < page_size" and "collect_pages maps page_size last_page page = Some (Some pages)"
    and "(p, q) \<in> set pages"
  shows "page_protection_from_maps maps p = Some q"
    and "unat page_size dvd unat page \<Longrightarrow> unat page_size dvd unat p"
  using collect_pages_returns[OF assms(1), of maps last_page page] assms(2,3) by auto

lemma bind_total: "\<exists>y. x = Some y \<Longrightarrow> (\<And>r. \<exists>y. g r = Some y) \<Longrightarrow> \<exists>y. Option.bind x g = Some y"
  by auto

lemma collect_pages_not_None: "0 < page_size \<Longrightarrow> collect_pages maps page_size last_page page \<noteq> None"
  using collect_pages_returns[of page_size maps last_page page] by auto

text \<open>The pages \<open>first\<close>, \<open>first + page_size\<close>, ... up to \<open>d\<close> steps.\<close>

definition page_run :: "u64 \<Rightarrow> u64 \<Rightarrow> nat \<Rightarrow> u64 list" where
  "page_run page_size first d = map (\<lambda>i. first + of_nat i * page_size) [0..<Suc d]"

lemma page_run_Suc:
  "page_run page_size first (Suc d) = first # page_run page_size (first + page_size) d"
  unfolding page_run_def upt_conv_Cons[OF zero_less_Suc] map_Suc_upt[symmetric]
  by (simp add: algebra_simps del: upt_Suc)

lemma collect_pages_run:
  assumes "0 < page_size" and "unat first + d * unat page_size < 2 ^ 64"
    and "\<forall>p \<in> set (page_run page_size first d). page_protection_from_maps maps p \<noteq> None"
  shows "collect_pages maps page_size (first + of_nat d * page_size) first =
    Some (Some (map (\<lambda>p. (p, the (page_protection_from_maps maps p))) (page_run page_size first d)))"
  using assms(2,3)
proof (induction d arbitrary: first)
  case 0
  then show ?case
    by (subst collect_pages.simps) (auto simp: page_run_def)
next
  case (Suc d)
  have nowrap: "unat (first + page_size) = unat first + unat page_size"
    using Suc.prems(1) by (simp add: unat_word_ariths)
  have "unat first + unat page_size < 2 ^ 64"
    using Suc.prems(1) by simp
  then have "\<not> first > UINTPTR_MAX - page_size"
    by (simp add: no_wrap_unat not_less)
  moreover have "first \<noteq> first + of_nat (Suc d) * page_size"
  proof
    assume "first = first + of_nat (Suc d) * page_size"
    then have "of_nat (Suc d * unat page_size) = (0 :: u64)"
      by (simp add: algebra_simps)
    then have "2 ^ 64 dvd Suc d * unat page_size"
      by (simp only: word_of_nat_eq_0_iff) simp
    then show False
      using Suc.prems(1) assms(1) by (auto dest!: dvd_imp_le simp: word_less_nat_alt)
  qed
  moreover have "collect_pages maps page_size (first + page_size + of_nat d * page_size) (first + page_size) =
    Some (Some (map (\<lambda>p. (p, the (page_protection_from_maps maps p))) (page_run page_size (first + page_size) d)))"
    using Suc.prems by (intro Suc.IH) (auto simp: page_run_Suc nowrap)
  ultimately show ?case
    using Suc.prems(2)
    by (subst collect_pages.simps) (auto simp: page_run_Suc algebra_simps)
qed

lemma page_run_unat:
  assumes "unat (first :: u64) + d * unat page_size < 2 ^ 64" and "i \<le> d"
  shows "unat (first + of_nat i * page_size) = unat first + i * unat page_size"
proof -
  have "i * unat page_size \<le> d * unat page_size"
    using assms(2) by (rule mult_le_mono1)
  then have "unat first + i * unat page_size < 2 ^ 64"
    using assms(1) by linarith
  moreover have "first + of_nat i * page_size = of_nat (unat first + i * unat page_size)"
    by simp
  ultimately show ?thesis
    by (simp only: unat_of_nat) simp
qed

text \<open>Every byte of the patch lies on a page of the run from its first to its last page.\<close>

lemma patch_bytes_on_pages:
  assumes "k < 64" and "n > 0" and "unat a + n \<le> 2 ^ 64"
  defines "first \<equiv> ALIGN_FLOOR a (2 ^ k)" and "d \<equiv> (unat a + n - 1) div 2 ^ k - unat a div 2 ^ k"
  shows "unat first + d * 2 ^ k < 2 ^ 64"
    and "ALIGN_FLOOR (a + of_nat n - 1) (2 ^ k) = first + of_nat d * 2 ^ k"
    and "i < n \<Longrightarrow> ALIGN_FLOOR (a + of_nat i) (2 ^ k) \<in> set (page_run (2 ^ k) first d)"
proof -
  have k: "unat (2 ^ k :: u64) = 2 ^ k"
    using unat_of_nat[of "2 ^ k", where 'a = 64] power_strict_increasing[OF assms(1), of "2 :: nat"]
    by simp
  have f: "unat first = unat a div 2 ^ k * 2 ^ k"
    using assms(1) by (simp add: first_def ALIGN_FLOOR_unat)
  have le: "unat a div 2 ^ k \<le> (unat a + n - 1) div 2 ^ k"
    using assms(2) by (intro div_le_mono) simp
  then have tot: "unat first + d * 2 ^ k = (unat a + n - 1) div 2 ^ k * 2 ^ k"
    by (simp add: f d_def flip: add_mult_distrib)
  show bound: "unat first + d * 2 ^ k < 2 ^ 64"
    using div_times_less_eq_dividend[of "unat a + n - 1" "2 ^ k"] assms(2,3) unfolding tot by linarith
  have run: "ALIGN_FLOOR (a + of_nat j) (2 ^ k) = first + of_nat ((unat a + j) div 2 ^ k - unat a div 2 ^ k) * 2 ^ k
      \<and> (unat a + j) div 2 ^ k - unat a div 2 ^ k \<le> d" if "j < n" for j
  proof -
    let ?e = "(unat a + j) div 2 ^ k - unat a div 2 ^ k"
    have "unat (a + of_nat j) = unat a + j"
      using that assms(3) by (simp add: unat_word_ariths unat_of_nat)
    then have "unat (ALIGN_FLOOR (a + of_nat j) (2 ^ k)) = (unat a + j) div 2 ^ k * 2 ^ k"
      using assms(1) by (simp add: ALIGN_FLOOR_unat)
    moreover have "?e \<le> d"
      unfolding d_def using that by (intro diff_le_mono div_le_mono) simp
    moreover from this have "unat (first + of_nat ?e * 2 ^ k) = unat first + ?e * 2 ^ k"
      using page_run_unat[of first d "2 ^ k" ?e] bound by (simp add: k)
    moreover have "unat first + ?e * 2 ^ k = (unat a + j) div 2 ^ k * 2 ^ k"
      by (simp add: f div_le_mono flip: add_mult_distrib)
    ultimately show ?thesis
      by (simp add: word_unat_eq_iff)
  qed
  show "ALIGN_FLOOR (a + of_nat n - 1) (2 ^ k) = first + of_nat d * 2 ^ k"
    using run[of "n - 1"] assms(2) by (simp add: d_def of_nat_diff add_diff_eq)
  show "ALIGN_FLOOR (a + of_nat i) (2 ^ k) \<in> set (page_run (2 ^ k) first d)" if "i < n"
    using run[OF that] by (auto simp: page_run_def simp del: upt_Suc)
qed

section \<open>Success\<close>

definition patch_run :: "nat \<Rightarrow> u64 \<Rightarrow> nat \<Rightarrow> u64 list" where
  "patch_run k a n =
     page_run (2 ^ k) (ALIGN_FLOOR a (2 ^ k)) ((unat a + n - 1) div 2 ^ k - unat a div 2 ^ k)"

text \<open>What the calls of \<^verbatim>\<open>mprotect\<close> on the pages keep, the loops keep; where all calls succeed, so do they.\<close>

lemma make_writable_keeps:
  assumes "\<forall>m p q. J m \<longrightarrow> (p, q) \<in> set pages \<longrightarrow> J (snd (mprotect m p page_size (q OR PROT_WRITE)))" and "J m"
  shows "J (snd (make_writable mprotect page_size pages m))"
  using assms by (induction pages arbitrary: m) (auto simp: Let_def split_def)

lemma restore_checked_keeps:
  assumes "\<forall>m p q. J m \<longrightarrow> (p, q) \<in> set pages \<longrightarrow> J (snd (mprotect m p page_size q))" and "J m"
  shows "J (snd (restore_checked mprotect page_size pages m))"
  using assms by (induction pages arbitrary: m) (auto simp: Let_def split_def)

lemma restore_keeps:
  assumes "\<forall>m p q. J m \<longrightarrow> (p, q) \<in> set pages \<longrightarrow> J (snd (mprotect m p page_size q))" and "J m"
  shows "J (restore_page_permissions mprotect page_size pages m)"
  using assms by (induction pages arbitrary: m) auto

lemma make_writable_ok:
  assumes "\<forall>m p q. J m \<longrightarrow> (p, q) \<in> set pages \<longrightarrow>
      fst (mprotect m p page_size (q OR PROT_WRITE)) = 0 \<and> J (snd (mprotect m p page_size (q OR PROT_WRITE)))" and "J m"
  shows "fst (make_writable mprotect page_size pages m)"
  using assms by (induction pages arbitrary: m) (auto simp: Let_def split_def)

lemma restore_checked_ok:
  assumes "\<forall>m p q. J m \<longrightarrow> (p, q) \<in> set pages \<longrightarrow>
      fst (mprotect m p page_size q) = 0 \<and> J (snd (mprotect m p page_size q))" and "J m"
  shows "fst (restore_checked mprotect page_size pages m)"
  using assms by (induction pages arbitrary: m) (auto simp: Let_def split_def)

lemma patch_pages_keeps:
  assumes "\<forall>m p q w. J m \<longrightarrow> (p, q) \<in> set pages \<longrightarrow> w \<in> {q, q OR PROT_WRITE} \<longrightarrow> J (snd (mprotect m p page_size w))"
    and "\<forall>m mem. J m \<longrightarrow> J (m\<lparr>m_mem := mem\<rparr>)" and "J m"
  shows "rpost (\<lambda>(r, m'). J m') (patch_pages mprotect page_size pages m address buffer)"
proof -
  let ?w = "map (\<lambda>(page, prot). (page, prot OR PROT_WRITE)) pages"
  have w: "J (restore_page_permissions mprotect page_size ?w m)" if "J m" for m
    using that assms(1) by (intro restore_keeps[where J = J and mprotect = mprotect]) auto
  have r: "J (restore_page_permissions mprotect page_size pages m)" if "J m" for m
    by (rule restore_keeps[where J = J and mprotect = mprotect, OF _ that]) (use assms(1) in simp)
  have c: "J (snd (restore_checked mprotect page_size pages m))" if "J m" for m
    by (rule restore_checked_keeps[where J = J and mprotect = mprotect, OF _ that]) (use assms(1) in simp)
  have "J (snd (make_writable mprotect page_size pages m))"
    by (rule make_writable_keeps[where J = J and mprotect = mprotect, OF _ assms(3)]) (use assms(1) in simp)
  then have "J ((snd (make_writable mprotect page_size pages m))\<lparr>m_mem := m1\<rparr>)"
    "J (restore_page_permissions mprotect page_size pages (snd (make_writable mprotect page_size pages m)))" for m1
    using assms(2) r by simp_all
  moreover from this(1) have "J (snd (restore_checked mprotect page_size pages ((snd (make_writable mprotect page_size pages m))\<lparr>m_mem := m1\<rparr>)))" for m1
    by (rule c)
  moreover from w[OF this] have "J (restore_page_permissions mprotect page_size pages
      ((restore_page_permissions mprotect page_size ?w (snd (restore_checked mprotect page_size pages
        ((snd (make_writable mprotect page_size pages m))\<lparr>m_mem := m1\<rparr>))))\<lparr>m_mem := m2\<rparr>))" for m1 m2
    by (intro r) (use assms(2) in blast)
  ultimately show ?thesis
    by (simp add: patch_pages_def Let_def split_def rpost memcpy_from_def memcpy_to_def)
qed

lemma access_ok_I:
  assumes "\<And>i. i < n \<Longrightarrow> ALIGN_FLOOR (a + of_nat i) ps \<in> set run"
    and "\<And>p. p \<in> set run \<Longrightarrow> \<exists>q. m_prot m p = Some q \<and> q AND flag \<noteq> 0"
  shows "access_ok ps m flag a n"
  using assms by (fastforce simp: access_ok_def list_all_iff split: option.splits)

lemma or_write_neq_0: "(q OR PROT_WRITE) AND PROT_WRITE \<noteq> 0"
  by (simp add: bit.conj_disj_distrib2 prot_defs)

lemma patch_pages_succeeds:
  assumes ok: "mprotect_ok (2 ^ k) mprotect"
    and step: "\<forall>m p w. J m \<longrightarrow> p \<in> set (patch_run k a (length bs)) \<longrightarrow> w \<in> {f p, f p OR PROT_WRITE} \<longrightarrow>
        fst (mprotect m p (2 ^ k) w) = 0 \<and> J (snd (mprotect m p (2 ^ k) w))"
    and mem: "\<forall>m mem. J m \<longrightarrow> J (m\<lparr>m_mem := mem\<rparr>)" and J: "J m"
    and a: "k < 64" "bs \<noteq> []" "unat a + length bs \<le> 2 ^ 64"
    and prot: "\<And>p. p \<in> set (patch_run k a (length bs)) \<Longrightarrow> \<exists>q. f p = q \<and> m_prot m p = Some q \<and> q AND PROT_READ \<noteq> 0"
  shows "\<exists>m'. patch_pages mprotect (2 ^ k) (map (\<lambda>p. (p, f p)) (patch_run k a (length bs))) m a bs = Inr (0, m')"
proof -
  let ?run = "patch_run k a (length bs)"
  let ?pages = "map (\<lambda>p. (p, f p)) ?run"
  have run: "\<And>i. i < length bs \<Longrightarrow> ALIGN_FLOOR (a + of_nat i) (2 ^ k) \<in> set ?run"
    using patch_bytes_on_pages(3)[of k "length bs" a] a by (simp add: patch_run_def)
  let ?m1 = "snd (make_writable mprotect (2 ^ k) ?pages m)"
  have w: "fst (make_writable mprotect (2 ^ k) ?pages m)" and J1: "J ?m1"
    using step J by (auto intro!: make_writable_ok[of J] make_writable_keeps[of J])
  have "m_prot ?m1 p = Some (f p OR PROT_WRITE)" if "p \<in> set ?run" for p
  proof -
    have "map_of (rev (map (\<lambda>(page, prot). (page, prot OR PROT_WRITE)) ?pages)) p = Some (f p OR PROT_WRITE)"
      using that by (simp add: o_def map_of_map_restrict rev_map)
    then show ?thesis
      by (simp add: make_writable_prot[OF ok w])
  qed
  then have "access_ok (2 ^ k) ?m1 PROT_WRITE a (length bs)"
    using run or_write_neq_0 by (intro access_ok_I[where run = ?run]) auto
  moreover have "access_ok (2 ^ k) m PROT_READ a (length bs)"
    using run prot by (intro access_ok_I[where run = ?run]) auto
  moreover have "fst (restore_checked mprotect (2 ^ k) ?pages (?m1\<lparr>m_mem := mem'\<rparr>))" for mem'
    using step mem J1 by (intro restore_checked_ok[of J]) auto
  ultimately show ?thesis
    using w by (auto simp: patch_pages_def memcpy_from_def memcpy_to_def split_def Let_def)
qed

section \<open>The whole patch\<close>

lemma patch_atomic:
  assumes "mprotect_ok (word_of_int page_size) mprotect"
    and "DobbyCodePatch mprotect page_size maps m address (Some bytes) = Some (Inr (r, m'))"
  shows "r = 0 \<and> m_mem m' = mem_write (m_mem m) address bytes \<or> r = -1 \<and> m_mem m' = m_mem m"
proof -
  have *: "r = 0 \<and> m_mem m' = mem_write (m_mem m) address bytes \<or> r = -1 \<and> m_mem m' = m_mem m"
    if "patch_pages mprotect (word_of_int page_size) pages m address bytes = Inr (r, m')" for pages
    using rpostD[OF patch_pages_atomic[OF assms(1)] that] by simp
  show ?thesis
    using assms(2)
    by (auto simp: DobbyCodePatch_def Let_def bind_eq_Some_conv split: if_splits option.splits dest: *)
qed

lemma patch_keeps:
  assumes "\<forall>m p q w. J m \<longrightarrow> 2 ^ k dvd unat p \<longrightarrow> page_protection_from_maps maps p = Some q \<longrightarrow> w \<in> {q, q OR PROT_WRITE} \<longrightarrow>
      J (snd (mprotect m p (2 ^ k) w))"
    and "\<forall>m mem. J m \<longrightarrow> J (m\<lparr>m_mem := mem\<rparr>)" and "J m" and "k < 63"
    and "DobbyCodePatch mprotect (2 ^ k) maps m address (Some bytes) = Some (Inr (r, m'))"
  shows "J m'"
proof -
  have k: "unat (2 ^ k :: u64) = 2 ^ k" "0 < (2 ^ k :: u64)"
    using assms(4) by (simp_all add: unat_two_power word_less_nat_alt)
  have al: "2 ^ k dvd unat (ALIGN_FLOOR address (2 ^ k))"
    using assms(4) by (simp add: ALIGN_FLOOR_unat)
  have *: "J m'" if "collect_pages maps (2 ^ k) l (ALIGN_FLOOR address (2 ^ k)) = Some (Some pages)"
    "patch_pages mprotect (2 ^ k) pages m address bytes = Inr (r, m')" for l pages
  proof -
    have "\<forall>m p q w. J m \<longrightarrow> (p, q) \<in> set pages \<longrightarrow> w \<in> {q, q OR PROT_WRITE} \<longrightarrow> J (snd (mprotect m p (2 ^ k) w))"
      using assms(1) collect_pages_listed[OF k(2) that(1)] k(1) al by auto
    from rpostD[OF patch_pages_keeps[where J = J and mprotect = mprotect and pages = pages, OF this assms(2,3)] that(2)] show ?thesis by simp
  qed
  show ?thesis
    using assms(3,5) by (auto simp: DobbyCodePatch_def Let_def bind_eq_Some_conv split: if_splits option.splits dest: *)
qed

lemma patch_protections:
  assumes "mprotect_ok (word_of_int page_size) mprotect" and "0 < page_size" and "page_size < 2 ^ 63"
    and "\<And>p q. unat (word_of_int page_size :: u64) dvd unat (ALIGN_FLOOR address (word_of_int page_size)) \<longrightarrow>
        unat (word_of_int page_size :: u64) dvd unat p \<Longrightarrow> page_protection_from_maps maps p = Some q \<Longrightarrow> m_prot m p = Some q"
    and "DobbyCodePatch mprotect page_size maps m address (Some bytes) = Some (Inr (0, m'))"
  shows "m_prot m' = m_prot m"
proof -
  have ps: "0 < (word_of_int page_size :: u64)"
    using assms(2,3) by (simp add: word_less_def uint_word_of_int)
  obtain pages where pages: "collect_pages maps (word_of_int page_size)
      (ALIGN_FLOOR (address + of_nat (length bytes) - 1) (word_of_int page_size))
      (ALIGN_FLOOR address (word_of_int page_size)) = Some (Some pages)"
    "patch_pages mprotect (word_of_int page_size) pages m address bytes = Inr (0, m')"
    using assms(2,5)
    by (auto simp: DobbyCodePatch_def Let_def bind_eq_Some_conv split: if_splits option.splits)
  then have "pages_agree pages m"
    using collect_pages_listed[OF ps pages(1)] assms(4) by (auto simp: pages_agree_def)
  then show ?thesis
    using rpostD[OF patch_pages_prot[OF assms(1)] pages(2)] by simp
qed

lemma patch_returns:
  assumes "page_size < 2 ^ 63"
  shows "DobbyCodePatch mprotect page_size maps m address buffer \<noteq> None"
proof (cases "0 < page_size")
  case True
  then have ps: "0 < (word_of_int page_size :: u64)"
    using assms by (simp add: word_less_def uint_word_of_int)
  show ?thesis
    using collect_pages_not_None[OF ps, of maps]
    by (auto simp: DobbyCodePatch_def Let_def split: option.splits intro!: bind_total)
qed (simp add: DobbyCodePatch_def split: option.splits)

lemma patch_succeeds:
  assumes "mprotect_ok (2 ^ k) mprotect"
    and "\<forall>m p q w. J m \<longrightarrow> p \<in> set (patch_run k address (length bytes)) \<longrightarrow> page_protection_from_maps maps p = Some q \<longrightarrow>
        w \<in> {q, q OR PROT_WRITE} \<longrightarrow> fst (mprotect m p (2 ^ k) w) = 0 \<and> J (snd (mprotect m p (2 ^ k) w))"
    and "k < 63" and "address \<noteq> 0" and "bytes \<noteq> []" and "unat address + length bytes \<le> 2 ^ 64"
    and "\<And>p. p \<in> set (patch_run k address (length bytes)) \<Longrightarrow>
      \<exists>q. page_protection_from_maps maps p = Some q \<and> m_prot m p = Some q \<and> q AND PROT_READ \<noteq> 0"
    and "\<forall>m mem. J m \<longrightarrow> J (m\<lparr>m_mem := mem\<rparr>)" and "J m"
  shows "\<exists>m'. DobbyCodePatch mprotect (2 ^ k) maps m address (Some bytes) = Some (Inr (0, m'))
    \<and> m_mem m' = mem_write (m_mem m) address bytes"
proof -
  let ?n = "length bytes" and ?first = "ALIGN_FLOOR address (2 ^ k)"
  let ?d = "(unat address + length bytes - 1) div 2 ^ k - unat address div 2 ^ k"
  let ?f = "\<lambda>p. the (page_protection_from_maps maps p)"
  have k: "k < 64" and n: "?n > 0" and k2: "unat (2 ^ k :: u64) = 2 ^ k"
    using assms(3,5) unat_of_nat[of "2 ^ k", where 'a = 64]
      power_strict_increasing[of k 64 "2 :: nat"] by auto
  have "unat (address + of_nat ?n - 1) = unat address + ?n - 1"
    using unat_of_nat[of "unat address + ?n - 1", where 'a = 64] n assms(6)
    by (simp add: of_nat_diff)
  then have ends: "\<not> address + of_nat ?n - 1 < address"
    using n unfolding word_less_nat_alt by linarith
  have pos: "0 < (2 ^ k :: u64)"
    using k2 by (simp add: word_less_nat_alt)
  have run: "\<exists>q. page_protection_from_maps maps p = Some q \<and> m_prot m p = Some q \<and> q AND PROT_READ \<noteq> 0"
    if "p \<in> set (page_run (2 ^ k) ?first ?d)" for p
    using assms(7) that by (simp add: patch_run_def)
  have "collect_pages maps (2 ^ k) (?first + of_nat ?d * 2 ^ k) ?first =
      Some (Some (map (\<lambda>p. (p, ?f p)) (page_run (2 ^ k) ?first ?d)))"
    using patch_bytes_on_pages(1)[OF k n assms(6)] run by (intro collect_pages_run[OF pos]) (auto simp: k2)
  then have collected: "collect_pages maps (2 ^ k) (ALIGN_FLOOR (address + of_nat ?n - 1) (2 ^ k)) ?first =
      Some (Some (map (\<lambda>p. (p, ?f p)) (patch_run k address ?n)))"
    by (simp add: patch_bytes_on_pages(2)[OF k n assms(6)] patch_run_def)
  have step: "\<forall>m p w. J m \<longrightarrow> p \<in> set (patch_run k address ?n) \<longrightarrow> w \<in> {?f p, ?f p OR PROT_WRITE} \<longrightarrow>
      fst (mprotect m p (2 ^ k) w) = 0 \<and> J (snd (mprotect m p (2 ^ k) w))"
    using assms(2,7) by fastforce
  obtain m' where m': "patch_pages mprotect (2 ^ k) (map (\<lambda>p. (p, ?f p)) (patch_run k address ?n)) m address bytes = Inr (0, m')"
    using patch_pages_succeeds[OF assms(1) step assms(8,9) k assms(5,6)] assms(7) by fastforce
  moreover have "m_mem m' = mem_write (m_mem m) address bytes"
    using rpostD[OF patch_pages_atomic[OF assms(1)] m'] by simp
  ultimately show ?thesis
    using assms(4) n ends collected by (auto simp: DobbyCodePatch_def Let_def)
qed

section \<open>Properties\<close>

text \<open>
  C7.  Patching is all or nothing: whenever \<^verbatim>\<open>DobbyCodePatch\<close> returns, either it
  returned 0 and exactly the bytes of the buffer were written, or it returned -1 and every byte
  of memory is what it was.
\<close>

theorem code_patch_atomic:
  assumes "mprotect_ok (word_of_int page_size) mprotect"
    and "DobbyCodePatch mprotect page_size maps m address (Some bytes) = Some (Inr (r, m'))"
  shows "r = 0 \<and> m_mem m' = mem_write (m_mem m) address bytes \<or> r = -1 \<and> m_mem m' = m_mem m"
  by (rule patch_atomic[OF assms])


text \<open>
  C19.  A successful patch leaves the protection of every page as it was, if the protections
  listed in \<^verbatim>\<open>/proc/self/maps\<close> are the ones in force.
\<close>

theorem code_patch_protections:
  assumes "mprotect_ok (word_of_int page_size) mprotect" and "0 < page_size" and "page_size < 2 ^ 63"
    and "\<And>p q. page_protection_from_maps maps p = Some q \<Longrightarrow> m_prot m p = Some q"
    and "DobbyCodePatch mprotect page_size maps m address (Some bytes) = Some (Inr (0, m'))"
  shows "m_prot m' = m_prot m"
  by (rule patch_protections[OF assms(1-3) _ assms(5)]) (rule assms(4))


text \<open>
  \<^verbatim>\<open>DobbyCodePatch\<close> always comes to an end: its page loop cannot run forever, for
  any page size the system reports, any address and any contents of \<^verbatim>\<open>/proc/self/maps\<close>.
\<close>

lemma code_patch_terminates:
  assumes "page_size < 2 ^ 63"
  shows "DobbyCodePatch mprotect page_size maps m address buffer \<noteq> None"
  by (rule patch_returns[OF assms])


text \<open>
  C18.  When every \<^verbatim>\<open>mprotect\<close> call succeeds and every page the buffer touches is listed as
  readable, the patch succeeds: it never writes to a page that is not writable, returns 0, and
  the bytes are in place.
\<close>

theorem code_patch_succeeds:
  assumes "mprotect_ok (2 ^ k) mprotect" and "\<And>m p q. fst (mprotect m p (2 ^ k) q) = 0"
    and "k < 63" and "address \<noteq> 0" and "bytes \<noteq> []" and "unat address + length bytes \<le> 2 ^ 64"
    and "\<And>p. p \<in> set (patch_run k address (length bytes)) \<Longrightarrow>
      \<exists>q. page_protection_from_maps maps p = Some q \<and> m_prot m p = Some q \<and> q AND PROT_READ \<noteq> 0"
  shows "\<exists>m'. DobbyCodePatch mprotect (2 ^ k) maps m address (Some bytes) = Some (Inr (0, m'))
    \<and> m_mem m' = mem_write (m_mem m) address bytes"
  by (rule patch_succeeds[where J = "\<lambda>_. True"]) (use assms in auto)

section \<open>Witnesses\<close>

text \<open>A kernel whose \<^verbatim>\<open>mprotect\<close> always succeeds, two executable pages, and a patch across them.\<close>

definition mprotect_always :: "unit mprotect" where
  "mprotect_always m page len prot = (0, m\<lparr>m_prot := (m_prot m)(page := Some prot)\<rparr>)"

definition patch_machine :: "unit machine" where
  "patch_machine = \<lparr>m_mem = (\<lambda>a. 0x90),
     m_prot = (\<lambda>a. if 0x1000 \<le> a \<and> a < 0x3000 then Some 5 else None), m_kernel = ()\<rparr>"

definition patch_maps :: proc_maps where
  "patch_maps = Some [None, Some (0x1000, 0x3000, ''r-xp'')]"

lemma mprotect_always_ok: "mprotect_ok page_size mprotect_always"
  by (auto simp: mprotect_ok_def mprotect_always_def)

lemma patch_maps_agree:
  "page_protection_from_maps patch_maps p = Some q \<longleftrightarrow> m_prot patch_machine p = Some q"
  by (simp add: page_protection_from_maps_def patch_maps_def patch_machine_def prot_of_perm_def perm_at_def
      prot_defs)

lemma patch_example:
  "set (patch_run 12 0x1ffe (Suc (Suc (Suc (Suc 0))))) = {0x1000, 0x2000}"
  by (simp add: patch_run_def page_run_def ALIGN_FLOOR_def)

lemma patch_example_run:
  "\<exists>m'. DobbyCodePatch mprotect_always 4096 patch_maps patch_machine 0x1ffe (Some [1, 2, 3, 4]) = Some (Inr (0, m'))"
proof -
  have c: "collect_pages patch_maps 4096 0x2000 0x1000 = Some (Some [(0x1000, 5), (0x2000, 5)])"
    by (simp add: collect_pages.simps[where page = "0x1000"] collect_pages.simps[where page = "0x2000"] UINTPTR_MAX_def
        page_protection_from_maps_def patch_maps_def prot_of_perm_def perm_at_def prot_defs)
  have "\<exists>m'. patch_pages mprotect_always 4096 [(0x1000, 5), (0x2000, 5)] patch_machine 0x1ffe [1, 2, 3, 4] = Inr (0, m')"
    by (simp add: patch_pages_def memcpy_from_def memcpy_to_def access_ok_def mprotect_always_def
        patch_machine_def prot_defs ALIGN_FLOOR_def upt_rec)
  with c show ?thesis
    by (simp add: DobbyCodePatch_def ALIGN_FLOOR_def)
qed

theorem code_patch_succeeds_witness:
  "\<exists>m'. DobbyCodePatch mprotect_always (2 ^ 12) patch_maps patch_machine 0x1ffe (Some [1, 2, 3, 4]) = Some (Inr (0, m'))
    \<and> m_mem m' = mem_write (m_mem patch_machine) 0x1ffe [1, 2, 3, 4]"
  by (rule code_patch_succeeds[OF mprotect_always_ok])
    (auto simp: patch_example patch_maps_agree mprotect_always_def patch_machine_def prot_defs)


theorem code_patch_atomic_witness:
  "\<exists>r m'. DobbyCodePatch mprotect_always 4096 patch_maps patch_machine 0x1ffe (Some [1, 2, 3, 4]) = Some (Inr (r, m'))
    \<and> (r = 0 \<and> m_mem m' = mem_write (m_mem patch_machine) 0x1ffe [1, 2, 3, 4] \<or> r = -1 \<and> m_mem m' = m_mem patch_machine)"
proof -
  obtain m' where "DobbyCodePatch mprotect_always 4096 patch_maps patch_machine 0x1ffe (Some [1, 2, 3, 4]) = Some (Inr (0, m'))"
    using patch_example_run by blast
  with code_patch_atomic[OF mprotect_always_ok this] show ?thesis by blast
qed

theorem code_patch_protections_witness:
  "\<exists>m'. DobbyCodePatch mprotect_always 4096 patch_maps patch_machine 0x1ffe (Some [1, 2, 3, 4]) = Some (Inr (0, m'))
    \<and> m_prot m' = m_prot patch_machine"
  using patch_example_run code_patch_protections[OF mprotect_always_ok, of 4096 patch_maps patch_machine]
  by (fastforce simp: patch_maps_agree)

end
