(* ===== verification/X86_Opcode_Tables.thy ===== *)
theory X86_Opcode_Tables
  imports Dobby_Prelude
begin

text \<open>
  The data of the x86 instruction decoder, from
  \<^verbatim>\<open>source/InstructionRelocation/x86/x86_insn_decode/\<close>: the enumerations and
  structures of \<^verbatim>\<open>x86_insn_decode.h\<close>, the table-building macros of
  \<^verbatim>\<open>x86_insn_decode.c\<close>, and the opcode tables
  \<^verbatim>\<open>x86_opcode_one_byte.c\<close>, \<^verbatim>\<open>x86_opcode_two_byte.c\<close> and
  \<^verbatim>\<open>x86_opcode_modrm_reg_group.c\<close>, one definition per row of sixteen opcodes or
  per group.  The lemmas at the end are the facts about the tables the decoder's proofs use.
\<close>

section \<open>Enumerations\<close>

definition X86_INSN_SPEC_DEFAULT_64_BIT :: u16 where "X86_INSN_SPEC_DEFAULT_64_BIT = 1"

definition X86_INSN_DECODE_FLAG_HAS_BASE :: u32 where "X86_INSN_DECODE_FLAG_HAS_BASE = 1"
definition X86_INSN_DECODE_FLAG_HAS_INDEX :: u32 where "X86_INSN_DECODE_FLAG_HAS_INDEX = 2"
definition X86_INSN_DECODE_FLAG_IS_ADDRESS :: u32 where "X86_INSN_DECODE_FLAG_IS_ADDRESS = 4"
definition X86_INSN_DECODE_FLAG_IP_RELATIVE :: u32 where "X86_INSN_DECODE_FLAG_IP_RELATIVE = 8"
definition X86_INSN_DECODE_FLAG_OPERAND_SIZE_64 :: u32 where
  "X86_INSN_DECODE_FLAG_OPERAND_SIZE_64 = 16"

lemmas decode_flag_defs =
  X86_INSN_DECODE_FLAG_HAS_BASE_def X86_INSN_DECODE_FLAG_HAS_INDEX_def
  X86_INSN_DECODE_FLAG_IS_ADDRESS_def X86_INSN_DECODE_FLAG_IP_RELATIVE_def
  X86_INSN_DECODE_FLAG_OPERAND_SIZE_64_def

definition INSN_PREFIX_LOCK :: u32 where "INSN_PREFIX_LOCK = 0x01"
definition INSN_PREFIX_REPNE :: u32 where "INSN_PREFIX_REPNE = 0x02"
definition INSN_PREFIX_REPE :: u32 where "INSN_PREFIX_REPE = 0x04"
definition INSN_PREFIX_ES :: u32 where "INSN_PREFIX_ES = 0x08"
definition INSN_PREFIX_CS :: u32 where "INSN_PREFIX_CS = 0x10"
definition INSN_PREFIX_SS :: u32 where "INSN_PREFIX_SS = 0x20"
definition INSN_PREFIX_DS :: u32 where "INSN_PREFIX_DS = 0x40"
definition INSN_PREFIX_FS :: u32 where "INSN_PREFIX_FS = 0x80"
definition INSN_PREFIX_GS :: u32 where "INSN_PREFIX_GS = 0x100"
definition INSN_PREFIX_OPERAND_SIZE :: u32 where "INSN_PREFIX_OPERAND_SIZE = 0x200"
definition INSN_PREFIX_ADDRESS_SIZE :: u32 where "INSN_PREFIX_ADDRESS_SIZE = 0x400"

lemmas insn_prefix_defs =
  INSN_PREFIX_LOCK_def INSN_PREFIX_REPNE_def INSN_PREFIX_REPE_def INSN_PREFIX_ES_def
  INSN_PREFIX_CS_def INSN_PREFIX_SS_def INSN_PREFIX_DS_def INSN_PREFIX_FS_def
  INSN_PREFIX_GS_def INSN_PREFIX_OPERAND_SIZE_def INSN_PREFIX_ADDRESS_SIZE_def

text \<open>
  Two numberings of the registers meet in the decoder: the hardware numbers
  (\<^verbatim>\<open>x86_insn_gp_register_t\<close>: AX, CX, DX, BX, SP, BP, SI, DI from 0) and
  \<^verbatim>\<open>x86_ia32e_register_t\<close>, which starts with \<^verbatim>\<open>RNone\<close> and orders them
  differently.
\<close>

definition X86_INSN_GP_REG_BX :: u8 where "X86_INSN_GP_REG_BX = 3"
definition X86_INSN_GP_REG_SP :: u8 where "X86_INSN_GP_REG_SP = 4"
definition X86_INSN_GP_REG_BP :: u8 where "X86_INSN_GP_REG_BP = 5"
definition X86_INSN_GP_REG_SI :: u8 where "X86_INSN_GP_REG_SI = 6"

definition RNone :: u8 where "RNone = 0"
definition RBP :: u8 where "RBP = 7"
definition R13 :: u8 where "R13 = 14"
definition RIP :: u8 where "RIP = 17"

lemmas register_defs =
  X86_INSN_GP_REG_BX_def X86_INSN_GP_REG_SP_def X86_INSN_GP_REG_BP_def X86_INSN_GP_REG_SI_def
  RNone_def RBP_def R13_def RIP_def

section \<open>Structures\<close>

record x86_insn_operand_spec_t =
  os_code :: char
  os_type :: char

record x86_insn_spec_t =
  spec_name :: string
  spec_operands :: "x86_insn_operand_spec_t list"
  spec_flags :: u16

text \<open>A static object with no initialiser: every byte zero.\<close>

definition operand_spec_zero :: x86_insn_operand_spec_t where
  "operand_spec_zero = \<lparr>os_code = CHR 0x00, os_type = CHR 0x00\<rparr>"

definition x86_insn_spec_zero :: x86_insn_spec_t where
  "x86_insn_spec_zero = \<lparr>spec_name = [], spec_operands = replicate 3 operand_spec_zero, spec_flags = 0\<rparr>"

record x86_insn_operand_t =
  op_reg :: u8
  mem_base :: u8
  mem_index :: u8
  mem_scale :: u8
  mem_disp :: u32

definition x86_insn_operand_zero :: x86_insn_operand_t where
  "x86_insn_operand_zero = \<lparr>op_reg = 0, mem_base = 0, mem_index = 0, mem_scale = 0, mem_disp = 0\<rparr>"

record x86_insn_decode_t =
  insn_flags :: u32
  insn_length :: u32
  displacement_offset :: u8
  immediate_offset :: u8
  operands_0 :: x86_insn_operand_t
  operands_1 :: x86_insn_operand_t
  operands_2 :: x86_insn_operand_t
  insn_prefix :: u32
  insn_rex :: u8
  primary_opcode :: u8
  insn_modrm :: u8
  insn_sib :: u8
  insn_immediate :: u64
  insn_spec :: x86_insn_spec_t

text \<open>\<^verbatim>\<open>memset(&insn, 0, sizeof(insn))\<close>, what every caller passes in.\<close>

definition x86_insn_decode_zero :: x86_insn_decode_t where
  "x86_insn_decode_zero =
     \<lparr>insn_flags = 0, insn_length = 0, displacement_offset = 0, immediate_offset = 0,
      operands_0 = x86_insn_operand_zero, operands_1 = x86_insn_operand_zero,
      operands_2 = x86_insn_operand_zero, insn_prefix = 0, insn_rex = 0, primary_opcode = 0,
      insn_modrm = 0, insn_sib = 0, insn_immediate = 0, insn_spec = x86_insn_spec_zero\<rparr>"

record x86_options_t =
  mode :: int

text \<open>The bit fields of the \<^verbatim>\<open>x86_insn_modrm_t\<close> and \<^verbatim>\<open>x86_insn_sib_t\<close> unions.\<close>

definition modrm_rm :: "u8 \<Rightarrow> u8" where "modrm_rm b = b AND 7"
definition modrm_reg :: "u8 \<Rightarrow> u8" where "modrm_reg b = drop_bit 3 b AND 7"
definition modrm_mode :: "u8 \<Rightarrow> u8" where "modrm_mode b = drop_bit 6 b"
definition sib_base :: "u8 \<Rightarrow> u8" where "sib_base b = b AND 7"
definition sib_index :: "u8 \<Rightarrow> u8" where "sib_index b = drop_bit 3 b AND 7"
definition sib_log2_scale :: "u8 \<Rightarrow> u8" where "sib_log2_scale b = drop_bit 6 b"

lemmas modrm_sib_defs =
  modrm_rm_def modrm_reg_def modrm_mode_def sib_base_def sib_index_def sib_log2_scale_def

definition REX_W :: "u8 \<Rightarrow> u8" where "REX_W b = drop_bit 3 (b AND 8)"
definition REX_R :: "u8 \<Rightarrow> u8" where "REX_R b = drop_bit 2 (b AND 4)"
definition REX_X :: "u8 \<Rightarrow> u8" where "REX_X b = drop_bit 1 (b AND 2)"
definition REX_B :: "u8 \<Rightarrow> u8" where "REX_B b = b AND 1"

lemmas rex_defs = REX_W_def REX_R_def REX_X_def REX_B_def

section \<open>Table macros\<close>

text \<open>An operand specification is the two characters of its name (\<^verbatim>\<open>.data = #o0\<close>).\<close>

definition opr :: "string \<Rightarrow> x86_insn_operand_spec_t" where
  "opr s = \<lparr>os_code = s ! 0, os_type = s ! 1\<rparr>"

definition op3f :: "string \<Rightarrow> u16 \<Rightarrow> string \<Rightarrow> string \<Rightarrow> string \<Rightarrow> x86_insn_spec_t" where
  "op3f x f o0 o1 o2 = \<lparr>spec_name = x, spec_operands = [opr o0, opr o1, opr o2], spec_flags = f\<rparr>"

definition op2f :: "string \<Rightarrow> u16 \<Rightarrow> string \<Rightarrow> string \<Rightarrow> x86_insn_spec_t" where
  "op2f x f o0 o1 = op3f x f o0 o1 ''__''"

definition op1f :: "string \<Rightarrow> u16 \<Rightarrow> string \<Rightarrow> x86_insn_spec_t" where
  "op1f x f o0 = op2f x f o0 ''__''"

definition op0f :: "string \<Rightarrow> u16 \<Rightarrow> x86_insn_spec_t" where
  "op0f x f = op1f x f ''__''"

definition op3 :: "string \<Rightarrow> string \<Rightarrow> string \<Rightarrow> string \<Rightarrow> x86_insn_spec_t" where
  "op3 x o0 o1 o2 = op3f x 0 o0 o1 o2"

definition op2 :: "string \<Rightarrow> string \<Rightarrow> string \<Rightarrow> x86_insn_spec_t" where
  "op2 x o0 o1 = op2f x 0 o0 o1"

definition op1 :: "string \<Rightarrow> string \<Rightarrow> x86_insn_spec_t" where
  "op1 x o0 = op1f x 0 o0"

definition op0 :: "string \<Rightarrow> x86_insn_spec_t" where
  "op0 x = op0f x 0"

lemmas op_defs = op0_def op1_def op2_def op3_def op0f_def op1f_def op2f_def op3f_def opr_def

definition X86_INSN_GROUP_START :: nat where "X86_INSN_GROUP_START = 0"
definition X86_INSN_SSE_GROUP_START :: nat where "X86_INSN_SSE_GROUP_START = 19"
definition X86_INSN_GROUP_END :: nat where "X86_INSN_GROUP_END = 35"

definition X86_INSN_MODRM_REG_GROUP_1 :: nat where "X86_INSN_MODRM_REG_GROUP_1 = 1"
definition X86_INSN_MODRM_REG_GROUP_1a :: nat where "X86_INSN_MODRM_REG_GROUP_1a = 2"
definition X86_INSN_MODRM_REG_GROUP_2 :: nat where "X86_INSN_MODRM_REG_GROUP_2 = 3"
definition X86_INSN_MODRM_REG_GROUP_3 :: nat where "X86_INSN_MODRM_REG_GROUP_3 = 4"
definition X86_INSN_MODRM_REG_GROUP_4 :: nat where "X86_INSN_MODRM_REG_GROUP_4 = 5"
definition X86_INSN_MODRM_REG_GROUP_5 :: nat where "X86_INSN_MODRM_REG_GROUP_5 = 6"
definition X86_INSN_MODRM_REG_GROUP_6 :: nat where "X86_INSN_MODRM_REG_GROUP_6 = 7"
definition X86_INSN_MODRM_REG_GROUP_7 :: nat where "X86_INSN_MODRM_REG_GROUP_7 = 8"
definition X86_INSN_MODRM_REG_GROUP_8 :: nat where "X86_INSN_MODRM_REG_GROUP_8 = 9"
definition X86_INSN_MODRM_REG_GROUP_9 :: nat where "X86_INSN_MODRM_REG_GROUP_9 = 10"
definition X86_INSN_MODRM_REG_GROUP_10 :: nat where "X86_INSN_MODRM_REG_GROUP_10 = 11"
definition X86_INSN_MODRM_REG_GROUP_11 :: nat where "X86_INSN_MODRM_REG_GROUP_11 = 12"
definition X86_INSN_MODRM_REG_GROUP_12 :: nat where "X86_INSN_MODRM_REG_GROUP_12 = 13"
definition X86_INSN_MODRM_REG_GROUP_13 :: nat where "X86_INSN_MODRM_REG_GROUP_13 = 14"
definition X86_INSN_MODRM_REG_GROUP_14 :: nat where "X86_INSN_MODRM_REG_GROUP_14 = 15"
definition X86_INSN_MODRM_REG_GROUP_15 :: nat where "X86_INSN_MODRM_REG_GROUP_15 = 16"
definition X86_INSN_MODRM_REG_GROUP_16 :: nat where "X86_INSN_MODRM_REG_GROUP_16 = 17"
definition X86_INSN_MODRM_REG_GROUP_p :: nat where "X86_INSN_MODRM_REG_GROUP_p = 18"
definition X86_INSN_SSE_GROUP_10 :: nat where "X86_INSN_SSE_GROUP_10 = 20"
definition X86_INSN_SSE_GROUP_28 :: nat where "X86_INSN_SSE_GROUP_28 = 21"
definition X86_INSN_SSE_GROUP_50 :: nat where "X86_INSN_SSE_GROUP_50 = 22"
definition X86_INSN_SSE_GROUP_58 :: nat where "X86_INSN_SSE_GROUP_58 = 23"
definition X86_INSN_SSE_GROUP_60 :: nat where "X86_INSN_SSE_GROUP_60 = 24"
definition X86_INSN_SSE_GROUP_68 :: nat where "X86_INSN_SSE_GROUP_68 = 25"
definition X86_INSN_SSE_GROUP_70 :: nat where "X86_INSN_SSE_GROUP_70 = 26"
definition X86_INSN_SSE_GROUP_78 :: nat where "X86_INSN_SSE_GROUP_78 = 27"
definition X86_INSN_SSE_GROUP_c0 :: nat where "X86_INSN_SSE_GROUP_c0 = 28"
definition X86_INSN_SSE_GROUP_d0 :: nat where "X86_INSN_SSE_GROUP_d0 = 29"
definition X86_INSN_SSE_GROUP_d8 :: nat where "X86_INSN_SSE_GROUP_d8 = 30"
definition X86_INSN_SSE_GROUP_e0 :: nat where "X86_INSN_SSE_GROUP_e0 = 31"
definition X86_INSN_SSE_GROUP_e8 :: nat where "X86_INSN_SSE_GROUP_e8 = 32"
definition X86_INSN_SSE_GROUP_f0 :: nat where "X86_INSN_SSE_GROUP_f0 = 33"
definition X86_INSN_SSE_GROUP_f8 :: nat where "X86_INSN_SSE_GROUP_f8 = 34"

lemmas group_number_defs =
  X86_INSN_GROUP_START_def X86_INSN_SSE_GROUP_START_def X86_INSN_GROUP_END_def
  X86_INSN_MODRM_REG_GROUP_1_def
  X86_INSN_MODRM_REG_GROUP_1a_def
  X86_INSN_MODRM_REG_GROUP_2_def
  X86_INSN_MODRM_REG_GROUP_3_def
  X86_INSN_MODRM_REG_GROUP_4_def
  X86_INSN_MODRM_REG_GROUP_5_def
  X86_INSN_MODRM_REG_GROUP_6_def
  X86_INSN_MODRM_REG_GROUP_7_def
  X86_INSN_MODRM_REG_GROUP_8_def
  X86_INSN_MODRM_REG_GROUP_9_def
  X86_INSN_MODRM_REG_GROUP_10_def
  X86_INSN_MODRM_REG_GROUP_11_def
  X86_INSN_MODRM_REG_GROUP_12_def
  X86_INSN_MODRM_REG_GROUP_13_def
  X86_INSN_MODRM_REG_GROUP_14_def
  X86_INSN_MODRM_REG_GROUP_15_def
  X86_INSN_MODRM_REG_GROUP_16_def
  X86_INSN_MODRM_REG_GROUP_p_def
  X86_INSN_SSE_GROUP_10_def
  X86_INSN_SSE_GROUP_28_def
  X86_INSN_SSE_GROUP_50_def
  X86_INSN_SSE_GROUP_58_def
  X86_INSN_SSE_GROUP_60_def
  X86_INSN_SSE_GROUP_68_def
  X86_INSN_SSE_GROUP_70_def
  X86_INSN_SSE_GROUP_78_def
  X86_INSN_SSE_GROUP_c0_def
  X86_INSN_SSE_GROUP_d0_def
  X86_INSN_SSE_GROUP_d8_def
  X86_INSN_SSE_GROUP_e0_def
  X86_INSN_SSE_GROUP_e8_def
  X86_INSN_SSE_GROUP_f0_def
  X86_INSN_SSE_GROUP_f8_def

definition X86_INSN_FLAG_SET_GROUP :: "nat \<Rightarrow> u16" where
  "X86_INSN_FLAG_SET_GROUP n = push_bit 5 (of_nat n)"

definition X86_INSN_FLAG_GET_GROUP :: "u16 \<Rightarrow> nat" where
  "X86_INSN_FLAG_GET_GROUP f = unat (drop_bit 5 f AND (push_bit 6 1 - 1))"

definition foreach_x86_operand_combine :: "string \<Rightarrow> x86_insn_spec_t list" where
  "foreach_x86_operand_combine x =
     [op2 x ''Eb'' ''Gb'', op2 x ''Ev'' ''Gv'', op2 x ''Gb'' ''Eb'', op2 x ''Gv'' ''Ev'',
      op2 x ''AL'' ''Ib'', op2 x ''AX'' ''Iz'']"

definition foreach_x86_gp_reg :: "string list" where
  "foreach_x86_gp_reg = [''AX'', ''CX'', ''DX'', ''BX'', ''SP'', ''BP'', ''SI'', ''DI'']"

definition foreach_x86_condition :: "string list" where
  "foreach_x86_condition =
     [''o'', ''no'', ''b'', ''nb'', ''z'', ''nz'', ''be'', ''nbe'',
      ''s'', ''ns'', ''p'', ''np'', ''l'', ''nl'', ''le'', ''nle'']"

lemmas foreach_defs = foreach_x86_operand_combine_def foreach_x86_gp_reg_def foreach_x86_condition_def

section \<open>The tables\<close>

definition one_byte_00 :: "x86_insn_spec_t list" where
  "one_byte_00 =
     foreach_x86_operand_combine ''add''
     @ [op0 ''push_es'',
      op0f ''pop_es'' X86_INSN_SPEC_DEFAULT_64_BIT]
     @ foreach_x86_operand_combine ''or''
     @ [op0f ''push_cs'' X86_INSN_SPEC_DEFAULT_64_BIT,
      op0 ''escape_two_byte'']"

definition one_byte_10 :: "x86_insn_spec_t list" where
  "one_byte_10 =
     foreach_x86_operand_combine ''adc''
     @ [op0 ''push_ss'',
      op0 ''pop_ss'']
     @ foreach_x86_operand_combine ''sbb''
     @ [op0 ''push_ds'',
      op0 ''pop_ds'']"

definition one_byte_20 :: "x86_insn_spec_t list" where
  "one_byte_20 =
     foreach_x86_operand_combine ''and''
     @ [op0 ''segment_es'',
      op0 ''daa'']
     @ foreach_x86_operand_combine ''sub''
     @ [op0 ''segment_cs'',
      op0 ''das'']"

definition one_byte_30 :: "x86_insn_spec_t list" where
  "one_byte_30 =
     foreach_x86_operand_combine ''xor''
     @ [op0 ''segment_ss'',
      op0 ''aaa'']
     @ foreach_x86_operand_combine ''cmp''
     @ [op0 ''segment_ds'',
      op0 ''aas'']"

definition one_byte_40 :: "x86_insn_spec_t list" where
  "one_byte_40 =
     map (\<lambda>r. op1 ''inc'' r) foreach_x86_gp_reg
     @ map (\<lambda>r. op1 ''dec'' r) foreach_x86_gp_reg"

definition one_byte_50 :: "x86_insn_spec_t list" where
  "one_byte_50 =
     map (\<lambda>r. op1f ''push'' X86_INSN_SPEC_DEFAULT_64_BIT r) foreach_x86_gp_reg
     @ map (\<lambda>r. op1f ''pop'' X86_INSN_SPEC_DEFAULT_64_BIT r) foreach_x86_gp_reg"

definition one_byte_60 :: "x86_insn_spec_t list" where
  "one_byte_60 =
     [op0 ''pusha'',
      op0 ''popa'',
      op2 ''bound'' ''Gv'' ''Ma'',
      op2 ''movsxd'' ''Gv'' ''Ed'',
      op0 ''segment_fs'',
      op0 ''segment_gs'',
      op0 ''operand_type'',
      op0 ''address_size'',
      op1f ''push'' X86_INSN_SPEC_DEFAULT_64_BIT ''Iz'',
      op3 ''imul'' ''Gv'' ''Ev'' ''Iz'',
      op1f ''push'' X86_INSN_SPEC_DEFAULT_64_BIT ''Ib'',
      op3 ''imul'' ''Gv'' ''Ev'' ''Ib'',
      op1 ''insb'' ''DX'',
      op1 ''insw'' ''DX'',
      op1 ''outsb'' ''DX'',
      op1 ''outsw'' ''DX'']"

definition one_byte_70 :: "x86_insn_spec_t list" where
  "one_byte_70 =
     map (\<lambda>x. op1 (''j'' @ x) ''Jb'') foreach_x86_condition"

definition one_byte_80 :: "x86_insn_spec_t list" where
  "one_byte_80 =
     [op2f ''modrm_group_1'' (X86_INSN_FLAG_SET_GROUP X86_INSN_MODRM_REG_GROUP_1) ''Eb'' ''Ib'',
      op2f ''modrm_group_1'' (X86_INSN_FLAG_SET_GROUP X86_INSN_MODRM_REG_GROUP_1) ''Ev'' ''Iz'',
      op2f ''modrm_group_1'' (X86_INSN_FLAG_SET_GROUP X86_INSN_MODRM_REG_GROUP_1) ''Eb'' ''Ib'',
      op2f ''modrm_group_1'' (X86_INSN_FLAG_SET_GROUP X86_INSN_MODRM_REG_GROUP_1) ''Ev'' ''Ib'',
      op2 ''test'' ''Eb'' ''Gb'',
      op2 ''test'' ''Ev'' ''Gv'',
      op2 ''xchg'' ''Eb'' ''Gb'',
      op2 ''xchg'' ''Ev'' ''Gv'',
      op2 ''mov'' ''Eb'' ''Gb'',
      op2 ''mov'' ''Ev'' ''Gv'',
      op2 ''mov'' ''Gb'' ''Eb'',
      op2 ''mov'' ''Gv'' ''Ev'',
      op2 ''mov'' ''Ev'' ''Sw'',
      op2 ''lea'' ''Gv'' ''Ev'',
      op2 ''mov'' ''Sw'' ''Ew'',
      op1f ''modrm_group_1a'' (X86_INSN_FLAG_SET_GROUP X86_INSN_MODRM_REG_GROUP_1a) ''Ev'']"

definition one_byte_90 :: "x86_insn_spec_t list" where
  "one_byte_90 =
     [op0 ''nop'',
      op1 ''xchg'' ''CX'',
      op1 ''xchg'' ''DX'',
      op1 ''xchg'' ''BX'',
      op1 ''xchg'' ''SP'',
      op1 ''xchg'' ''BP'',
      op1 ''xchg'' ''SI'',
      op1 ''xchg'' ''DI'',
      op0 ''cbw'',
      op0 ''cwd'',
      op1 ''call'' ''Ap'',
      op0 ''wait'',
      op0 ''pushf'',
      op0 ''popf'',
      op0 ''sahf'',
      op0 ''lahf'']"

definition one_byte_a0 :: "x86_insn_spec_t list" where
  "one_byte_a0 =
     [op2 ''mov'' ''AL'' ''Ob'',
      op2 ''mov'' ''AX'' ''Ov'',
      op2 ''mov'' ''Ob'' ''AL'',
      op2 ''mov'' ''Ov'' ''AX'',
      op0 ''movsb'',
      op0 ''movsw'',
      op0 ''cmpsb'',
      op0 ''cmpsw'',
      op2 ''test'' ''AL'' ''Ib'',
      op2 ''test'' ''AX'' ''Iz'',
      op1 ''stosb'' ''AL'',
      op1 ''stosw'' ''AX'',
      op1 ''lodsb'' ''AL'',
      op1 ''lodsw'' ''AX'',
      op1 ''scasb'' ''AL'',
      op1 ''scasw'' ''AX'']"

definition one_byte_b0 :: "x86_insn_spec_t list" where
  "one_byte_b0 =
     [op2 ''mov'' ''AL'' ''Ib'',
      op2 ''mov'' ''CL'' ''Ib'',
      op2 ''mov'' ''DL'' ''Ib'',
      op2 ''mov'' ''BL'' ''Ib'',
      op2 ''mov'' ''AH'' ''Ib'',
      op2 ''mov'' ''CH'' ''Ib'',
      op2 ''mov'' ''DH'' ''Ib'',
      op2 ''mov'' ''BH'' ''Ib'']
     @ map (\<lambda>r. op2 ''mov'' r ''Iv'') foreach_x86_gp_reg"

definition one_byte_c0 :: "x86_insn_spec_t list" where
  "one_byte_c0 =
     [op2f ''modrm_group_2'' (X86_INSN_FLAG_SET_GROUP X86_INSN_MODRM_REG_GROUP_2) ''Eb'' ''Ib'',
      op2f ''modrm_group_2'' (X86_INSN_FLAG_SET_GROUP X86_INSN_MODRM_REG_GROUP_2) ''Ev'' ''Ib'',
      op1 ''ret'' ''Iw'',
      op0 ''ret'',
      op2 ''les'' ''Gz'' ''Mp'',
      op2 ''lds'' ''Gz'' ''Mp'',
      op2f ''modrm_group_11'' (X86_INSN_FLAG_SET_GROUP X86_INSN_MODRM_REG_GROUP_11) ''Eb'' ''Ib'',
      op2f ''modrm_group_11'' (X86_INSN_FLAG_SET_GROUP X86_INSN_MODRM_REG_GROUP_11) ''Ev'' ''Iz'',
      op2 ''enter'' ''Iw'' ''Ib'',
      op0 ''leave'',
      op1 ''ret'' ''Iw'',
      op0 ''ret'',
      op0 ''int3'',
      op1 ''int'' ''Ib'',
      op0 ''into'',
      op0 ''iret'']"

definition one_byte_d0 :: "x86_insn_spec_t list" where
  "one_byte_d0 =
     [op2f ''modrm_group_2'' (X86_INSN_FLAG_SET_GROUP X86_INSN_MODRM_REG_GROUP_2) ''Eb'' ''1b'',
      op2f ''modrm_group_2'' (X86_INSN_FLAG_SET_GROUP X86_INSN_MODRM_REG_GROUP_2) ''Ev'' ''1b'',
      op2f ''modrm_group_2'' (X86_INSN_FLAG_SET_GROUP X86_INSN_MODRM_REG_GROUP_2) ''Eb'' ''CL'',
      op2f ''modrm_group_2'' (X86_INSN_FLAG_SET_GROUP X86_INSN_MODRM_REG_GROUP_2) ''Ev'' ''CL'',
      op0 ''aam'',
      op0 ''aad'',
      op0 ''salc'',
      op0 ''xlat'',
      op0 ''bad'',
      op0 ''bad'',
      op0 ''bad'',
      op0 ''bad'',
      op0 ''bad'',
      op0 ''bad'',
      op0 ''bad'',
      op0 ''bad'']"

definition one_byte_e0 :: "x86_insn_spec_t list" where
  "one_byte_e0 =
     [op1 ''loopnz'' ''Jb'',
      op1 ''loopz'' ''Jb'',
      op1 ''loop'' ''Jb'',
      op1 ''jcxz'' ''Jb'',
      op2 ''in'' ''AL'' ''Ib'',
      op2 ''in'' ''AX'' ''Ib'',
      op2 ''out'' ''Ib'' ''AL'',
      op2 ''out'' ''Ib'' ''AX'',
      op1f ''call'' X86_INSN_SPEC_DEFAULT_64_BIT ''Jz'',
      op1f ''jmp'' X86_INSN_SPEC_DEFAULT_64_BIT ''Jz'',
      op1 ''jmp'' ''Ap'',
      op1 ''jmp'' ''Jb'',
      op2 ''in'' ''AL'' ''DX'',
      op2 ''in'' ''AX'' ''DX'',
      op2 ''out'' ''DX'' ''AL'',
      op2 ''out'' ''DX'' ''AX'']"

definition one_byte_f0 :: "x86_insn_spec_t list" where
  "one_byte_f0 =
     [op0 ''lock'',
      op0 ''int1'',
      op0 ''repne'',
      op0 ''rep'',
      op0 ''hlt'',
      op0 ''cmc'',
      op0f ''modrm_group_3'' (X86_INSN_FLAG_SET_GROUP X86_INSN_MODRM_REG_GROUP_3),
      op0f ''modrm_group_3'' (X86_INSN_FLAG_SET_GROUP X86_INSN_MODRM_REG_GROUP_3),
      op0 ''clc'',
      op0 ''stc'',
      op0 ''cli'',
      op0 ''sti'',
      op0 ''cld'',
      op0 ''std'',
      op1f ''modrm_group_4'' (X86_INSN_FLAG_SET_GROUP X86_INSN_MODRM_REG_GROUP_4) ''Eb'',
      op0f ''modrm_group_5'' (X86_INSN_FLAG_SET_GROUP X86_INSN_MODRM_REG_GROUP_5)]"

definition x86_opcode_map_one_byte :: "x86_insn_spec_t list" where
  "x86_opcode_map_one_byte =
     concat [one_byte_00, one_byte_10, one_byte_20, one_byte_30, one_byte_40, one_byte_50, one_byte_60, one_byte_70, one_byte_80, one_byte_90, one_byte_a0, one_byte_b0, one_byte_c0, one_byte_d0, one_byte_e0, one_byte_f0]"

lemmas one_byte_row_defs = one_byte_00_def one_byte_10_def one_byte_20_def one_byte_30_def one_byte_40_def one_byte_50_def one_byte_60_def one_byte_70_def one_byte_80_def one_byte_90_def one_byte_a0_def one_byte_b0_def one_byte_c0_def one_byte_d0_def one_byte_e0_def one_byte_f0_def

definition two_byte_00 :: "x86_insn_spec_t list" where
  "two_byte_00 =
     [op0f ''modrm_group_6'' (X86_INSN_FLAG_SET_GROUP X86_INSN_MODRM_REG_GROUP_6),
      op0f ''modrm_group_7'' (X86_INSN_FLAG_SET_GROUP X86_INSN_MODRM_REG_GROUP_7),
      op2 ''lar'' ''Gv'' ''Ew'',
      op2 ''lsl'' ''Gv'' ''Ew'',
      op0 ''bad'',
      op0 ''syscall'',
      op0 ''clts'',
      op0 ''sysret'',
      op0 ''invd'',
      op0 ''wbinvd'',
      op0 ''bad'',
      op0 ''ud2'',
      op0 ''bad'',
      op0f ''modrm_group_p'' (X86_INSN_FLAG_SET_GROUP X86_INSN_MODRM_REG_GROUP_p),
      op0 ''femms'',
      op0 ''escape_3dnow'']"

definition two_byte_10 :: "x86_insn_spec_t list" where
  "two_byte_10 =
     [op2f ''movups'' (X86_INSN_FLAG_SET_GROUP X86_INSN_SSE_GROUP_10) ''Gx'' ''Ex'',
      op2f ''movups'' (X86_INSN_FLAG_SET_GROUP X86_INSN_SSE_GROUP_10) ''Ex'' ''Gx'',
      op2f ''movlps'' (X86_INSN_FLAG_SET_GROUP X86_INSN_SSE_GROUP_10) ''Ex'' ''Gx'',
      op2f ''movlps'' (X86_INSN_FLAG_SET_GROUP X86_INSN_SSE_GROUP_10) ''Gx'' ''Ex'',
      op2f ''unpcklps'' (X86_INSN_FLAG_SET_GROUP X86_INSN_SSE_GROUP_10) ''Gx'' ''Ex'',
      op2f ''unpckhps'' (X86_INSN_FLAG_SET_GROUP X86_INSN_SSE_GROUP_10) ''Gx'' ''Ex'',
      op2f ''movhps'' (X86_INSN_FLAG_SET_GROUP X86_INSN_SSE_GROUP_10) ''Ex'' ''Gx'',
      op2f ''movhps'' (X86_INSN_FLAG_SET_GROUP X86_INSN_SSE_GROUP_10) ''Gx'' ''Ex'',
      op0f ''modrm_group_16'' (X86_INSN_FLAG_SET_GROUP X86_INSN_MODRM_REG_GROUP_16),
      op0 ''nop'',
      op0 ''nop'',
      op0 ''nop'',
      op0 ''nop'',
      op0 ''nop'',
      op0 ''nop'',
      op0 ''nop'']"

definition two_byte_20 :: "x86_insn_spec_t list" where
  "two_byte_20 =
     [op2 ''mov'' ''Rv'' ''Cv'',
      op2 ''mov'' ''Rv'' ''Dv'',
      op2 ''mov'' ''Cv'' ''Rv'',
      op2 ''mov'' ''Dv'' ''Rv'',
      op0 ''bad'',
      op0 ''bad'',
      op0 ''bad'',
      op0 ''bad'',
      op2f ''movaps'' (X86_INSN_FLAG_SET_GROUP X86_INSN_SSE_GROUP_28) ''Gx'' ''Ex'',
      op2f ''movaps'' (X86_INSN_FLAG_SET_GROUP X86_INSN_SSE_GROUP_28) ''Ex'' ''Gx'',
      op2f ''cvtpi2ps'' (X86_INSN_FLAG_SET_GROUP X86_INSN_SSE_GROUP_28) ''Gx'' ''Ex'',
      op2f ''movntps'' (X86_INSN_FLAG_SET_GROUP X86_INSN_SSE_GROUP_28) ''Mx'' ''Gx'',
      op2f ''cvttps2pi'' (X86_INSN_FLAG_SET_GROUP X86_INSN_SSE_GROUP_28) ''Gx'' ''Ex'',
      op2f ''cvtps2pi'' (X86_INSN_FLAG_SET_GROUP X86_INSN_SSE_GROUP_28) ''Gx'' ''Ex'',
      op2f ''ucomiss'' (X86_INSN_FLAG_SET_GROUP X86_INSN_SSE_GROUP_28) ''Gx'' ''Ex'',
      op2f ''comiss'' (X86_INSN_FLAG_SET_GROUP X86_INSN_SSE_GROUP_28) ''Gx'' ''Ex'']"

definition two_byte_30 :: "x86_insn_spec_t list" where
  "two_byte_30 =
     [op0 ''wrmsr'',
      op0 ''rdtsc'',
      op0 ''rdmsr'',
      op0 ''rdpmc'',
      op0 ''sysenter'',
      op0 ''sysexit'',
      op0 ''bad'',
      op0 ''bad'',
      op0 ''bad'',
      op0 ''bad'',
      op0 ''bad'',
      op0 ''bad'',
      op0 ''bad'',
      op0 ''bad'',
      op0 ''bad'',
      op0 ''bad'']"

definition two_byte_40 :: "x86_insn_spec_t list" where
  "two_byte_40 =
     map (\<lambda>x. op2 (''cmov'' @ x) ''Gv'' ''Ev'') foreach_x86_condition"

definition two_byte_50 :: "x86_insn_spec_t list" where
  "two_byte_50 =
     [op2f ''movmskps'' (X86_INSN_FLAG_SET_GROUP X86_INSN_SSE_GROUP_50) ''Gd'' ''Rx'',
      op2f ''sqrtps'' (X86_INSN_FLAG_SET_GROUP X86_INSN_SSE_GROUP_50) ''Gx'' ''Ex'',
      op2f ''rsqrtps'' (X86_INSN_FLAG_SET_GROUP X86_INSN_SSE_GROUP_50) ''Gx'' ''Ex'',
      op2f ''rcpps'' (X86_INSN_FLAG_SET_GROUP X86_INSN_SSE_GROUP_50) ''Gx'' ''Ex'',
      op2f ''andps'' (X86_INSN_FLAG_SET_GROUP X86_INSN_SSE_GROUP_50) ''Gx'' ''Ex'',
      op2f ''andnps'' (X86_INSN_FLAG_SET_GROUP X86_INSN_SSE_GROUP_50) ''Gx'' ''Ex'',
      op2f ''orps'' (X86_INSN_FLAG_SET_GROUP X86_INSN_SSE_GROUP_50) ''Gx'' ''Ex'',
      op2f ''xorps'' (X86_INSN_FLAG_SET_GROUP X86_INSN_SSE_GROUP_50) ''Gx'' ''Ex'',
      op2f ''addps'' (X86_INSN_FLAG_SET_GROUP X86_INSN_SSE_GROUP_58) ''Gx'' ''Ex'',
      op2f ''mulps'' (X86_INSN_FLAG_SET_GROUP X86_INSN_SSE_GROUP_58) ''Gx'' ''Ex'',
      op2f ''cvtps2pd'' (X86_INSN_FLAG_SET_GROUP X86_INSN_SSE_GROUP_58) ''Gx'' ''Ex'',
      op2f ''cvtdq2ps'' (X86_INSN_FLAG_SET_GROUP X86_INSN_SSE_GROUP_58) ''Gx'' ''Ex'',
      op2f ''subps'' (X86_INSN_FLAG_SET_GROUP X86_INSN_SSE_GROUP_58) ''Gx'' ''Ex'',
      op2f ''minps'' (X86_INSN_FLAG_SET_GROUP X86_INSN_SSE_GROUP_58) ''Gx'' ''Ex'',
      op2f ''divps'' (X86_INSN_FLAG_SET_GROUP X86_INSN_SSE_GROUP_58) ''Gx'' ''Ex'',
      op2f ''maxps'' (X86_INSN_FLAG_SET_GROUP X86_INSN_SSE_GROUP_58) ''Gx'' ''Ex'']"

definition two_byte_60 :: "x86_insn_spec_t list" where
  "two_byte_60 =
     [op2f ''punpcklbw'' (X86_INSN_FLAG_SET_GROUP X86_INSN_SSE_GROUP_60) ''Gm'' ''Em'',
      op2f ''punpcklwd'' (X86_INSN_FLAG_SET_GROUP X86_INSN_SSE_GROUP_60) ''Gm'' ''Em'',
      op2f ''punpckldq'' (X86_INSN_FLAG_SET_GROUP X86_INSN_SSE_GROUP_60) ''Gm'' ''Em'',
      op2f ''packsswb'' (X86_INSN_FLAG_SET_GROUP X86_INSN_SSE_GROUP_60) ''Gm'' ''Em'',
      op2f ''pcmpgtb'' (X86_INSN_FLAG_SET_GROUP X86_INSN_SSE_GROUP_60) ''Gm'' ''Em'',
      op2f ''pcmpgtw'' (X86_INSN_FLAG_SET_GROUP X86_INSN_SSE_GROUP_60) ''Gm'' ''Em'',
      op2f ''pcmpgtd'' (X86_INSN_FLAG_SET_GROUP X86_INSN_SSE_GROUP_60) ''Gm'' ''Em'',
      op2f ''packuswb'' (X86_INSN_FLAG_SET_GROUP X86_INSN_SSE_GROUP_60) ''Gm'' ''Em'',
      op2f ''punpckhbw'' (X86_INSN_FLAG_SET_GROUP X86_INSN_SSE_GROUP_68) ''Gm'' ''Em'',
      op2f ''punpckhwd'' (X86_INSN_FLAG_SET_GROUP X86_INSN_SSE_GROUP_68) ''Gm'' ''Em'',
      op2f ''punpckhdq'' (X86_INSN_FLAG_SET_GROUP X86_INSN_SSE_GROUP_68) ''Gm'' ''Em'',
      op2f ''packssdw'' (X86_INSN_FLAG_SET_GROUP X86_INSN_SSE_GROUP_68) ''Gm'' ''Em'',
      op0f ''bad'' (X86_INSN_FLAG_SET_GROUP X86_INSN_SSE_GROUP_68),
      op0f ''bad'' (X86_INSN_FLAG_SET_GROUP X86_INSN_SSE_GROUP_68),
      op2f ''movd'' (X86_INSN_FLAG_SET_GROUP X86_INSN_SSE_GROUP_68) ''Gm'' ''Em'',
      op2f ''movq'' (X86_INSN_FLAG_SET_GROUP X86_INSN_SSE_GROUP_68) ''Gm'' ''Em'']"

definition two_byte_70 :: "x86_insn_spec_t list" where
  "two_byte_70 =
     [op3f ''pshufw'' (X86_INSN_FLAG_SET_GROUP X86_INSN_SSE_GROUP_70) ''Gm'' ''Em'' ''Ib'',
      op0f ''modrm_group_12'' (X86_INSN_FLAG_SET_GROUP X86_INSN_MODRM_REG_GROUP_12),
      op0f ''modrm_group_13'' (X86_INSN_FLAG_SET_GROUP X86_INSN_MODRM_REG_GROUP_13),
      op0f ''modrm_group_14'' (X86_INSN_FLAG_SET_GROUP X86_INSN_MODRM_REG_GROUP_14),
      op2f ''pcmpeqb'' (X86_INSN_FLAG_SET_GROUP X86_INSN_SSE_GROUP_70) ''Gm'' ''Em'',
      op2f ''pcmpeqw'' (X86_INSN_FLAG_SET_GROUP X86_INSN_SSE_GROUP_70) ''Gm'' ''Em'',
      op2f ''pcmpeqd'' (X86_INSN_FLAG_SET_GROUP X86_INSN_SSE_GROUP_70) ''Gm'' ''Em'',
      op0f ''emms'' (X86_INSN_FLAG_SET_GROUP X86_INSN_SSE_GROUP_70),
      op0f ''bad'' (X86_INSN_FLAG_SET_GROUP X86_INSN_SSE_GROUP_78),
      op0f ''bad'' (X86_INSN_FLAG_SET_GROUP X86_INSN_SSE_GROUP_78),
      op0f ''bad'' (X86_INSN_FLAG_SET_GROUP X86_INSN_SSE_GROUP_78),
      op0f ''bad'' (X86_INSN_FLAG_SET_GROUP X86_INSN_SSE_GROUP_78),
      op0f ''bad'' (X86_INSN_FLAG_SET_GROUP X86_INSN_SSE_GROUP_78),
      op0f ''bad'' (X86_INSN_FLAG_SET_GROUP X86_INSN_SSE_GROUP_78),
      op2f ''movd'' (X86_INSN_FLAG_SET_GROUP X86_INSN_SSE_GROUP_78) ''Em'' ''Gm'',
      op2f ''movq'' (X86_INSN_FLAG_SET_GROUP X86_INSN_SSE_GROUP_78) ''Em'' ''Gm'']"

definition two_byte_80 :: "x86_insn_spec_t list" where
  "two_byte_80 =
     map (\<lambda>x. op1 (''jmp'' @ x) ''Jz'') foreach_x86_condition"

definition two_byte_90 :: "x86_insn_spec_t list" where
  "two_byte_90 =
     map (\<lambda>x. op1 (''set'' @ x) ''Eb'') foreach_x86_condition"

definition two_byte_a0 :: "x86_insn_spec_t list" where
  "two_byte_a0 =
     [op0 ''push_fs'',
      op0 ''pop_fs'',
      op0 ''cpuid'',
      op2 ''bt'' ''Ev'' ''Gv'',
      op3 ''shld'' ''Ev'' ''Gv'' ''Ib'',
      op3 ''shld'' ''Ev'' ''Gv'' ''CL'',
      op0 ''bad'',
      op0 ''bad'',
      op0 ''push_gs'',
      op0 ''pop_gs'',
      op0 ''rsm'',
      op2 ''bts'' ''Ev'' ''Gv'',
      op3 ''shrd'' ''Ev'' ''Gv'' ''Ib'',
      op3 ''shrd'' ''Ev'' ''Gv'' ''CL'',
      op0f ''modrm_group_15'' (X86_INSN_FLAG_SET_GROUP X86_INSN_MODRM_REG_GROUP_15),
      op2 ''imul'' ''Gv'' ''Ev'']"

definition two_byte_b0 :: "x86_insn_spec_t list" where
  "two_byte_b0 =
     [op2 ''cmpxchg'' ''Eb'' ''Gb'',
      op2 ''cmpxchg'' ''Ev'' ''Gv'',
      op2 ''lss'' ''Gz'' ''Mp'',
      op2 ''btr'' ''Ev'' ''Gv'',
      op2 ''lfs'' ''Gz'' ''Mp'',
      op2 ''lgs'' ''Gz'' ''Mp'',
      op2 ''movzbl'' ''Gv'' ''Eb'',
      op2 ''movzwl'' ''Gv'' ''Ew'',
      op0 ''bad'',
      op0f ''modrm_group_10'' (X86_INSN_FLAG_SET_GROUP X86_INSN_MODRM_REG_GROUP_10),
      op2f ''modrm_group_8'' (X86_INSN_FLAG_SET_GROUP X86_INSN_MODRM_REG_GROUP_8) ''Ev'' ''Ib'',
      op2 ''btc'' ''Ev'' ''Gv'',
      op2 ''bsf'' ''Gv'' ''Ev'',
      op2 ''bsr'' ''Gv'' ''Ev'',
      op2 ''movsx'' ''Gv'' ''Eb'',
      op2 ''movsx'' ''Gv'' ''Ew'']"

definition two_byte_c0 :: "x86_insn_spec_t list" where
  "two_byte_c0 =
     [op2 ''xadd'' ''Eb'' ''Gb'',
      op2 ''xadd'' ''Ev'' ''Gv'',
      op3f ''cmpps'' (X86_INSN_FLAG_SET_GROUP X86_INSN_SSE_GROUP_c0) ''Gx'' ''Ex'' ''Ib'',
      op2 ''movnti'' ''Mv'' ''Gv'',
      op3f ''pinsrw'' (X86_INSN_FLAG_SET_GROUP X86_INSN_SSE_GROUP_c0) ''Gm'' ''Ew'' ''Ib'',
      op3f ''pextrw'' (X86_INSN_FLAG_SET_GROUP X86_INSN_SSE_GROUP_c0) ''Gd'' ''Rm'' ''Ib'',
      op3f ''shufps'' (X86_INSN_FLAG_SET_GROUP X86_INSN_SSE_GROUP_c0) ''Gx'' ''Ex'' ''Ib'',
      op1f ''modrm_group_9'' (X86_INSN_FLAG_SET_GROUP X86_INSN_MODRM_REG_GROUP_9) ''Mx'']
     @ map (\<lambda>r. op1 ''bswap'' r) foreach_x86_gp_reg"

definition two_byte_d0 :: "x86_insn_spec_t list" where
  "two_byte_d0 =
     [op0f ''bad'' (X86_INSN_FLAG_SET_GROUP X86_INSN_SSE_GROUP_d0),
      op2f ''psrlw'' (X86_INSN_FLAG_SET_GROUP X86_INSN_SSE_GROUP_d0) ''Gm'' ''Em'',
      op2f ''psrld'' (X86_INSN_FLAG_SET_GROUP X86_INSN_SSE_GROUP_d0) ''Gm'' ''Em'',
      op2f ''psrlq'' (X86_INSN_FLAG_SET_GROUP X86_INSN_SSE_GROUP_d0) ''Gm'' ''Em'',
      op2f ''paddq'' (X86_INSN_FLAG_SET_GROUP X86_INSN_SSE_GROUP_d0) ''Gm'' ''Em'',
      op2f ''pmullw'' (X86_INSN_FLAG_SET_GROUP X86_INSN_SSE_GROUP_d0) ''Gm'' ''Em'',
      op0f ''bad'' (X86_INSN_FLAG_SET_GROUP X86_INSN_SSE_GROUP_d0),
      op2f ''pmovmskb'' (X86_INSN_FLAG_SET_GROUP X86_INSN_SSE_GROUP_d0) ''Gd'' ''Rm'',
      op2f ''psubusb'' (X86_INSN_FLAG_SET_GROUP X86_INSN_SSE_GROUP_d8) ''Gm'' ''Em'',
      op2f ''psubusw'' (X86_INSN_FLAG_SET_GROUP X86_INSN_SSE_GROUP_d8) ''Gm'' ''Em'',
      op2f ''pminub'' (X86_INSN_FLAG_SET_GROUP X86_INSN_SSE_GROUP_d8) ''Gm'' ''Em'',
      op2f ''pand'' (X86_INSN_FLAG_SET_GROUP X86_INSN_SSE_GROUP_d8) ''Gm'' ''Em'',
      op2f ''paddusb'' (X86_INSN_FLAG_SET_GROUP X86_INSN_SSE_GROUP_d8) ''Gm'' ''Em'',
      op2f ''paddusw'' (X86_INSN_FLAG_SET_GROUP X86_INSN_SSE_GROUP_d8) ''Gm'' ''Em'',
      op2f ''pmaxub'' (X86_INSN_FLAG_SET_GROUP X86_INSN_SSE_GROUP_d8) ''Gm'' ''Em'',
      op2f ''pandn'' (X86_INSN_FLAG_SET_GROUP X86_INSN_SSE_GROUP_d8) ''Gm'' ''Em'']"

definition two_byte_e0 :: "x86_insn_spec_t list" where
  "two_byte_e0 =
     [op2f ''pavgb'' (X86_INSN_FLAG_SET_GROUP X86_INSN_SSE_GROUP_e0) ''Gm'' ''Em'',
      op2f ''psraw'' (X86_INSN_FLAG_SET_GROUP X86_INSN_SSE_GROUP_e0) ''Gm'' ''Em'',
      op2f ''psrad'' (X86_INSN_FLAG_SET_GROUP X86_INSN_SSE_GROUP_e0) ''Gm'' ''Em'',
      op2f ''pavgw'' (X86_INSN_FLAG_SET_GROUP X86_INSN_SSE_GROUP_e0) ''Gm'' ''Em'',
      op2f ''pmulhuw'' (X86_INSN_FLAG_SET_GROUP X86_INSN_SSE_GROUP_e0) ''Gm'' ''Em'',
      op2f ''pmulhw'' (X86_INSN_FLAG_SET_GROUP X86_INSN_SSE_GROUP_e0) ''Gm'' ''Em'',
      op2f ''bad'' (X86_INSN_FLAG_SET_GROUP X86_INSN_SSE_GROUP_e0) ''Gm'' ''Em'',
      op2f ''movntq'' (X86_INSN_FLAG_SET_GROUP X86_INSN_SSE_GROUP_e0) ''Mm'' ''Gm'',
      op2f ''psubsb'' (X86_INSN_FLAG_SET_GROUP X86_INSN_SSE_GROUP_e8) ''Gm'' ''Em'',
      op2f ''psubsw'' (X86_INSN_FLAG_SET_GROUP X86_INSN_SSE_GROUP_e8) ''Gm'' ''Em'',
      op2f ''pminsw'' (X86_INSN_FLAG_SET_GROUP X86_INSN_SSE_GROUP_e8) ''Gm'' ''Em'',
      op2f ''por'' (X86_INSN_FLAG_SET_GROUP X86_INSN_SSE_GROUP_e8) ''Gm'' ''Em'',
      op2f ''paddsb'' (X86_INSN_FLAG_SET_GROUP X86_INSN_SSE_GROUP_e8) ''Gm'' ''Em'',
      op2f ''paddsw'' (X86_INSN_FLAG_SET_GROUP X86_INSN_SSE_GROUP_e8) ''Gm'' ''Em'',
      op2f ''pmaxsw'' (X86_INSN_FLAG_SET_GROUP X86_INSN_SSE_GROUP_e8) ''Gm'' ''Em'',
      op2f ''pxor'' (X86_INSN_FLAG_SET_GROUP X86_INSN_SSE_GROUP_e8) ''Gm'' ''Em'']"

definition two_byte_f0 :: "x86_insn_spec_t list" where
  "two_byte_f0 =
     [op0f ''bad'' (X86_INSN_FLAG_SET_GROUP X86_INSN_SSE_GROUP_f0),
      op2f ''psllw'' (X86_INSN_FLAG_SET_GROUP X86_INSN_SSE_GROUP_f0) ''Gm'' ''Em'',
      op2f ''pslld'' (X86_INSN_FLAG_SET_GROUP X86_INSN_SSE_GROUP_f0) ''Gm'' ''Em'',
      op2f ''psllq'' (X86_INSN_FLAG_SET_GROUP X86_INSN_SSE_GROUP_f0) ''Gm'' ''Em'',
      op2f ''pmuludq'' (X86_INSN_FLAG_SET_GROUP X86_INSN_SSE_GROUP_f0) ''Gm'' ''Em'',
      op2f ''pmaddwd'' (X86_INSN_FLAG_SET_GROUP X86_INSN_SSE_GROUP_f0) ''Gm'' ''Em'',
      op2f ''psadbw'' (X86_INSN_FLAG_SET_GROUP X86_INSN_SSE_GROUP_f0) ''Gm'' ''Em'',
      op2f ''maskmovq'' (X86_INSN_FLAG_SET_GROUP X86_INSN_SSE_GROUP_f0) ''Gm'' ''Em'',
      op2f ''psubb'' (X86_INSN_FLAG_SET_GROUP X86_INSN_SSE_GROUP_f8) ''Gm'' ''Em'',
      op2f ''psubw'' (X86_INSN_FLAG_SET_GROUP X86_INSN_SSE_GROUP_f8) ''Gm'' ''Em'',
      op2f ''psubd'' (X86_INSN_FLAG_SET_GROUP X86_INSN_SSE_GROUP_f8) ''Gm'' ''Em'',
      op2f ''psubq'' (X86_INSN_FLAG_SET_GROUP X86_INSN_SSE_GROUP_f8) ''Gm'' ''Em'',
      op2f ''paddb'' (X86_INSN_FLAG_SET_GROUP X86_INSN_SSE_GROUP_f8) ''Gm'' ''Em'',
      op2f ''paddw'' (X86_INSN_FLAG_SET_GROUP X86_INSN_SSE_GROUP_f8) ''Gm'' ''Em'',
      op2f ''paddd'' (X86_INSN_FLAG_SET_GROUP X86_INSN_SSE_GROUP_f8) ''Gm'' ''Em'',
      op0f ''bad'' (X86_INSN_FLAG_SET_GROUP X86_INSN_SSE_GROUP_f8)]"

definition x86_opcode_map_two_byte :: "x86_insn_spec_t list" where
  "x86_opcode_map_two_byte =
     concat [two_byte_00, two_byte_10, two_byte_20, two_byte_30, two_byte_40, two_byte_50, two_byte_60, two_byte_70, two_byte_80, two_byte_90, two_byte_a0, two_byte_b0, two_byte_c0, two_byte_d0, two_byte_e0, two_byte_f0]"

lemmas two_byte_row_defs = two_byte_00_def two_byte_10_def two_byte_20_def two_byte_30_def two_byte_40_def two_byte_50_def two_byte_60_def two_byte_70_def two_byte_80_def two_byte_90_def two_byte_a0_def two_byte_b0_def two_byte_c0_def two_byte_d0_def two_byte_e0_def two_byte_f0_def

definition modrm_reg_group_1 :: "x86_insn_spec_t list" where
  "modrm_reg_group_1 =
     [op0 ''add'',
      op0 ''or'',
      op0 ''adc'',
      op0 ''sbb'',
      op0 ''and'',
      op0 ''sub'',
      op0 ''xor'',
      op0 ''cmp'']"

definition modrm_reg_group_1a :: "x86_insn_spec_t list" where
  "modrm_reg_group_1a =
     [op0f ''pop'' X86_INSN_SPEC_DEFAULT_64_BIT,
      op0 ''bad'',
      op0 ''bad'',
      op0 ''bad'',
      op0 ''bad'',
      op0 ''bad'',
      op0 ''bad'',
      op0 ''bad'']"

definition modrm_reg_group_2 :: "x86_insn_spec_t list" where
  "modrm_reg_group_2 =
     [op0 ''rol'',
      op0 ''ror'',
      op0 ''rcl'',
      op0 ''rcr'',
      op0 ''shl'',
      op0 ''shr'',
      op0 ''sal'',
      op0 ''sar'']"

definition modrm_reg_group_3 :: "x86_insn_spec_t list" where
  "modrm_reg_group_3 =
     [op0 ''test'',
      op0 ''test'',
      op0 ''not'',
      op0 ''neg'',
      op0 ''mul'',
      op0 ''imul'',
      op0 ''div'',
      op0 ''idiv'']"

definition modrm_reg_group_4 :: "x86_insn_spec_t list" where
  "modrm_reg_group_4 =
     [op0 ''inc'',
      op0 ''dec'',
      op0 ''bad'',
      op0 ''bad'',
      op0 ''bad'',
      op0 ''bad'',
      op0 ''bad'',
      op0 ''bad'']"

definition modrm_reg_group_5 :: "x86_insn_spec_t list" where
  "modrm_reg_group_5 =
     [op1 ''inc'' ''Ev'',
      op1 ''dec'' ''Ev'',
      op1f ''call'' X86_INSN_SPEC_DEFAULT_64_BIT ''Ev'',
      op1 ''call'' ''Mp'',
      op1f ''jmp'' X86_INSN_SPEC_DEFAULT_64_BIT ''Ev'',
      op1 ''jmp'' ''Mp'',
      op1f ''push'' X86_INSN_SPEC_DEFAULT_64_BIT ''Ev'',
      op0 ''bad'']"

definition modrm_reg_group_6 :: "x86_insn_spec_t list" where
  "modrm_reg_group_6 =
     [op1 ''sldt'' ''Ev'',
      op1 ''str'' ''Ev'',
      op1 ''lldt'' ''Ev'',
      op1 ''ltr'' ''Ev'',
      op1 ''verr'' ''Ev'',
      op1 ''verw'' ''Ev'',
      op0 ''bad'',
      op0 ''bad'']"

definition modrm_reg_group_7 :: "x86_insn_spec_t list" where
  "modrm_reg_group_7 =
     [op1 ''sgdt'' ''Mv'',
      op1 ''sidt'' ''Mv'',
      op1 ''lgdt'' ''Mv'',
      op1 ''lidt'' ''Mv'',
      op1 ''smsw'' ''Ev'',
      op0 ''bad'',
      op1 ''lmsw'' ''Ew'',
      op1 ''invlpg'' ''Mv'']"

definition modrm_reg_group_8 :: "x86_insn_spec_t list" where
  "modrm_reg_group_8 =
     [op0 ''bad'',
      op0 ''bad'',
      op0 ''bad'',
      op0 ''bad'',
      op2 ''bt'' ''Ev'' ''Ib'',
      op2 ''bts'' ''Ev'' ''Ib'',
      op2 ''btr'' ''Ev'' ''Ib'',
      op2 ''btc'' ''Ev'' ''Ib'']"

definition modrm_reg_group_9 :: "x86_insn_spec_t list" where
  "modrm_reg_group_9 =
     [op0 ''bad'',
      op1 ''cmpxchg'' ''Mx'',
      op0 ''bad'',
      op0 ''bad'',
      op0 ''bad'',
      op0 ''bad'',
      op0 ''bad'',
      op0 ''bad'']"

definition modrm_reg_group_10 :: "x86_insn_spec_t list" where
  "modrm_reg_group_10 =
     [op0 ''bad'',
      op0 ''bad'',
      op0 ''bad'',
      op0 ''bad'',
      op0 ''bad'',
      op0 ''bad'',
      op0 ''bad'',
      op0 ''bad'']"

definition modrm_reg_group_11 :: "x86_insn_spec_t list" where
  "modrm_reg_group_11 =
     [op0 ''mov'',
      op0 ''bad'',
      op0 ''bad'',
      op0 ''bad'',
      op0 ''bad'',
      op0 ''bad'',
      op0 ''bad'',
      op0 ''bad'']"

definition modrm_reg_group_12 :: "x86_insn_spec_t list" where
  "modrm_reg_group_12 =
     [op0 ''bad'',
      op0 ''bad'',
      op2 ''psrlw'' ''Rm'' ''Ib'',
      op0 ''bad'',
      op2 ''psraw'' ''Rm'' ''Ib'',
      op0 ''bad'',
      op2 ''psllw'' ''Rm'' ''Ib'',
      op0 ''bad'']"

definition modrm_reg_group_13 :: "x86_insn_spec_t list" where
  "modrm_reg_group_13 =
     [op0 ''bad'',
      op0 ''bad'',
      op2 ''psrld'' ''Rm'' ''Ib'',
      op0 ''bad'',
      op2 ''psrad'' ''Rm'' ''Ib'',
      op0 ''bad'',
      op2 ''pslld'' ''Rm'' ''Ib'',
      op0 ''bad'']"

definition modrm_reg_group_14 :: "x86_insn_spec_t list" where
  "modrm_reg_group_14 =
     [op0 ''bad'',
      op0 ''bad'',
      op2 ''psrlq'' ''Rm'' ''Ib'',
      op0f ''bad'' 0,
      op0 ''bad'',
      op0 ''bad'',
      op2 ''psllq'' ''Rm'' ''Ib'',
      op0f ''bad'' 0]"

definition modrm_reg_group_15 :: "x86_insn_spec_t list" where
  "modrm_reg_group_15 =
     [op1 ''fxsave'' ''Mv'',
      op1 ''fxrstor'' ''Mv'',
      op1 ''ldmxcsr'' ''Mv'',
      op1 ''stmxcsr'' ''Mv'',
      op0 ''bad'',
      op1 ''lfence'' ''Mv'',
      op1 ''mfence'' ''Mv'',
      op1 ''sfence'' ''Mv'']"

definition modrm_reg_group_16 :: "x86_insn_spec_t list" where
  "modrm_reg_group_16 =
     [op1 ''prefetch_nta'' ''Mv'',
      op1 ''prefetch_t0'' ''Mv'',
      op1 ''prefetch_t1'' ''Mv'',
      op1 ''prefetch_t2'' ''Mv'',
      op1 ''prefetch_nop'' ''Mv'',
      op1 ''prefetch_nop'' ''Mv'',
      op1 ''prefetch_nop'' ''Mv'',
      op1 ''prefetch_nop'' ''Mv'']"

definition modrm_reg_group_p :: "x86_insn_spec_t list" where
  "modrm_reg_group_p =
     [op1 ''prefetch_exclusive'' ''Mv'',
      op1 ''prefetch_modified'' ''Mv'',
      op1 ''prefetch_nop'' ''Mv'',
      op1 ''prefetch_modified'' ''Mv'',
      op1 ''prefetch_nop'' ''Mv'',
      op1 ''prefetch_nop'' ''Mv'',
      op1 ''prefetch_nop'' ''Mv'',
      op1 ''prefetch_nop'' ''Mv'']"

definition x86_insn_modrm_reg_groups :: "x86_insn_spec_t list list" where
  "x86_insn_modrm_reg_groups =
     [replicate 8 x86_insn_spec_zero,
      modrm_reg_group_1, modrm_reg_group_1a, modrm_reg_group_2, modrm_reg_group_3, modrm_reg_group_4, modrm_reg_group_5, modrm_reg_group_6, modrm_reg_group_7, modrm_reg_group_8, modrm_reg_group_9, modrm_reg_group_10, modrm_reg_group_11, modrm_reg_group_12, modrm_reg_group_13, modrm_reg_group_14, modrm_reg_group_15, modrm_reg_group_16, modrm_reg_group_p]"

lemmas modrm_group_defs = modrm_reg_group_1_def modrm_reg_group_1a_def modrm_reg_group_2_def modrm_reg_group_3_def modrm_reg_group_4_def modrm_reg_group_5_def modrm_reg_group_6_def modrm_reg_group_7_def modrm_reg_group_8_def modrm_reg_group_9_def modrm_reg_group_10_def modrm_reg_group_11_def modrm_reg_group_12_def modrm_reg_group_13_def modrm_reg_group_14_def modrm_reg_group_15_def modrm_reg_group_16_def modrm_reg_group_p_def

section \<open>Facts about the tables\<close>

lemma length_rows [simp]:
  "length x86_opcode_map_one_byte = 256" "length x86_opcode_map_two_byte = 256"
  by (simp_all add: x86_opcode_map_one_byte_def x86_opcode_map_two_byte_def one_byte_row_defs
      two_byte_row_defs foreach_defs)

end
