(* ===== verification/X86_Decode.thy ===== *)
theory X86_Decode
  imports X86_Opcode_Tables
begin

text \<open>
  The x86 instruction decoder, \<^verbatim>\<open>x86_insn_reader.c\<close> and the functions of
  \<^verbatim>\<open>x86_insn_decode.c\<close>.  The reader is the 20-byte buffer the decoder copies fifteen
  code bytes into, and the offset of its cursor; a read past the buffer is
  \<open>Inl OutOfBounds\<close>.  Every function that the C code passes \<^verbatim>\<open>rd\<close> and \<^verbatim>\<open>insn\<close> to by
  pointer takes and returns them.
\<close>

section \<open>The reader\<close>

record x86_insn_reader_t =
  rd_buffer :: "u8 list"
  buffer_cursor :: nat

text \<open>
  \<^verbatim>\<open>init_reader(&rd, begin, begin + n)\<close> for the \<open>n\<close> bytes \<open>code\<close> at \<^verbatim>\<open>begin\<close>: below
  twenty bytes they are copied over a buffer of \<^verbatim>\<open>0xcc\<close>.  The other branch, which reads
  in place, is not taken: the decoder passes fifteen.
\<close>

definition init_reader :: "u8 list \<Rightarrow> x86_insn_reader_t" where
  "init_reader code = \<lparr>rd_buffer = code @ replicate (20 - length code) 0xcc, buffer_cursor = 0\<rparr>"

definition reader_offset :: "x86_insn_reader_t \<Rightarrow> u32" where
  "reader_offset rd = of_nat (buffer_cursor rd)"

definition peek_byte :: "x86_insn_reader_t \<Rightarrow> u8 result" where
  "peek_byte rd =
     (if buffer_cursor rd < length (rd_buffer rd) then Inr (rd_buffer rd ! buffer_cursor rd)
      else Inl OutOfBounds)"

text \<open>\<open>n\<close> bytes at the cursor, which then moves by \<open>k\<close>.\<close>

definition read_bytes :: "nat \<Rightarrow> nat \<Rightarrow> x86_insn_reader_t \<Rightarrow> (u8 list \<times> x86_insn_reader_t) result" where
  "read_bytes n k rd =
     (if buffer_cursor rd + n \<le> length (rd_buffer rd)
      then Inr (take n (drop (buffer_cursor rd) (rd_buffer rd)),
                rd\<lparr>buffer_cursor := buffer_cursor rd + k\<rparr>)
      else Inl OutOfBounds)"

definition read_byte :: "x86_insn_reader_t \<Rightarrow> (u8 \<times> x86_insn_reader_t) result" where
  "read_byte rd = sbind (read_bytes 1 1 rd) (\<lambda>(p, rd). Inr (p ! 0, rd))"

definition read_word :: "x86_insn_reader_t \<Rightarrow> (u16 \<times> x86_insn_reader_t) result" where
  "read_word rd = sbind (read_bytes 2 2 rd) (\<lambda>(p, rd). Inr (ucast (p ! 0) OR push_bit 8 (ucast (p ! 1)), rd))"

definition read_dword :: "x86_insn_reader_t \<Rightarrow> (u32 \<times> x86_insn_reader_t) result" where
  "read_dword rd =
     sbind (read_bytes 4 4 rd)
       (\<lambda>(p, rd). Inr (ucast (p ! 0) OR push_bit 8 (ucast (p ! 1)) OR push_bit 16 (ucast (p ! 2))
                        OR push_bit 24 (ucast (p ! 3)), rd))"

text \<open>Eight bytes are read, but the cursor moves by four.\<close>

definition read_qword :: "x86_insn_reader_t \<Rightarrow> (u64 \<times> x86_insn_reader_t) result" where
  "read_qword rd = sbind (read_bytes 8 4 rd) (\<lambda>(p, rd). Inr (le_word p, rd))"

section \<open>Prefixes\<close>

text \<open>The switch of the prefix loop: 0 for a byte that is not a legacy prefix.\<close>

definition legacy_prefix :: "u8 \<Rightarrow> u32" where
  "legacy_prefix c =
     (if c = 0xF0 then INSN_PREFIX_LOCK
      else if c = 0xF2 then INSN_PREFIX_REPNE
      else if c = 0xF3 then INSN_PREFIX_REPE
      else if c = 0x2E then INSN_PREFIX_CS
      else if c = 0x36 then INSN_PREFIX_SS
      else if c = 0x3E then INSN_PREFIX_DS
      else if c = 0x26 then INSN_PREFIX_ES
      else if c = 0x64 then INSN_PREFIX_FS
      else if c = 0x65 then INSN_PREFIX_GS
      else if c = 0x66 then INSN_PREFIX_OPERAND_SIZE
      else if c = 0x67 then INSN_PREFIX_ADDRESS_SIZE
      else 0)"

lemma read_byte_Inr:
  "read_byte rd = Inr (c, rd') \<longleftrightarrow>
     buffer_cursor rd < length (rd_buffer rd) \<and> c = rd_buffer rd ! buffer_cursor rd
     \<and> rd' = rd\<lparr>buffer_cursor := Suc (buffer_cursor rd)\<rparr>"
  by (auto simp: read_byte_def read_bytes_def sbind_eq_Inr)

function x86_insn_decode_prefix ::
  "x86_insn_reader_t \<Rightarrow> x86_insn_decode_t \<Rightarrow> x86_options_t \<Rightarrow> u32 \<Rightarrow>
     (u32 \<times> x86_insn_reader_t \<times> x86_insn_decode_t) result" where
  "x86_insn_decode_prefix rd insn conf prefix =
     sbind (peek_byte rd) (\<lambda>c.
       if mode conf = 64 \<and> c \<ge> 0x40 \<and> c \<le> 0x4f
       then sbind (read_byte rd) (\<lambda>(rex, rd).
              let insn = (if REX_W rex \<noteq> 0
                          then insn\<lparr>insn_flags := insn_flags insn OR X86_INSN_DECODE_FLAG_OPERAND_SIZE_64\<rparr>
                          else insn)
              in Inr (prefix, rd, insn\<lparr>insn_rex := rex\<rparr>))
       else if legacy_prefix c = 0 then Inr (prefix, rd, insn)
       else sbind (read_byte rd) (\<lambda>(_, rd).
              x86_insn_decode_prefix rd insn conf (prefix OR legacy_prefix c)))"
  by pat_completeness auto
termination
  by (relation "measure (\<lambda>(rd, _). length (rd_buffer rd) - buffer_cursor rd)")
    (auto simp: read_byte_Inr)

declare x86_insn_decode_prefix.simps [simp del]

section \<open>Operand specifications\<close>

definition x86_insn_has_modrm_byte :: "x86_insn_spec_t \<Rightarrow> bool" where
  "x86_insn_has_modrm_byte spec =
     list_ex (\<lambda>o'. os_code o' \<in> {CHR ''G'', CHR ''E'', CHR ''M'', CHR ''R''}) (spec_operands spec)"

definition x86_insn_has_immediate :: "x86_insn_spec_t \<Rightarrow> bool" where
  "x86_insn_has_immediate spec =
     list_ex (\<lambda>o'. os_code o' \<in> {CHR ''J'', CHR ''I'', CHR ''O''}) (spec_operands spec)"

text \<open>
  The loop of \<^verbatim>\<open>x86_insn_immediate_type\<close> runs to \<^verbatim>\<open>sizeof(insn->operands)\<close>, the size
  in bytes: with no immediate among the three operands it reads past the array.
\<close>

fun immediate_type_from :: "x86_insn_operand_spec_t list \<Rightarrow> char result" where
  "immediate_type_from [] = Inl OutOfBounds"
| "immediate_type_from (o' # os) =
     (if os_code o' \<in> {CHR ''J'', CHR ''I'', CHR ''O''} then Inr (os_type o')
      else immediate_type_from os)"

definition x86_insn_immediate_type :: "x86_insn_spec_t \<Rightarrow> char result" where
  "x86_insn_immediate_type spec = immediate_type_from (spec_operands spec)"

definition x86_insn_decode_number ::
  "x86_insn_reader_t \<Rightarrow> u8 \<Rightarrow> (u64 \<times> x86_insn_reader_t) result" where
  "x86_insn_decode_number rd number_bits =
     (if number_bits = 64 then read_qword rd
      else if number_bits = 32 then sbind (read_dword rd) (\<lambda>(v, rd). Inr (ucast v, rd))
      else if number_bits = 16 then sbind (read_word rd) (\<lambda>(v, rd). Inr (ucast v, rd))
      else if number_bits = 8 then sbind (read_byte rd) (\<lambda>(v, rd). Inr (ucast v, rd))
      else Inl Unreachable)"

section \<open>ModR/M and SIB\<close>

definition effective_address_bits :: "x86_insn_decode_t \<Rightarrow> x86_options_t \<Rightarrow> u8 result" where
  "effective_address_bits insn conf =
     (if mode conf = 64
      then Inr (if insn_prefix insn AND INSN_PREFIX_ADDRESS_SIZE \<noteq> 0 then 32 else 64)
      else if mode conf = 32
      then Inr (if insn_prefix insn AND INSN_PREFIX_ADDRESS_SIZE \<noteq> 0 then 16 else 32)
      else Inl Uninitialised)"

definition modrm_disp_bits :: "u8 \<Rightarrow> u8 \<Rightarrow> u8" where
  "modrm_disp_bits md rm =
     (if md = 0 \<and> rm AND 7 = 5 then 32 else if md = 0 then 0 else if md = 1 then 8
      else if md = 2 then 32 else 0)"

definition sib_disp_bits :: "bool \<Rightarrow> u8 \<Rightarrow> u8 \<Rightarrow> u8" where
  "sib_disp_bits no_base md disp_bits =
     (if no_base then (if md = 1 then 8 else 32) else disp_bits)"

text \<open>
  The SIB byte (the repeated HAS_INDEX update of the 64-bit case sets a flag that is
  already set), after \<open>disp_bits\<close> was chosen from the ModR/M byte.
\<close>

definition decode_sib ::
  "x86_insn_reader_t \<Rightarrow> x86_insn_decode_t \<Rightarrow> u8 \<Rightarrow> u8 \<Rightarrow> u8 \<Rightarrow>
     (x86_insn_reader_t \<times> x86_insn_decode_t \<times> u8) result" where
  "decode_sib rd insn addr_bits md disp_bits =
     sbind (read_byte rd) (\<lambda>(sib, rd).
       let rex = insn_rex insn;
           base = sib_base sib OR push_bit 3 (REX_B rex);
           index = sib_index sib OR push_bit 3 (REX_X rex);
           scale = push_bit (unat (sib_log2_scale sib)) 1;
           flags = insn_flags insn OR X86_INSN_DECODE_FLAG_HAS_BASE;
           flags = (if sib_index sib \<noteq> X86_INSN_GP_REG_SP
                    then flags OR X86_INSN_DECODE_FLAG_HAS_INDEX else flags);
           mem_op = (operands_1 insn)\<lparr>mem_base := base, mem_index := index, mem_scale := scale\<rparr>;
           mem_op = (if sib_index sib = X86_INSN_GP_REG_SP
                     then mem_op\<lparr>mem_index := RNone, mem_scale := 0\<rparr> else mem_op);
           no_base = ((addr_bits = 64 \<and> (mem_base mem_op = RBP \<or> mem_base mem_op = R13))
                      \<or> (addr_bits = 32 \<and> mem_base mem_op = RBP));
           mem_op = (if no_base \<and> md = 0 then mem_op\<lparr>mem_base := RNone\<rparr> else mem_op);
           disp_bits = sib_disp_bits no_base md disp_bits
       in Inr (rd, insn\<lparr>insn_sib := sib, insn_flags := flags, operands_1 := mem_op\<rparr>, disp_bits))"

text \<open>32-bit and 64-bit addressing.\<close>

definition decode_mem_32_64 ::
  "x86_insn_reader_t \<Rightarrow> x86_insn_decode_t \<Rightarrow> u8 \<Rightarrow> u8 \<Rightarrow> u8 \<Rightarrow>
     (x86_insn_reader_t \<times> x86_insn_decode_t \<times> u8) result" where
  "decode_mem_32_64 rd insn addr_bits md rm =
     (let insn = insn\<lparr>operands_1 := (operands_1 insn)\<lparr>mem_base := rm\<rparr>,
                      insn_flags := insn_flags insn OR X86_INSN_DECODE_FLAG_HAS_BASE\<rparr>;
          ip_rel = (md = 0 \<and> rm AND 7 = 5);
          insn = (if ip_rel
                  then insn\<lparr>insn_flags := X86_INSN_DECODE_FLAG_IP_RELATIVE,
                            operands_1 := (operands_1 insn)\<lparr>mem_base := RIP\<rparr>\<rparr>
                  else insn);
          disp_bits = modrm_disp_bits md rm
      in if rm AND 7 = 4 then decode_sib rd insn addr_bits md disp_bits
         else Inr (rd, insn, disp_bits))"

text \<open>16-bit addressing; \<open>disp_bits\<close> keeps its initial value \<^verbatim>\<open>(uint8_t)-1\<close> in mode 0.\<close>

definition decode_mem_16 :: "x86_insn_decode_t \<Rightarrow> u8 \<Rightarrow> u8 \<Rightarrow> x86_insn_decode_t \<times> u8" where
  "decode_mem_16 insn modrm disp_bits =
     (let md = modrm_mode modrm; rm = modrm_rm modrm; m = operands_1 insn;
          base = X86_INSN_DECODE_FLAG_HAS_BASE;
          base_index = X86_INSN_DECODE_FLAG_HAS_BASE OR X86_INSN_DECODE_FLAG_HAS_INDEX;
          si_di = X86_INSN_GP_REG_SI + (rm AND 1)
      in if md = 0 \<and> rm = 6 then (insn, 16)
         else if md = 3 then (insn, disp_bits)
         else
           let (m, fl) =
                 (if rm = 0 \<or> rm = 1 then (m\<lparr>mem_base := X86_INSN_GP_REG_BX, mem_index := si_di\<rparr>, base_index)
                  else if rm = 2 \<or> rm = 3 then (m\<lparr>mem_base := X86_INSN_GP_REG_BP, mem_index := si_di\<rparr>, base_index)
                  else if rm = 4 \<or> rm = 5 then (m\<lparr>mem_base := si_di\<rparr>, base)
                  else if rm = 6 then (m\<lparr>mem_base := X86_INSN_GP_REG_BP\<rparr>, base)
                  else (m\<lparr>mem_base := X86_INSN_GP_REG_BX\<rparr>, base))
           in (insn\<lparr>operands_1 := m, insn_flags := insn_flags insn OR fl\<rparr>,
               if md \<noteq> 0 then (if md = 1 then 8 else 16) else disp_bits))"

text \<open>The displacement at the end of \<^verbatim>\<open>x86_insn_decode_modrm_sib\<close>.\<close>

definition decode_displacement ::
  "x86_insn_reader_t \<Rightarrow> x86_insn_decode_t \<Rightarrow> u8 \<Rightarrow> (x86_insn_reader_t \<times> x86_insn_decode_t) result" where
  "decode_displacement rd insn disp_bits =
     (if disp_bits \<noteq> 0
      then let insn = insn\<lparr>displacement_offset := ucast (reader_offset rd)\<rparr>
           in sbind (x86_insn_decode_number rd disp_bits) (\<lambda>(disp, rd).
                Inr (rd, insn\<lparr>operands_1 := (operands_1 insn)\<lparr>mem_disp := ucast disp\<rparr>\<rparr>))
      else Inr (rd, insn))"

definition x86_insn_decode_modrm_sib ::
  "x86_insn_reader_t \<Rightarrow> x86_insn_decode_t \<Rightarrow> x86_options_t \<Rightarrow>
     (x86_insn_reader_t \<times> x86_insn_decode_t) result" where
  "x86_insn_decode_modrm_sib rd insn conf =
     sbind (read_byte rd) (\<lambda>(modrm, rd).
       let insn = insn\<lparr>insn_modrm := modrm\<rparr>;
           md = modrm_mode modrm;
           rm = push_bit 3 (REX_B (insn_rex insn)) OR modrm_rm modrm;
           reg = push_bit 3 (REX_R (insn_rex insn)) OR modrm_reg modrm;
           insn = insn\<lparr>operands_0 := (operands_0 insn)\<lparr>op_reg := reg\<rparr>\<rparr>
       in if md = 3 then Inr (rd, insn\<lparr>operands_1 := (operands_1 insn)\<lparr>op_reg := rm\<rparr>\<rparr>)
          else
            let insn = insn\<lparr>insn_flags := insn_flags insn OR X86_INSN_DECODE_FLAG_IS_ADDRESS\<rparr>
            in sbind (effective_address_bits insn conf) (\<lambda>addr_bits.
                 if addr_bits = 16
                 then let (insn, disp_bits) = decode_mem_16 insn modrm 255
                      in decode_displacement rd insn disp_bits
                 else sbind (decode_mem_32_64 rd insn addr_bits md rm) (\<lambda>(rd, insn, disp_bits).
                        decode_displacement rd insn disp_bits)))"

section \<open>Opcode and immediate\<close>

definition x86_insn_decode_opcode ::
  "x86_insn_reader_t \<Rightarrow> x86_insn_decode_t \<Rightarrow> x86_options_t \<Rightarrow>
     (x86_insn_reader_t \<times> x86_insn_decode_t) result" where
  "x86_insn_decode_opcode rd insn conf =
     sbind (read_byte rd) (\<lambda>(opcode, rd).
       sbind (if opcode = 0x0f
              then sbind (read_byte rd) (\<lambda>(opcode, rd).
                     Inr (opcode, x86_opcode_map_two_byte ! unat opcode, rd))
              else Inr (opcode, x86_opcode_map_one_byte ! unat opcode, rd))
         (\<lambda>(opcode, spec, rd).
           let group_ndx = X86_INSN_FLAG_GET_GROUP (spec_flags spec)
           in if group_ndx > X86_INSN_SSE_GROUP_START then Inl Unimplemented
              else if group_ndx > X86_INSN_GROUP_START \<and> group_ndx < X86_INSN_SSE_GROUP_START
              then sbind (peek_byte rd) (\<lambda>modrm.
                     let group_insn = x86_insn_modrm_reg_groups ! group_ndx ! unat (modrm_reg modrm);
                         spec = spec\<lparr>spec_name := spec_name group_insn, spec_flags := spec_flags group_insn\<rparr>
                     in Inr (rd, insn\<lparr>primary_opcode := opcode, insn_spec := spec\<rparr>))
              else Inr (rd, insn\<lparr>primary_opcode := opcode, insn_spec := spec\<rparr>)))"

definition x86_insn_imm_bits :: "x86_insn_spec_t \<Rightarrow> u8 \<Rightarrow> u8 result" where
  "x86_insn_imm_bits spec operand_bits =
     sbind (x86_insn_immediate_type spec) (\<lambda>t.
       Inr (if t = CHR ''b'' then 8
            else if t = CHR ''w'' then 16
            else if t = CHR ''d'' then 32
            else if t = CHR ''q'' then 64
            else if t = CHR ''z'' then (if operand_bits = 64 then 32 else operand_bits)
            else if t = CHR ''v'' then operand_bits
            else 0))"

definition effective_operand_bits :: "x86_insn_decode_t \<Rightarrow> x86_options_t \<Rightarrow> u8" where
  "effective_operand_bits insn conf =
     (let bits = (if insn_prefix insn AND INSN_PREFIX_OPERAND_SIZE \<noteq> 0 then 16 else 32);
          bits = (if insn_flags insn AND X86_INSN_DECODE_FLAG_OPERAND_SIZE_64 \<noteq> 0 then 64 else bits)
      in if mode conf = 64 \<and> spec_flags (insn_spec insn) AND X86_INSN_SPEC_DEFAULT_64_BIT \<noteq> 0
         then 64 else bits)"

definition x86_insn_decode_immediate ::
  "x86_insn_reader_t \<Rightarrow> x86_insn_decode_t \<Rightarrow> x86_options_t \<Rightarrow>
     (x86_insn_reader_t \<times> x86_insn_decode_t) result" where
  "x86_insn_decode_immediate rd insn conf =
     sbind (x86_insn_imm_bits (insn_spec insn) (effective_operand_bits insn conf)) (\<lambda>imm_bits.
       if imm_bits = 0 then Inr (rd, insn)
       else let insn = insn\<lparr>immediate_offset := ucast (reader_offset rd)\<rparr>
            in sbind (x86_insn_decode_number rd imm_bits) (\<lambda>(immediate, rd).
                 Inr (rd, insn\<lparr>insn_immediate := immediate\<rparr>)))"

text \<open>The two field decoders \<^verbatim>\<open>x86_insn_decode\<close> runs after the opcode.\<close>

definition decode_operands ::
  "x86_insn_reader_t \<Rightarrow> x86_insn_decode_t \<Rightarrow> x86_options_t \<Rightarrow>
     (x86_insn_reader_t \<times> x86_insn_decode_t) result" where
  "decode_operands rd insn conf =
     sbind (if x86_insn_has_modrm_byte (insn_spec insn)
            then x86_insn_decode_modrm_sib rd insn conf else Inr (rd, insn)) (\<lambda>(rd, insn).
       if x86_insn_has_immediate (insn_spec insn)
       then x86_insn_decode_immediate rd insn conf else Inr (rd, insn))"

text \<open>
  \<^verbatim>\<open>x86_insn_decode\<close>; \<open>code\<close> is the fifteen bytes at \<^verbatim>\<open>buffer\<close> that
  \<^verbatim>\<open>init_reader\<close> copies.
\<close>

definition x86_insn_decode ::
  "x86_insn_decode_t \<Rightarrow> u8 list \<Rightarrow> x86_options_t \<Rightarrow> x86_insn_decode_t result" where
  "x86_insn_decode insn code conf =
     sbind (x86_insn_decode_prefix (init_reader code) insn conf 0) (\<lambda>(prefix, rd, insn).
       sbind (x86_insn_decode_opcode rd (insn\<lparr>insn_prefix := prefix\<rparr>) conf) (\<lambda>(rd, insn).
         sbind (decode_operands rd insn conf) (\<lambda>(rd, insn).
           Inr (insn\<lparr>insn_length := reader_offset rd\<rparr>))))"

end
