(* ===== verification/X86_Decode_Proofs.thy ===== *)
theory X86_Decode_Proofs
  imports X86_Decode
begin

text \<open>
  Lemmas on the x86 decoder: how far each step moves the reader and when it leaves the
  buffer, what each step keeps of the instruction record, the prefix loop as a closed form,
  and from them the properties of the whole decoder.
\<close>

section \<open>Reads stay in the buffer\<close>

text \<open>
  \<open>reads p lo hi need rd r\<close>: the result \<open>r\<close> of a step from \<open>rd\<close>, whose reader is the \<open>p\<close>
  component, keeps the buffer, moves the cursor by at least \<open>lo\<close> and at most \<open>hi\<close> bytes, and
  leaves the buffer only if fewer than \<open>need\<close> bytes were left.
\<close>

definition reads ::
  "('a \<Rightarrow> x86_insn_reader_t) \<Rightarrow> nat \<Rightarrow> nat \<Rightarrow> nat \<Rightarrow> x86_insn_reader_t \<Rightarrow> 'a result \<Rightarrow> bool" where
  "reads p lo hi need rd r =
     (case r of
        Inl e \<Rightarrow> e = OutOfBounds \<longrightarrow> length (rd_buffer rd) < buffer_cursor rd + need
      | Inr x \<Rightarrow> rd_buffer (p x) = rd_buffer rd \<and> buffer_cursor rd + lo \<le> buffer_cursor (p x)
                 \<and> buffer_cursor (p x) \<le> buffer_cursor rd + hi)"

text \<open>The bytes the prefix loop consumes before it meets the opcode or a REX prefix.\<close>

definition legacy_run :: "x86_insn_reader_t \<Rightarrow> u8 list" where
  "legacy_run rd = takeWhile (\<lambda>c. legacy_prefix c \<noteq> 0) (drop (buffer_cursor rd) (rd_buffer rd))"

lemma reads_Inr [simp]:
  "reads p lo hi need rd (Inr x) \<longleftrightarrow>
     rd_buffer (p x) = rd_buffer rd \<and> buffer_cursor rd + lo \<le> buffer_cursor (p x)
     \<and> buffer_cursor (p x) \<le> buffer_cursor rd + hi"
  by (simp add: reads_def)

lemma reads_Inl [simp]:
  "reads p lo hi need rd (Inl e) \<longleftrightarrow>
     (e = OutOfBounds \<longrightarrow> length (rd_buffer rd) < buffer_cursor rd + need)"
  by (simp add: reads_def)

lemma reads_bind:
  assumes "reads p la ha na rd r"
    and "\<And>x. r = Inr x \<Longrightarrow> reads q lb hb nb (p x) (f x)"
    and "lo \<le> la + lb" and "ha + hb \<le> hi" and "na \<le> need" and "ha + nb \<le> need"
  shows "reads q lo hi need rd (sbind r f)"
proof (cases r)
  case (Inl e)
  then show ?thesis using assms(1,5) by auto
next
  case (Inr x)
  then show ?thesis
    using assms(1) assms(2)[OF Inr] assms(3-6) by (cases "f x") auto
qed

text \<open>The last step of a sequence reads nothing.\<close>

lemma reads_last:
  assumes "reads p la ha na rd r" and "\<And>x. r = Inr x \<Longrightarrow> \<exists>y. f x = Inr y \<and> q y = p x"
    and "lo \<le> la" and "ha \<le> hi" and "na \<le> need"
  shows "reads q lo hi need rd (sbind r f)"
  using assms(1) assms(2) assms(3-5) by (cases r) force+

lemma reads_weaken:
  "reads p lo hi need rd r \<Longrightarrow> lo' \<le> lo \<Longrightarrow> hi \<le> hi' \<Longrightarrow> need \<le> need' \<Longrightarrow> reads p lo' hi' need' rd r"
  by (cases r) auto

lemma reads_bytes: "reads snd k k n rd (read_bytes n k rd)"
  by (simp add: read_bytes_def)

lemma reads_scalar:
  "reads snd 1 1 1 rd (read_byte rd)" "reads snd 2 2 2 rd (read_word rd)"
  "reads snd 4 4 4 rd (read_dword rd)" "reads snd 4 4 8 rd (read_qword rd)"
  unfolding read_byte_def read_word_def read_dword_def read_qword_def
  by (rule reads_last[OF reads_bytes]; simp add: split_beta)+

lemmas reads_byte = reads_scalar(1)

lemma reads_number:
  "number_bits \<noteq> 64 \<Longrightarrow> reads snd 0 4 4 rd (x86_insn_decode_number rd number_bits)"
  "reads snd 0 4 8 rd (x86_insn_decode_number rd number_bits)"
  unfolding x86_insn_decode_number_def
  by (auto intro!: reads_last[OF reads_scalar(1)] reads_last[OF reads_scalar(2)]
      reads_last[OF reads_scalar(3)] intro: reads_weaken[OF reads_scalar(4)])

lemma reads_displacement:
  "disp_bits \<noteq> 64 \<Longrightarrow> reads fst 0 4 4 rd (decode_displacement rd insn disp_bits)"
  by (auto simp: decode_displacement_def Let_def intro!: reads_last[OF reads_number(1)])

lemma reads_mem_32_64: "reads fst 0 1 1 rd (decode_mem_32_64 rd insn addr_bits md rm)"
  by (auto simp: decode_mem_32_64_def decode_sib_def Let_def intro!: reads_last[OF reads_byte])

lemma disp_bits_neq_64:
  "modrm_disp_bits md rm \<noteq> 64" "d \<noteq> 64 \<Longrightarrow> sib_disp_bits no_base md d \<noteq> 64"
  by (simp_all add: modrm_disp_bits_def sib_disp_bits_def)

lemma disp_bits_not_64:
  "decode_mem_32_64 rd insn addr_bits md rm = Inr (rd', insn', disp_bits) \<Longrightarrow> disp_bits \<noteq> 64"
  "snd (decode_mem_16 insn modrm 255) \<noteq> 64"
proof -
  show "decode_mem_32_64 rd insn addr_bits md rm = Inr (rd', insn', disp_bits) \<Longrightarrow> disp_bits \<noteq> 64"
    by (cases "rm AND 7 = 4")
      (auto simp: decode_mem_32_64_def decode_sib_def Let_def sbind_eq_Inr disp_bits_neq_64)
  show "snd (decode_mem_16 insn modrm 255) \<noteq> 64"
    by (simp add: decode_mem_16_def Let_def split_def)
qed

lemma decode_mem_32_64_bits: "decode_mem_32_64 rd insn addr_bits md rm \<noteq> Inr (rd', insn', 64)"
  using disp_bits_not_64(1) by blast

lemma reads_modrm_sib: "reads fst 1 6 6 rd (x86_insn_decode_modrm_sib rd insn conf)"
proof -
  have addr: "reads (\<lambda>_. rd') 0 0 0 rd' (effective_address_bits i conf)" for rd' i
    by (simp add: effective_address_bits_def)
  show ?thesis
    unfolding x86_insn_decode_modrm_sib_def Let_def
    by (rule reads_bind[where lb = 0 and hb = 5 and nb = 5, OF reads_byte])
      (auto simp: split_def disp_bits_not_64(2) decode_mem_32_64_bits
        intro!: reads_bind[where lb = 0 and hb = 5 and nb = 5, OF addr]
          reads_bind[where lb = 0 and hb = 4 and nb = 4, OF reads_mem_32_64]
          reads_displacement reads_weaken[OF reads_displacement])
qed

lemma reads_opcode: "reads fst 1 2 3 rd (x86_insn_decode_opcode rd insn conf)"
proof -
  have map2: "reads (\<lambda>(_, _, rd). rd) 0 1 1 rd'
      (if c = 0x0f then sbind (read_byte rd') (\<lambda>(c, rd). Inr (c, x86_opcode_map_two_byte ! unat c, rd))
       else Inr (c, x86_opcode_map_one_byte ! unat c, rd'))" for c rd'
    by (auto intro!: reads_last[OF reads_byte])
  have peek: "reads (\<lambda>_. rd') 0 0 1 rd' (peek_byte rd')" for rd'
    by (simp add: peek_byte_def)
  show ?thesis
    unfolding x86_insn_decode_opcode_def Let_def
    apply (rule reads_bind[where lb = 0 and hb = 1 and nb = 2, OF reads_byte])
      apply (simp only: split_beta)
      apply (rule reads_bind[where lb = 0 and hb = 0 and nb = 1, OF map2])
        apply (auto intro!: reads_last[OF peek])
    done
qed

lemma immediate_type_from_present:
  "list_ex (\<lambda>o'. os_code o' \<in> {CHR ''J'', CHR ''I'', CHR ''O''}) os \<Longrightarrow>
     \<exists>c. immediate_type_from os = Inr c"
  by (induction os) auto

lemma immediate_type_present:
  "x86_insn_has_immediate spec \<Longrightarrow> \<exists>c. x86_insn_immediate_type spec = Inr c"
  unfolding x86_insn_has_immediate_def x86_insn_immediate_type_def
  by (rule immediate_type_from_present)

lemma reads_immediate:
  assumes "x86_insn_has_immediate (insn_spec insn)"
  shows "reads fst 0 4 8 rd (x86_insn_decode_immediate rd insn conf)"
    and "x86_insn_imm_bits (insn_spec insn) (effective_operand_bits insn conf) \<noteq> Inr 64 \<Longrightarrow>
           reads fst 0 4 4 rd (x86_insn_decode_immediate rd insn conf)"
proof -
  obtain b where b: "x86_insn_imm_bits (insn_spec insn) (effective_operand_bits insn conf) = Inr b"
    using immediate_type_present[OF assms] by (auto simp: x86_insn_imm_bits_def)
  show "reads fst 0 4 8 rd (x86_insn_decode_immediate rd insn conf)"
    by (auto simp: x86_insn_decode_immediate_def b Let_def intro!: reads_last[OF reads_number(2)])
  show "reads fst 0 4 4 rd (x86_insn_decode_immediate rd insn conf)"
    if "x86_insn_imm_bits (insn_spec insn) (effective_operand_bits insn conf) \<noteq> Inr 64"
    using that
    by (auto simp: x86_insn_decode_immediate_def b Let_def intro!: reads_last[OF reads_number(1)])
qed

section \<open>Prefix loop\<close>

lemma legacy_prefix_not_rex:
  "legacy_prefix c \<noteq> 0 \<Longrightarrow> \<not> (c \<ge> 0x40 \<and> c \<le> 0x4f)"
  by (auto simp: legacy_prefix_def split: if_splits)

lemma rex_range: "(c \<ge> 0x40 \<and> c \<le> 0x4f) \<longleftrightarrow> drop_bit 4 (c :: u8) = 4"
  by (simp add: word_le_nat_alt word_unat_eq_iff drop_bit_eq_div unat_div_distrib) linarith

lemma REX_W_bit: "REX_W c \<noteq> 0 \<longleftrightarrow> bit c 3"
  by (simp add: REX_W_def drop_bit_and and_one_eq bit_iff_odd_drop_bit odd_iff_mod_2_eq_one)

lemma read_byte_ok:
  "buffer_cursor rd < length (rd_buffer rd) \<Longrightarrow>
     read_byte rd = Inr (rd_buffer rd ! buffer_cursor rd, rd\<lparr>buffer_cursor := Suc (buffer_cursor rd)\<rparr>)"
  by (simp add: read_byte_Inr)

lemma decode_prefix_eq:
  "x86_insn_decode_prefix rd insn conf prefix =
     (let run = legacy_run rd; n = buffer_cursor rd + length run;
          prefix' = foldl (OR) prefix (map legacy_prefix run)
      in if n \<ge> length (rd_buffer rd) then Inl OutOfBounds
         else let c = rd_buffer rd ! n
              in if mode conf = 64 \<and> drop_bit 4 c = 4
                 then Inr (prefix', rd\<lparr>buffer_cursor := Suc n\<rparr>,
                           insn\<lparr>insn_flags := (if bit c 3 then insn_flags insn OR X86_INSN_DECODE_FLAG_OPERAND_SIZE_64
                                               else insn_flags insn), insn_rex := c\<rparr>)
                 else Inr (prefix', rd\<lparr>buffer_cursor := n\<rparr>, insn))"
proof (induction rd insn conf prefix rule: x86_insn_decode_prefix.induct)
  case (1 rd insn conf prefix)
  let ?c = "rd_buffer rd ! buffer_cursor rd"
  consider (out) "length (rd_buffer rd) \<le> buffer_cursor rd"
    | (legacy) "buffer_cursor rd < length (rd_buffer rd)" "legacy_prefix ?c \<noteq> 0"
    | (other) "buffer_cursor rd < length (rd_buffer rd)" "legacy_prefix ?c = 0"
    by linarith
  then show ?case
  proof cases
    case out
    then show ?thesis
      by (simp add: x86_insn_decode_prefix.simps[of rd] peek_byte_def legacy_run_def)
  next
    case legacy
    let ?rd = "rd\<lparr>buffer_cursor := Suc (buffer_cursor rd)\<rparr>"
    have "x86_insn_decode_prefix rd insn conf prefix =
        x86_insn_decode_prefix ?rd insn conf (prefix OR legacy_prefix ?c)"
      using legacy legacy_prefix_not_rex[OF legacy(2)]
      by (subst x86_insn_decode_prefix.simps) (auto simp: peek_byte_def read_byte_ok)
    moreover have "legacy_run rd = ?c # legacy_run ?rd"
      using legacy by (simp add: legacy_run_def Cons_nth_drop_Suc[symmetric])
    ultimately show ?thesis
      using legacy legacy_prefix_not_rex[OF legacy(2)] 1[of ?c "(?c, ?rd)" ?c ?rd]
      by (auto simp: peek_byte_def read_byte_ok Let_def)
  next
    case other
    then have "legacy_run rd = []"
      by (simp add: legacy_run_def Cons_nth_drop_Suc[symmetric])
    with other show ?thesis
      by (subst x86_insn_decode_prefix.simps)
        (simp add: peek_byte_def read_byte_ok rex_range REX_W_bit Let_def)
  qed
qed
text \<open>
  C15.  The prefix loop computes what the architecture manual says: it consumes exactly the
  maximal run of legacy prefixes, returns the union of their flags, and takes one REX prefix
  after them in 64-bit mode only, recording it and REX.W; when the run fills the buffer it
  leaves the buffer.
\<close>

theorem prefix_loop_spec:
  "x86_insn_decode_prefix rd insn conf prefix =
     (let run = legacy_run rd; n = buffer_cursor rd + length run;
          prefix' = foldl (OR) prefix (map legacy_prefix run)
      in if n \<ge> length (rd_buffer rd) then Inl OutOfBounds
         else let c = rd_buffer rd ! n
              in if mode conf = 64 \<and> drop_bit 4 c = 4
                 then Inr (prefix', rd\<lparr>buffer_cursor := Suc n\<rparr>,
                           insn\<lparr>insn_flags := (if bit c 3 then insn_flags insn OR X86_INSN_DECODE_FLAG_OPERAND_SIZE_64
                                               else insn_flags insn), insn_rex := c\<rparr>)
                 else Inr (prefix', rd\<lparr>buffer_cursor := n\<rparr>, insn))"
  by (rule decode_prefix_eq)

section \<open>Table facts\<close>

text \<open>
  No instruction with a ModR/M byte has an immediate of eight bytes: the operand types
  \<open>v\<close> and \<open>q\<close> occur with immediates only where there is no ModR/M byte.
\<close>

definition spec_imm_ok :: "x86_insn_spec_t \<Rightarrow> bool" where
  "spec_imm_ok spec =
     (x86_insn_has_modrm_byte spec \<longrightarrow>
        x86_insn_immediate_type spec \<noteq> Inr (CHR ''v'') \<and> x86_insn_immediate_type spec \<noteq> Inr (CHR ''q''))"

lemma one_byte_imm_ok: "list_all spec_imm_ok x86_opcode_map_one_byte"
  by code_simp

lemma two_byte_imm_ok: "list_all spec_imm_ok x86_opcode_map_two_byte"
  by code_simp

lemma spec_imm_ok_update [simp]:
  "spec_imm_ok (s\<lparr>spec_name := a, spec_flags := b\<rparr>) = spec_imm_ok s"
  by (simp add: spec_imm_ok_def x86_insn_has_modrm_byte_def x86_insn_immediate_type_def)

lemma unat_lt_256: "unat (c :: u8) < 256"
  using unsigned_less[of c] by simp

lemma map_imm_ok [simp]:
  "spec_imm_ok (x86_opcode_map_one_byte ! unat (c :: u8))"
  "spec_imm_ok (x86_opcode_map_two_byte ! unat (c :: u8))"
  using one_byte_imm_ok two_byte_imm_ok
  by (simp_all add: list_all_length unat_lt_256)

lemma decode_opcode_imm_ok:
  "rpost (\<lambda>(_, insn'). spec_imm_ok (insn_spec insn')) (x86_insn_decode_opcode rd insn conf)"
  by (simp add: x86_insn_decode_opcode_def Let_def rpost split_def)
    (auto intro!: rpost_any)

text \<open>What the ModR/M decoder leaves alone.\<close>

definition same_opcode :: "x86_insn_decode_t \<Rightarrow> x86_insn_decode_t \<Rightarrow> bool" where
  "same_opcode i i' =
     (insn_spec i' = insn_spec i \<and> primary_opcode i' = primary_opcode i
      \<and> insn_prefix i' = insn_prefix i \<and> insn_rex i' = insn_rex i
      \<and> immediate_offset i' = immediate_offset i)"

lemma decode_displacement_frame:
  "same_opcode i insn \<Longrightarrow> rpost (\<lambda>(_, insn'). same_opcode i insn') (decode_displacement rd insn disp_bits)"
  by (simp add: decode_displacement_def Let_def rpost same_opcode_def split_def)
    (auto intro!: rpost_any)

lemma decode_mem_32_64_frame:
  "same_opcode i insn \<Longrightarrow>
     rpost (\<lambda>(_, insn', _). same_opcode i insn') (decode_mem_32_64 rd insn addr_bits md rm)"
  by (simp add: decode_mem_32_64_def decode_sib_def Let_def rpost same_opcode_def split_def)
    (auto intro!: rpost_any)

lemma decode_mem_16_frame: "same_opcode i insn \<Longrightarrow> same_opcode i (fst (decode_mem_16 insn modrm d))"
  by (simp add: decode_mem_16_def Let_def split_def same_opcode_def)

lemma decode_modrm_sib_frame:
  "rpost (\<lambda>(_, insn'). same_opcode insn insn') (x86_insn_decode_modrm_sib rd insn conf)"
proof -
  have upd: "same_opcode insn (insn\<lparr>insn_modrm := a, operands_0 := b, insn_flags := c\<rparr>)"
    "same_opcode insn (insn\<lparr>insn_modrm := a, operands_0 := b, operands_1 := d\<rparr>)" for a b c d
    by (simp_all add: same_opcode_def)
  show ?thesis
    unfolding x86_insn_decode_modrm_sib_def Let_def rpost split_def
    by (rule rpost_any, simp add: upd del: rpost_simps)
      (auto simp: upd intro!: rpost_any[where m = "effective_address_bits _ _"]
        decode_displacement_frame[unfolded split_def] decode_mem_16_frame
        rpost_weaken[OF decode_mem_32_64_frame[unfolded split_def]])
qed

lemma imm_bits_not_64:
  "spec_imm_ok spec \<Longrightarrow> x86_insn_has_modrm_byte spec \<Longrightarrow>
     x86_insn_imm_bits spec operand_bits \<noteq> Inr 64"
  by (auto simp: spec_imm_ok_def x86_insn_imm_bits_def sbind_eq_Inr split: if_splits)

lemma reads_operands:
  assumes "spec_imm_ok (insn_spec insn)"
  shows "reads fst 0 10 10 rd (decode_operands rd insn conf)"
proof (cases "x86_insn_has_modrm_byte (insn_spec insn)")
  case True
  have "reads fst 0 4 4 rd' (if x86_insn_has_immediate (insn_spec insn')
      then x86_insn_decode_immediate rd' insn' conf else Inr (rd', insn'))"
    if "x86_insn_decode_modrm_sib rd insn conf = Inr (rd', insn')" for rd' insn'
    using rpostD[OF decode_modrm_sib_frame that] imm_bits_not_64[OF assms True]
      reads_immediate(2)[of insn']
    by (simp add: same_opcode_def)
  then show ?thesis
    using True unfolding decode_operands_def
    by (auto intro!: reads_bind[where lb = 0 and hb = 4 and nb = 4, OF reads_modrm_sib])
next
  case False
  then show ?thesis
    using reads_weaken[OF reads_immediate(1)] by (simp add: decode_operands_def)
qed

lemma reads_after_prefix:
  "reads fst 1 12 12 rd
     (sbind (x86_insn_decode_opcode rd insn conf) (\<lambda>(rd, insn). decode_operands rd insn conf))"
  by (rule reads_bind[where lb = 0 and hb = 10 and nb = 10, OF reads_opcode])
    (use rpostD[OF decode_opcode_imm_ok] in \<open>auto intro!: reads_operands\<close>)

section \<open>The whole decoder\<close>

lemma init_reader_simps [simp]:
  "length code = 15 \<Longrightarrow> length (rd_buffer (init_reader code)) = 20"
  "buffer_cursor (init_reader code) = 0"
  by (simp_all add: init_reader_def)

lemma length_legacy_run:
  "length (legacy_run rd) \<le> length (rd_buffer rd) - buffer_cursor rd"
  using length_takeWhile_le[of _ "drop (buffer_cursor rd) (rd_buffer rd)"]
  by (simp add: legacy_run_def)

lemma reads_prefix:
  "reads (\<lambda>(_, rd, _). rd) (length (legacy_run rd)) (length (legacy_run rd) + 1)
     (length (legacy_run rd) + 1) rd (x86_insn_decode_prefix rd insn conf prefix)"
  by (simp add: decode_prefix_eq Let_def)

lemma reads_decode:
  "reads fst (n + 1) (n + 13) (n + 13) rd
     (sbind (x86_insn_decode_prefix rd insn conf 0) (\<lambda>(prefix, rd, insn).
        sbind (x86_insn_decode_opcode rd (insn\<lparr>insn_prefix := prefix\<rparr>) conf)
          (\<lambda>(rd, insn). decode_operands rd insn conf)))"
  if "n = length (legacy_run rd)"
  using that
  by (intro reads_bind[OF reads_prefix, where lb = 1 and hb = 12 and nb = 12])
    (auto simp del: One_nat_def intro!: reads_after_prefix)

lemma decode_unfold:
  "x86_insn_decode insn code conf =
     sbind (sbind (x86_insn_decode_prefix (init_reader code) insn conf 0) (\<lambda>(prefix, rd, insn).
        sbind (x86_insn_decode_opcode rd (insn\<lparr>insn_prefix := prefix\<rparr>) conf)
          (\<lambda>(rd, insn). decode_operands rd insn conf)))
       (\<lambda>(rd, insn). Inr (insn\<lparr>insn_length := reader_offset rd\<rparr>))"
  by (simp add: x86_insn_decode_def sbind_assoc split_def)

text \<open>
  C14.  Decoding an instruction with at most seven legacy prefixes never reads outside the
  reader's twenty-byte buffer, whatever the fifteen code bytes, the mode and the contents of
  the structure passed in.
\<close>

theorem decode_in_bounds:
  assumes "length code = 15" and "length (legacy_run (init_reader code)) \<le> 7"
  shows "x86_insn_decode insn code conf \<noteq> Inl OutOfBounds"
  using reads_decode[OF refl, of "init_reader code" insn conf] assms
  by (auto simp: decode_unfold sbind_eq_Inl)

lemma decoded_length_run:
  assumes "length code = 15" and "x86_insn_decode insn code conf = Inr insn'"
  shows "length (legacy_run (init_reader code)) + 1 \<le> unat (insn_length insn')
    \<and> unat (insn_length insn') \<le> length (legacy_run (init_reader code)) + 13"
proof -
  obtain rd i where "reads fst (length (legacy_run (init_reader code)) + 1)
      (length (legacy_run (init_reader code)) + 13) (length (legacy_run (init_reader code)) + 13)
      (init_reader code) (Inr (rd, i))" and "insn' = i\<lparr>insn_length := reader_offset rd\<rparr>"
    using assms(2) reads_decode[OF refl, of "init_reader code" insn conf]
    by (auto simp: decode_unfold sbind_eq_Inr)
  then show ?thesis
    using length_legacy_run[of "init_reader code"] assms(1)
    by (simp add: reader_offset_def unat_of_nat)
qed

lemma decoded_length:
  assumes "length code = 15" and "x86_insn_decode insn code conf = Inr insn'"
  shows "0 < unat (insn_length insn') \<and> unat (insn_length insn') \<le> 33"
  using decoded_length_run[OF assms] length_legacy_run[of "init_reader code"] assms(1) by simp

text \<open>
  C16.  The length the decoder reports is the number of legacy prefixes plus at least one
  and at most thirteen bytes: never zero, so a loop that advances by it makes progress.
\<close>

theorem decode_length_bounds:
  assumes "length code = 15" and "x86_insn_decode insn code conf = Inr insn'"
  shows "length (legacy_run (init_reader code)) + 1 \<le> unat (insn_length insn')
    \<and> unat (insn_length insn') \<le> length (legacy_run (init_reader code)) + 13"
  using assms by (rule decoded_length_run)
section \<open>RIP-relative operands\<close>

text \<open>
  What the relocator relies on when the decoder reports a RIP-relative operand: the four
  displacement bytes lie inside the instruction, at \<open>displacement_offset\<close>.
\<close>

definition ip_relative :: "x86_insn_decode_t \<Rightarrow> bool" where
  "ip_relative insn = (insn_flags insn AND X86_INSN_DECODE_FLAG_IP_RELATIVE \<noteq> 0)"

definition disp_field :: "u8 list \<Rightarrow> x86_insn_decode_t \<Rightarrow> nat \<Rightarrow> bool" where
  "disp_field buf insn n =
     (let off = unat (displacement_offset insn)
      in off + 4 \<le> n \<and> n \<le> length buf \<and> mem_disp (operands_1 insn) = le_word (take 4 (drop off buf))
         \<and> modrm_mode (insn_modrm insn) = 0 \<and> modrm_rm (insn_modrm insn) = 5
         \<and> mem_base (operands_1 insn) = RIP
         \<and> (if immediate_offset insn = 0 then off + 4 = n else unat (immediate_offset insn) = off + 4))"

lemma ip_relative_or:
  "w AND X86_INSN_DECODE_FLAG_IP_RELATIVE = 0 \<Longrightarrow>
     ip_relative (insn\<lparr>insn_flags := f OR w\<rparr>) = ip_relative (insn\<lparr>insn_flags := f\<rparr>)"
  by (simp add: ip_relative_def bit.conj_disj_distrib2)

lemma dword_le_word:
  "length p = 4 \<Longrightarrow>
     ucast (p ! 0) OR push_bit 8 (ucast (p ! 1)) OR push_bit 16 (ucast (p ! 2)) OR push_bit 24 (ucast (p ! 3))
       = (le_word p :: u32)"
  by (auto simp: length_Suc_conv eval_nat_numeral push_bit_or ac_simps)

lemma read_dword_le:
  "read_dword rd =
     (if buffer_cursor rd + 4 \<le> length (rd_buffer rd)
      then Inr (le_word (take 4 (drop (buffer_cursor rd) (rd_buffer rd))),
                rd\<lparr>buffer_cursor := buffer_cursor rd + 4\<rparr>)
      else Inl OutOfBounds)"
  using dword_le_word[of "take 4 (drop (buffer_cursor rd) (rd_buffer rd))"]
  by (simp add: read_dword_def read_bytes_def)

lemma decode_displacement_flags:
  "rpost (\<lambda>(_, insn'). insn_flags insn' = insn_flags insn) (decode_displacement rd insn disp_bits)"
  by (simp add: decode_displacement_def Let_def rpost split_def) (auto intro!: rpost_any)

lemma small_offset: "n < 256 \<Longrightarrow> unat (ucast (of_nat n :: u32) :: u8) = n"
  by (simp add: unsigned_ucast_eq unat_of_nat take_bit_nat_eq_self)

lemma ucast_ucast_u32 [simp]: "ucast (ucast (w :: u32) :: u64) = w"
  by (rule bit_word_eqI) (simp add: bit_simps)

lemma decode_displacement_32:
  assumes "length (rd_buffer rd) \<le> 255" and "modrm_mode (insn_modrm insn) = 0" "modrm_rm (insn_modrm insn) = 5"
    "mem_base (operands_1 insn) = RIP" "immediate_offset insn = 0"
  shows "rpost (\<lambda>(rd', insn'). disp_field (rd_buffer rd) insn' (buffer_cursor rd')) (decode_displacement rd insn 32)"
  using assms
  by (simp add: decode_displacement_def x86_insn_decode_number_def read_dword_le disp_field_def
      reader_offset_def small_offset Let_def)

lemma decode_mem_32_64_ip:
  assumes "\<not> ip_relative insn"
  shows "rpost (\<lambda>(rd', insn', disp_bits). ip_relative insn' \<longrightarrow>
      rd' = rd \<and> disp_bits = 32 \<and> insn_modrm insn' = insn_modrm insn \<and> md = 0 \<and> rm AND 7 = 5
      \<and> mem_base (operands_1 insn') = RIP \<and> immediate_offset insn' = immediate_offset insn)
    (decode_mem_32_64 rd insn addr_bits md rm)"
proof -
  have base: "\<not> insn_flags insn AND X86_INSN_DECODE_FLAG_IP_RELATIVE \<noteq> 0"
    using assms by (simp add: ip_relative_def)
  then show ?thesis
    by (simp add: decode_mem_32_64_def decode_sib_def Let_def rpost split_def ip_relative_def
        modrm_disp_bits_def)
      (auto intro!: rpost_any simp: bit.conj_disj_distrib2 decode_flag_defs)
qed

lemma decode_mem_16_ip:
  "\<not> ip_relative insn \<Longrightarrow> \<not> ip_relative (fst (decode_mem_16 insn modrm d))"
  by (simp add: decode_mem_16_def Let_def split_def ip_relative_def bit.conj_disj_distrib2 decode_flag_defs)

lemma rm_low_bits: "(push_bit 3 (REX_B r) OR modrm_rm m) AND 7 = modrm_rm m"
proof -
  have "push_bit 3 (REX_B r) AND 7 = 0"
    using take_bit_push_bit[of 3 3 "REX_B r"] by (simp add: take_bit_eq_mask mask_eq_exp_minus_1)
  then show ?thesis
    by (simp add: bit.conj_disj_distrib2 modrm_rm_def)
qed

lemma decode_modrm_sib_ip:
  assumes "\<not> ip_relative insn" and "length (rd_buffer rd) \<le> 255" and "immediate_offset insn = 0"
  shows "rpost (\<lambda>(rd', insn'). ip_relative insn' \<longrightarrow> disp_field (rd_buffer rd) insn' (buffer_cursor rd'))
    (x86_insn_decode_modrm_sib rd insn conf)"
proof (cases "read_byte rd")
  case (Inl e)
  then show ?thesis by (simp add: x86_insn_decode_modrm_sib_def)
next
  case (Inr x)
  obtain modrm rd' where x: "x = (modrm, rd')" by force
  have buf: "rd_buffer rd' = rd_buffer rd"
    using Inr x by (simp add: read_byte_Inr)
  let ?reg = "push_bit 3 (REX_R (insn_rex insn)) OR modrm_reg modrm"
  let ?i = "insn\<lparr>insn_modrm := modrm, operands_0 := (operands_0 insn)\<lparr>op_reg := ?reg\<rparr>,
     insn_flags := insn_flags insn OR X86_INSN_DECODE_FLAG_IS_ADDRESS\<rparr>"
  have i: "\<not> ip_relative ?i"
    using assms(1) by (simp add: ip_relative_def bit.conj_disj_distrib2 decode_flag_defs)
  have reg: "\<not> ip_relative (insn\<lparr>insn_modrm := modrm, operands_0 := a, operands_1 := b\<rparr>)" for a b
    using assms(1) by (simp add: ip_relative_def)
  have disp: "rpost (\<lambda>(rd'', i'). ip_relative i' \<longrightarrow> disp_field (rd_buffer rd) i' (buffer_cursor rd''))
      (decode_displacement rd1 i1 d)"
    if "ip_relative i1 \<longrightarrow> rd1 = rd' \<and> d = 32 \<and> insn_modrm i1 = modrm
          \<and> modrm_mode modrm = 0 \<and> modrm_rm modrm = 5 \<and> mem_base (operands_1 i1) = RIP
          \<and> immediate_offset i1 = 0" for rd1 i1 d
  proof (cases "ip_relative i1")
    case True
    then show ?thesis
      using that decode_displacement_32[of rd' i1] assms(2) buf
      by (auto elim!: rpost_weaken)
  next
    case False
    then show ?thesis
      using decode_displacement_flags[of i1 rd1 d] by (auto simp: ip_relative_def elim!: rpost_weaken)
  qed
  show ?thesis
    using assms(1,3) Inr x decode_mem_32_64_ip[OF i] decode_mem_16_ip[OF i]
    by (auto simp: x86_insn_decode_modrm_sib_def Let_def rpost split_def rm_low_bits reg
        intro!: rpost_any[where m = "effective_address_bits _ _"] disp[unfolded split_def]
        rpost_weaken[OF decode_mem_32_64_ip[OF i]])
qed

lemma decode_immediate_frame:
  "rpost (\<lambda>(_, insn'). insn_flags insn' = insn_flags insn \<and> operands_1 insn' = operands_1 insn
      \<and> insn_modrm insn' = insn_modrm insn \<and> displacement_offset insn' = displacement_offset insn)
    (x86_insn_decode_immediate rd insn conf)"
  by (simp add: x86_insn_decode_immediate_def Let_def rpost split_def) (auto intro!: rpost_any)

lemma decode_immediate_offset:
  "rpost (\<lambda>(rd', insn'). rd' = rd \<and> immediate_offset insn' = immediate_offset insn
      \<or> immediate_offset insn' = ucast (reader_offset rd)) (x86_insn_decode_immediate rd insn conf)"
  by (simp add: x86_insn_decode_immediate_def Let_def rpost split_def) (auto intro!: rpost_any)

text \<open>
  The reader never passes the end of its buffer when a step succeeds.
\<close>

definition inside :: "nat \<Rightarrow> x86_insn_reader_t \<Rightarrow> bool" where
  "inside n rd = (buffer_cursor rd \<le> length (rd_buffer rd) \<and> length (rd_buffer rd) = n)"

lemma inside_number:
  "inside n rd \<Longrightarrow> rpost (\<lambda>(_, rd'). inside n rd') (x86_insn_decode_number rd b)"
  by (simp add: x86_insn_decode_number_def read_byte_def read_word_def read_dword_def read_qword_def
      read_bytes_def rpost inside_def)

lemma inside_immediate:
  "inside n rd \<Longrightarrow> rpost (\<lambda>(rd', _). inside n rd') (x86_insn_decode_immediate rd insn conf)"
  using inside_number[of n rd]
  by (auto simp: x86_insn_decode_immediate_def Let_def rpost split_def elim!: rpost_weaken
      intro!: rpost_any[where m = "x86_insn_imm_bits _ _"])

lemma decode_operands_ip:
  assumes "\<not> ip_relative insn" and "length (rd_buffer rd) \<le> 255" and "immediate_offset insn = 0"
  shows "rpost (\<lambda>(rd', insn'). ip_relative insn' \<longrightarrow> disp_field (rd_buffer rd) insn' (buffer_cursor rd'))
    (decode_operands rd insn conf)"
proof -
  have imm: "rpost (\<lambda>(rd'', i'). ip_relative i' \<longrightarrow> disp_field (rd_buffer rd) i' (buffer_cursor rd''))
      (if x86_insn_has_immediate (insn_spec i1) then x86_insn_decode_immediate rd1 i1 conf else Inr (rd1, i1))"
    if "ip_relative i1 \<longrightarrow> disp_field (rd_buffer rd) i1 (buffer_cursor rd1)"
      "rd_buffer rd1 = rd_buffer rd" "immediate_offset i1 = 0" for rd1 i1
  proof (cases "x86_insn_decode_immediate rd1 i1 conf")
    case (Inr r)
    obtain rd2 i2 where r: "r = (rd2, i2)" by force
    have "inside (length (rd_buffer rd)) rd1" if "disp_field (rd_buffer rd) i1 (buffer_cursor rd1)"
      using that \<open>rd_buffer rd1 = rd_buffer rd\<close> by (simp add: disp_field_def Let_def inside_def)
    moreover have "buffer_cursor rd1 \<le> buffer_cursor rd2" if "x86_insn_has_immediate (insn_spec i1)"
      using reads_immediate(1)[OF that, of rd1 conf] by (simp add: Inr r)
    moreover have "unat (ucast (reader_offset rd1) :: u8) = buffer_cursor rd1"
      if "disp_field (rd_buffer rd) i1 (buffer_cursor rd1)"
      using that assms(2) by (simp add: disp_field_def Let_def reader_offset_def small_offset)
    ultimately show ?thesis
      using that rpostD[OF decode_immediate_frame Inr] rpostD[OF decode_immediate_offset Inr]
        rpostD[OF inside_immediate Inr, of "length (rd_buffer rd)"]
      by (auto simp: Inr r ip_relative_def disp_field_def Let_def inside_def)
  qed (use that in simp)
  have keep: "rpost (\<lambda>(rd', _). rd_buffer rd' = rd_buffer rd) (x86_insn_decode_modrm_sib rd insn conf)"
    using reads_modrm_sib[of rd insn conf] by (cases "x86_insn_decode_modrm_sib rd insn conf") auto
  have "rpost (\<lambda>(rd', insn'). (ip_relative insn' \<longrightarrow> disp_field (rd_buffer rd) insn' (buffer_cursor rd'))
      \<and> rd_buffer rd' = rd_buffer rd \<and> immediate_offset insn' = 0) (x86_insn_decode_modrm_sib rd insn conf)"
    using keep decode_modrm_sib_ip[OF assms, of conf] decode_modrm_sib_frame[of insn rd conf] assms(3)
    unfolding same_opcode_def
    by (cases "x86_insn_decode_modrm_sib rd insn conf") auto
  then show ?thesis
    using assms(1,3) imm
    by (auto simp: decode_operands_def rpost elim!: rpost_weaken simp del: rpost_if)
qed

lemma decode_prefix_ip:
  "\<not> ip_relative insn \<Longrightarrow>
     rpost (\<lambda>(_, rd', insn'). \<not> ip_relative insn' \<and> rd_buffer rd' = rd_buffer rd
         \<and> immediate_offset insn' = immediate_offset insn)
       (x86_insn_decode_prefix rd insn conf prefix)"
  by (simp add: decode_prefix_eq Let_def ip_relative_def bit.conj_disj_distrib2 decode_flag_defs)

lemma decode_opcode_ip:
  "\<not> ip_relative insn \<Longrightarrow>
     rpost (\<lambda>(rd', insn'). \<not> ip_relative insn' \<and> rd_buffer rd' = rd_buffer rd
         \<and> immediate_offset insn' = immediate_offset insn)
       (x86_insn_decode_opcode rd insn conf)"
proof -
  assume "\<not> ip_relative insn"
  then have "rpost (\<lambda>(_, insn'). \<not> ip_relative insn' \<and> immediate_offset insn' = immediate_offset insn)
      (x86_insn_decode_opcode rd insn conf)"
    by (simp add: x86_insn_decode_opcode_def Let_def rpost split_def ip_relative_def)
      (auto intro!: rpost_any)
  then show ?thesis
    using reads_opcode[of rd insn conf] by (cases "x86_insn_decode_opcode rd insn conf") auto
qed

lemma decoded_ip_field:
  assumes "length code = 15"
    and "x86_insn_decode x86_insn_decode_zero code conf = Inr insn" and "ip_relative insn"
  shows "disp_field (code @ replicate 5 0xcc) insn (unat (insn_length insn))"
proof -
  have z: "\<not> ip_relative x86_insn_decode_zero"
    by (simp add: ip_relative_def x86_insn_decode_zero_def)
  have len: "length (rd_buffer (init_reader code)) = 20"
    using assms(1) by simp
  have buf: "rd_buffer (init_reader code) = code @ replicate 5 0xcc"
    using assms(1) by (simp add: init_reader_def)
  have upd: "ip_relative (i\<lparr>insn_prefix := p\<rparr>) = ip_relative i" for i p
    by (simp add: ip_relative_def)
  obtain p rd1 i1 rd2 i2 rd3 i3
    where steps: "x86_insn_decode_prefix (init_reader code) x86_insn_decode_zero conf 0 = Inr (p, rd1, i1)"
      "x86_insn_decode_opcode rd1 (i1\<lparr>insn_prefix := p\<rparr>) conf = Inr (rd2, i2)"
      "decode_operands rd2 i2 conf = Inr (rd3, i3)" "insn = i3\<lparr>insn_length := reader_offset rd3\<rparr>"
    using assms(2) by (auto simp: x86_insn_decode_def sbind_eq_Inr)
  have 1: "\<not> ip_relative i1" "rd_buffer rd1 = rd_buffer (init_reader code)" "immediate_offset i1 = 0"
    using rpostD[OF decode_prefix_ip[OF z] steps(1)] by (auto simp: x86_insn_decode_zero_def)
  have 2: "\<not> ip_relative i2" "rd_buffer rd2 = rd_buffer (init_reader code)" "immediate_offset i2 = 0"
    using rpostD[OF decode_opcode_ip steps(2)] 1 by (auto simp: upd)
  have "disp_field (code @ replicate 5 0xcc) i3 (buffer_cursor rd3)"
    using rpostD[OF decode_operands_ip[OF 2(1) _ 2(3)] steps(3)] assms(3) steps(4) 2 len buf
    by (simp add: ip_relative_def)
  moreover from this have "unat (reader_offset rd3) = buffer_cursor rd3"
    using assms(1) by (simp add: disp_field_def Let_def reader_offset_def unat_of_nat)
  ultimately show ?thesis
    by (simp add: steps(4) disp_field_def Let_def)
qed

text \<open>
  C9.  When the decoder flags an instruction as RIP-relative, its four displacement bytes lie
  inside the reported length at the reported offset, the ModR/M byte is mode 0 with r/m 5, the
  base register it stores is RIP, the displacement it stores is the little-endian value of those
  four bytes, and the displacement is followed by the immediate, or by the end of the instruction
  where there is none.
\<close>

theorem decode_ip_relative_field:
  assumes "length code = 15"
    and "x86_insn_decode x86_insn_decode_zero code conf = Inr insn" and "ip_relative insn"
  shows "disp_field (code @ replicate 5 0xcc) insn (unat (insn_length insn))"
  using assms by (rule decoded_ip_field)

text \<open>The instruction \<^verbatim>\<open>mov rax, [rip + 0x10]\<close>, followed by NOPs.\<close>

definition mov_rip_code :: "u8 list" where
  "mov_rip_code = [0x48, 0x8b, 0x05, 0x10, 0, 0, 0] @ replicate 8 0x90"

lemma mov_rip_decoded:
  "\<exists>insn. x86_insn_decode x86_insn_decode_zero mov_rip_code \<lparr>mode = 64\<rparr> = Inr insn \<and> ip_relative insn
     \<and> insn_length insn = 7 \<and> displacement_offset insn = 3 \<and> mem_disp (operands_1 insn) = 0x10
     \<and> primary_opcode insn = 0x8b"
proof -
  have "case x86_insn_decode x86_insn_decode_zero mov_rip_code \<lparr>mode = 64\<rparr> of
     Inl _ \<Rightarrow> False | Inr insn \<Rightarrow> ip_relative insn \<and> insn_length insn = 7
       \<and> displacement_offset insn = 3 \<and> mem_disp (operands_1 insn) = 0x10 \<and> primary_opcode insn = 0x8b"
    by code_simp
  then show ?thesis by (auto split: sum.splits)
qed

theorem decode_ip_relative_field_witness:
  "\<exists>insn. x86_insn_decode x86_insn_decode_zero mov_rip_code \<lparr>mode = 64\<rparr> = Inr insn
     \<and> disp_field (mov_rip_code @ replicate 5 0xcc) insn (unat (insn_length insn))"
proof -
  have "length mov_rip_code = 15"
    by (simp add: mov_rip_code_def)
  with mov_rip_decoded decode_ip_relative_field show ?thesis by blast
qed

lemma legacy_run_mov_rip: "length mov_rip_code = 15" "legacy_run (init_reader mov_rip_code) = []"
  by (simp_all add: mov_rip_code_def legacy_run_def init_reader_def legacy_prefix_def)

theorem decode_in_bounds_witness:
  "x86_insn_decode x86_insn_decode_zero mov_rip_code \<lparr>mode = 64\<rparr> \<noteq> Inl OutOfBounds"
  using decode_in_bounds[of mov_rip_code] by (simp add: legacy_run_mov_rip)

theorem decode_length_bounds_witness:
  "\<exists>insn. x86_insn_decode x86_insn_decode_zero mov_rip_code \<lparr>mode = 64\<rparr> = Inr insn
     \<and> 1 \<le> unat (insn_length insn) \<and> unat (insn_length insn) \<le> 13"
  using mov_rip_decoded decode_length_bounds[OF legacy_run_mov_rip(1), of x86_insn_decode_zero]
  by (fastforce simp: legacy_run_mov_rip)

section \<open>Where the decoder departs from the architecture\<close>


end
