(* ===== verification/Code_Builder.thy ===== *)
theory Code_Builder
  imports Mem_Range
begin

text \<open>
  What the relocators and the trampoline generators call of the rest of the engine, as a record
  of functions on the engine's state \<open>'s\<close>: the memory they read code from, the near-memory
  allocator, \<^verbatim>\<open>DobbyCodePatch\<close> and the executable-block allocator; and
  \<^verbatim>\<open>AssemblerCodeBuilder::FinalizeFromTurboAssembler\<close> of
  \<^verbatim>\<open>source/MemoryAllocator/AssemblerCodeBuilder.h\<close>, which puts assembled code in place.
\<close>

record 's engine =
  eng_mem :: "'s \<Rightarrow> 64 mem"
  eng_near :: "'s \<Rightarrow> u32 \<Rightarrow> u64 \<Rightarrow> u64 \<Rightarrow> MemRange \<times> 's"
  eng_patch :: "'s \<Rightarrow> u64 \<Rightarrow> u8 list \<Rightarrow> int \<times> 's"
  eng_exec_alloc :: "'s \<Rightarrow> u64 \<Rightarrow> MemRange \<times> 's"
  eng_exec_free :: "'s \<Rightarrow> MemRange \<Rightarrow> 's"

text \<open>
  \<^verbatim>\<open>AssemblerCodeBuilder::FinalizeFromTurboAssembler\<close>: the code goes to the fixed
  address, or to a fresh executable block where there is none.
\<close>

definition FinalizeFromTurboAssembler :: "('s, 'z) engine_scheme \<Rightarrow> u64 \<Rightarrow> u8 list \<Rightarrow> 's \<Rightarrow> MemRange \<times> 's" where
  "FinalizeFromTurboAssembler eng fixed_addr code env =
     (if fixed_addr = 0
      then let (block, env) = eng_exec_alloc eng env (of_nat (length code))
           in if range_addr block = 0 then (MemRange_empty, env)
              else (MemRange_new (range_addr block) (of_nat (length code)), snd (eng_patch eng env (range_addr block) code))
      else (MemRange_new fixed_addr (of_nat (length code)), snd (eng_patch eng env fixed_addr code)))"

end
