(* ===== verification/X86_Relocation.thy ===== *)
theory X86_Relocation
  imports X86_Decode_Proofs Code_Builder
begin

text \<open>
  Relocation of x86 code, the 64-bit build of
  \<^verbatim>\<open>source/InstructionRelocation/x86/InstructionRelocationX86Shared.cc\<close>,
  \<^verbatim>\<open>source/InstructionRelocation/x64/InstructionRelocationX64.cc\<close> and
  \<^verbatim>\<open>JmpNearIndirect\<close> of \<^verbatim>\<open>source/core/codegen/codegen-x64.h\<close>.  The code buffer is
  the list of bytes emitted (\<open>Code_Mem_Buffer\<close> shows the C++ buffer implements it).  What the
  relocator calls of the rest of the engine is the record \<open>engine\<close> of \<open>Code_Builder\<close>.
\<close>

record 's reloc_state =
  rl_code :: "u8 list"
  rl_env :: 's

definition emit_code :: "u8 list \<Rightarrow> 's reloc_state \<Rightarrow> 's reloc_state" where
  "emit_code bs st = st\<lparr>rl_code := rl_code st @ bs\<rparr>"

section \<open>One instruction\<close>

definition codegen_x64_jmp_absolute_addr :: "u64 \<Rightarrow> u8 list" where
  "codegen_x64_jmp_absolute_addr target = [0xFF, 0x25] @ le_bytes 4 (0 :: u32) @ le_bytes 8 target"

text \<open>Sign extension of the immediate, \<^verbatim>\<open>int8_t offset\<close> and \<^verbatim>\<open>int32_t offset\<close>.\<close>

definition offset8 :: "u64 \<Rightarrow> u64" where
  "offset8 imm = scast (ucast imm :: u8)"

definition offset32 :: "u64 \<Rightarrow> u64" where
  "offset32 imm = scast (ucast imm :: u32)"

definition relocate_jcc :: "x86_insn_decode_t \<Rightarrow> u64 \<Rightarrow> u8 list" where
  "relocate_jcc insn curr_orig_ip =
     (let orig_dst_ip = curr_orig_ip + offset8 (insn_immediate insn)
      in [primary_opcode insn, 2] @ [0xEB, 6 + 8] @ codegen_x64_jmp_absolute_addr orig_dst_ip)"

definition relocate_jmp_rel8 :: "x86_insn_decode_t \<Rightarrow> u64 \<Rightarrow> u8 list" where
  "relocate_jmp_rel8 insn curr_orig_ip =
     codegen_x64_jmp_absolute_addr (curr_orig_ip + offset8 (insn_immediate insn))"

definition relocate_rel32 :: "x86_insn_decode_t \<Rightarrow> u64 \<Rightarrow> u8 list" where
  "relocate_rel32 insn curr_orig_ip =
     (let orig_dst_ip = curr_orig_ip + offset32 (insn_immediate insn)
      in if primary_opcode insn = 0xE8
         then [0xFF] @ [0x15] @ le_bytes 4 (2 :: u32) @ [0xEB, 0x08] @ le_bytes 8 orig_dst_ip
         else [0xFF] @ [0x25] @ le_bytes 4 (0 :: u32) @ le_bytes 8 orig_dst_ip)"

text \<open>The instruction sequence of a RIP-relative instruction, moved next to its operand.\<close>

definition rip_insn_seq ::
  "64 mem \<Rightarrow> u64 \<Rightarrow> x86_insn_decode_t \<Rightarrow> u64 \<Rightarrow> u64 \<Rightarrow> u64 \<Rightarrow> u8 list" where
  "rip_insn_seq m cursor insn orig_dst_ip rip_insn_seq_addr relo_next_ip =
     (let rip_insn_req_ip = rip_insn_seq_addr + ucast (insn_length insn);
          new_disp = (ucast (orig_dst_ip - rip_insn_req_ip) :: u32)
      in mem_read m cursor (unat (displacement_offset insn))
         @ le_bytes 4 new_disp
         @ (if immediate_offset insn \<noteq> 0
            then mem_read m (cursor + ucast (immediate_offset insn))
                   (unat (insn_length insn - ucast (immediate_offset insn)))
            else [])
         @ codegen_x64_jmp_absolute_addr relo_next_ip)"

definition relocate_rip ::
  "'s engine \<Rightarrow> x86_insn_decode_t \<Rightarrow> u64 \<Rightarrow> u64 \<Rightarrow> u64 \<Rightarrow> 's reloc_state \<Rightarrow> 's reloc_state" where
  "relocate_rip eng insn curr_orig_ip curr_relo_ip cursor st =
     (let orig_disp = scast (mem_disp (operands_1 insn));
          orig_dst_ip = curr_orig_ip + orig_disp;
          jmp_near_range = 0x80000000;
          (blk, env) = eng_near eng (rl_env st) (insn_length insn + 6 + 8) orig_dst_ip jmp_near_range;
          rip_insn_seq_addr = range_addr blk;
          code = [0xFF, 0x25] @ le_bytes 4 (0 :: u32) @ le_bytes 8 rip_insn_seq_addr;
          relo_next_ip = curr_relo_ip + of_nat (length code);
          seq = rip_insn_seq (eng_mem eng env) cursor insn orig_dst_ip rip_insn_seq_addr relo_next_ip
      in emit_code code (st\<lparr>rl_env := snd (eng_patch eng env rip_insn_seq_addr seq)\<rparr>))"

definition GenRelocateSingleX86Insn ::
  "'s engine \<Rightarrow> u64 \<Rightarrow> u64 \<Rightarrow> u64 \<Rightarrow> int \<Rightarrow> 's reloc_state \<Rightarrow>
     (x86_insn_decode_t \<times> 's reloc_state) result" where
  "GenRelocateSingleX86Insn eng curr_orig_ip curr_relo_ip cursor md st =
     (let code_at = mem_read (eng_mem eng (rl_env st)) cursor
      in sbind (x86_insn_decode x86_insn_decode_zero (code_at 15) \<lparr>mode = md\<rparr>) (\<lambda>insn.
           let curr_orig_ip = curr_orig_ip + ucast (insn_length insn);
               opcode = primary_opcode insn
           in if opcode \<ge> 0x70 \<and> opcode \<le> 0x7F
              then Inr (insn, emit_code (relocate_jcc insn curr_orig_ip) st)
              else if md = 64 \<and> insn_flags insn AND X86_INSN_DECODE_FLAG_IP_RELATIVE \<noteq> 0
                      \<and> mem_base (operands_1 insn) = RIP
              then Inr (insn, relocate_rip eng insn curr_orig_ip curr_relo_ip cursor st)
              else if opcode = 0xEB
              then Inr (insn, emit_code (relocate_jmp_rel8 insn curr_orig_ip) st)
              else if opcode = 0xE8 \<or> opcode = 0xE9
              then (if immediate_offset insn = 1
                    then Inr (insn, emit_code (relocate_rel32 insn curr_orig_ip) st)
                    else Inl AssertFailed)
              else if opcode \<ge> 0xE0 \<and> opcode \<le> 0xE2 then Inl Unimplemented
              else if opcode = 0xE3 then Inl Unimplemented
              else Inr (insn, emit_code (code_at (unat (insn_length insn))) st)))"

section \<open>A run of instructions\<close>

lemma GenRelocateSingle_decoded:
  assumes "GenRelocateSingleX86Insn eng oip rip cur md st = Inr (insn, st')"
  shows "x86_insn_decode x86_insn_decode_zero (mem_read (eng_mem eng (rl_env st)) cur 15) \<lparr>mode = md\<rparr> = Inr insn"
  using assms by (auto simp: GenRelocateSingleX86Insn_def Let_def sbind_eq_Inr split: if_splits)

lemma decoded_progress:
  assumes "GenRelocateSingleX86Insn eng oip rip cur md st = Inr (insn, st')"
  shows "0 < unat (insn_length insn)" and "unat (insn_length insn) \<le> 33"
  using decoded_length[OF _ GenRelocateSingle_decoded[OF assms]] by simp_all

text \<open>
  The loop of \<^verbatim>\<open>GenRelocateCodeFixed\<close>; \<open>consumed\<close> is
  \<^verbatim>\<open>buffer_cursor - buffer\<close>.
\<close>

function relocate_loop ::
  "'s engine \<Rightarrow> u64 \<Rightarrow> u64 \<Rightarrow> int \<Rightarrow> nat \<Rightarrow> u64 \<Rightarrow> u64 \<Rightarrow> 's reloc_state \<Rightarrow>
     (u64 \<times> u64 \<times> 's reloc_state) result" where
  "relocate_loop eng buffer relocated_addr predefined_relocate_size consumed curr_orig_ip curr_relo_ip st =
     (if int consumed < predefined_relocate_size
      then sbind (GenRelocateSingleX86Insn eng curr_orig_ip curr_relo_ip (buffer + of_nat consumed) 64 st)
             (\<lambda>(insn, st).
                relocate_loop eng buffer relocated_addr predefined_relocate_size
                  (consumed + unat (insn_length insn)) (curr_orig_ip + ucast (insn_length insn))
                  (relocated_addr + of_nat (length (rl_code st))) st)
      else Inr (curr_orig_ip, curr_relo_ip, st))"
  by pat_completeness auto
termination
  by (relation "measure (\<lambda>(_, _, _, n, c, _). nat n - c)")
    (auto simp: zless_nat_eq_int_zless intro!: diff_less_mono2 dest: decoded_progress)

declare relocate_loop.simps [simp del]

text \<open>\<^verbatim>\<open>CodeGen::JmpNearIndirect\<close>, at the address the code buffer will be placed at.\<close>

definition JmpNearIndirect :: "u64 \<Rightarrow> u8 list \<Rightarrow> u64 \<Rightarrow> u8 list" where
  "JmpNearIndirect fixed_addr code forward_stub_addr =
     (let currIP = of_nat (length code) + fixed_addr + 6;
          offset = (ucast (forward_stub_addr - currIP) :: u32)
      in [0xff, 0x25] @ le_bytes 4 offset)"

definition GenRelocateCodeFixed ::
  "'s engine \<Rightarrow> u64 \<Rightarrow> MemRange \<Rightarrow> MemRange \<Rightarrow> bool \<Rightarrow> 's \<Rightarrow>
     (int \<times> MemRange \<times> MemRange \<times> 's) result" where
  "GenRelocateCodeFixed eng buffer origin relocated branch env =
     (let predefined_relocate_size = sint (ucast (rsize origin) :: u32)
      in sbind (relocate_loop eng buffer (range_addr relocated) predefined_relocate_size 0
                  (range_addr origin) (range_addr relocated) \<lparr>rl_code = [], rl_env = env\<rparr>)
           (\<lambda>(curr_orig_ip, curr_relo_ip, st).
             let st = (if branch
                       then emit_code (JmpNearIndirect (range_addr relocated) (rl_code st) (curr_relo_ip + 6)
                                       @ le_bytes 8 curr_orig_ip) st
                       else st);
                 origin = range_reset origin (range_addr origin) (curr_orig_ip - range_addr origin);
                 relo_len = length (rl_code st)
             in if relo_len > unat (rsize relocated) then Inr (-1, origin, relocated, rl_env st)
                else let (relocated, env) = FinalizeFromTurboAssembler eng (range_addr relocated) (rl_code st) (rl_env st)
                     in Inr (0, origin, relocated, env)))"

text \<open>
  \<^verbatim>\<open>GenRelocateCodeX86Shared\<close>: \<^verbatim>\<open>goto x86_try_again\<close> is the recursive call, and
  \<open>None\<close> a loop that never ends.
\<close>

partial_function (option) x86_try_again ::
  "'s engine \<Rightarrow> u64 \<Rightarrow> bool \<Rightarrow> int \<Rightarrow> MemRange \<Rightarrow> MemRange \<Rightarrow> 's \<Rightarrow>
     (MemRange \<times> MemRange \<times> 's) result option" where
  "x86_try_again eng buffer branch expected_relocated_mem_size origin relocated env =
     (let (alloc_failed, relocated, env) =
            (if range_addr relocated = 0
             then let (blk, env) = eng_exec_alloc eng env (word_of_int expected_relocated_mem_size)
                  in if range_addr blk = 0 then (True, relocated, env)
                     else (False, range_reset relocated (range_addr blk) (word_of_int expected_relocated_mem_size), env)
             else (False, relocated, env))
      in if alloc_failed then Some (Inr (origin, relocated, env))
         else case GenRelocateCodeFixed eng buffer origin relocated branch env of
                Inl e \<Rightarrow> Some (Inl e)
              | Inr (ret, origin, relocated, env) \<Rightarrow>
                  if ret \<noteq> 0
                  then let env = (if range_addr relocated \<noteq> 0 \<and> rsize relocated \<noteq> 0
                                  then eng_exec_free eng env relocated else env)
                       in x86_try_again eng buffer branch (expected_relocated_mem_size + 16) origin
                            (range_reset relocated 0 0) env
                  else Some (Inr (origin, relocated, env)))"

definition GenRelocateCodeX86Shared ::
  "'s engine \<Rightarrow> u64 \<Rightarrow> MemRange \<Rightarrow> MemRange \<Rightarrow> bool \<Rightarrow> 's \<Rightarrow>
     (MemRange \<times> MemRange \<times> 's) result option" where
  "GenRelocateCodeX86Shared eng buffer origin relocated branch env =
     x86_try_again eng buffer branch 32 origin relocated env"

definition GenRelocateCodeAndBranch ::
  "'s engine \<Rightarrow> u64 \<Rightarrow> MemRange \<Rightarrow> MemRange \<Rightarrow> 's \<Rightarrow> (MemRange \<times> MemRange \<times> 's) result option" where
  "GenRelocateCodeAndBranch eng buffer origin relocated env =
     GenRelocateCodeX86Shared eng buffer origin relocated True env"

end
