(* ===== verification/X86_Relocation_Proofs.thy ===== *)
theory X86_Relocation_Proofs
  imports X86_Relocation
begin

text \<open>
  Correctness of the x86 relocator against a reference semantics of the near branches of
  64-bit mode: the relocated code of a branch, placed at its new address, goes where the
  original went.
\<close>

section \<open>Reference semantics of near branches\<close>

text \<open>
  The next instruction pointer and, for a call, the return address it pushes, of the branch at
  \<open>ip\<close>; \<open>cond\<close> gives the truth of a condition code.  From the instruction set manual, for
  \<^verbatim>\<open>jmp rel8\<close>, \<^verbatim>\<open>jmp rel32\<close>, \<^verbatim>\<open>call rel32\<close>, \<^verbatim>\<open>jcc rel8\<close> and the RIP-relative
  indirect \<^verbatim>\<open>jmp\<close> and \<^verbatim>\<open>call\<close>.
\<close>

definition x86_branch :: "(u8 \<Rightarrow> bool) \<Rightarrow> 64 mem \<Rightarrow> u64 \<Rightarrow> (u64 \<times> u64 option) option" where
  "x86_branch cond m ip =
     (let op = m ip; rel8 = scast (m (ip + 1)); rel32 = scast (le_word (mem_read m (ip + 1) 4) :: u32);
          disp = scast (le_word (mem_read m (ip + 2) 4) :: u32)
      in if op = 0xEB then Some (ip + 2 + rel8, None)
         else if op = 0xE9 then Some (ip + 5 + rel32, None)
         else if op = 0xE8 then Some (ip + 5 + rel32, Some (ip + 5))
         else if 0x70 \<le> op \<and> op \<le> 0x7F
         then Some (if cond (op AND 0xF) then ip + 2 + rel8 else ip + 2, None)
         else if op = 0xFF \<and> m (ip + 1) = 0x25
         then Some (le_word (mem_read m (ip + 6 + disp) 8), None)
         else if op = 0xFF \<and> m (ip + 1) = 0x15
         then Some (le_word (mem_read m (ip + 6 + disp) 8), Some (ip + 6))
         else None)"

section \<open>Decoding of branches\<close>

definition branch_spec :: "char \<Rightarrow> x86_insn_spec_t \<Rightarrow> bool" where
  "branch_spec t s \<longleftrightarrow>
     \<not> x86_insn_has_modrm_byte s \<and> x86_insn_has_immediate s \<and> x86_insn_immediate_type s = Inr t
     \<and> X86_INSN_FLAG_GET_GROUP (spec_flags s) = 0"

lemma rel8_specs:
  "list_all (\<lambda>n. branch_spec (CHR ''b'') (x86_opcode_map_one_byte ! n)) (0xEB # [0x70..<0x80])"
  by code_simp

lemma rel32_specs: "list_all (\<lambda>n. branch_spec (CHR ''z'') (x86_opcode_map_one_byte ! n)) [0xE8, 0xE9]"
  by code_simp

definition rel8_opcode :: "u8 \<Rightarrow> bool" where
  "rel8_opcode c \<longleftrightarrow> c = 0xEB \<or> 0x70 \<le> c \<and> c \<le> 0x7F"

lemma rel8_spec:
  assumes "rel8_opcode c"
  shows "branch_spec (CHR ''b'') (x86_opcode_map_one_byte ! unat c)"
proof -
  have "unat c = 0xEB \<or> 0x70 \<le> unat c \<and> unat c < 0x80"
    using assms by (auto simp: rel8_opcode_def word_le_nat_alt)
  then have "unat c \<in> set (0xEB # [0x70..<0x80])"
    by (simp only: set_simps set_upt insert_iff atLeastLessThan_iff)
  then show ?thesis
    using rel8_specs unfolding list_all_iff by (rule bspec[rotated])
qed

lemma rel32_spec:
  "c = 0xE8 \<or> c = 0xE9 \<Longrightarrow> branch_spec (CHR ''z'') (x86_opcode_map_one_byte ! unat (c :: u8))"
  using rel32_specs by auto

lemma decode_no_prefix:
  assumes "length code = 15" and "legacy_prefix (code ! 0) = 0" and "drop_bit 4 (code ! 0) \<noteq> 4"
  shows "x86_insn_decode_prefix (init_reader code) insn conf 0 = Inr (0, init_reader code, insn)"
proof -
  have "legacy_run (init_reader code) = []"
    using assms(1,2) by (cases code) (auto simp: legacy_run_def init_reader_def)
  then show ?thesis
    using assms(1,3) by (simp add: decode_prefix_eq init_reader_def nth_append)
qed

lemma decode_branch_opcode:
  assumes "length code = 15" and "code ! 0 \<noteq> 0x0f"
    and "branch_spec t (x86_opcode_map_one_byte ! unat (code ! 0))"
  shows "x86_insn_decode_opcode (init_reader code) insn conf =
    Inr (\<lparr>rd_buffer = code @ replicate 5 0xcc, buffer_cursor = 1\<rparr>,
         insn\<lparr>primary_opcode := code ! 0, insn_spec := x86_opcode_map_one_byte ! unat (code ! 0)\<rparr>)"
  using assms
  by (simp add: x86_insn_decode_opcode_def read_byte_def read_bytes_def init_reader_def branch_spec_def
      group_number_defs nth_append)

lemma not_prefix_opcodes:
  "rel8_opcode c \<or> c = 0xE8 \<or> c = 0xE9 \<Longrightarrow>
     legacy_prefix c = 0 \<and> drop_bit 4 c \<noteq> 4 \<and> c \<noteq> 0x0f"
  by (auto simp: rel8_opcode_def legacy_prefix_def rex_range[symmetric] word_le_nat_alt split: if_splits)

lemmas branch_decode_simps =
  x86_insn_decode_def decode_no_prefix decode_branch_opcode decode_operands_def
  x86_insn_decode_immediate_def x86_insn_imm_bits_def branch_spec_def x86_insn_decode_number_def
  read_byte_def read_dword_le read_bytes_def reader_offset_def

lemma decode_rel8:
  assumes "length code = 15" and "rel8_opcode (code ! 0)"
  shows "\<exists>insn. x86_insn_decode x86_insn_decode_zero code \<lparr>mode = 64\<rparr> = Inr insn
    \<and> primary_opcode insn = code ! 0 \<and> insn_length insn = 2 \<and> insn_immediate insn = ucast (code ! 1)
    \<and> insn_flags insn = 0"
  using assms rel8_spec[OF assms(2)] not_prefix_opcodes[of "code ! 0"]
  by (simp add: branch_decode_simps nth_append x86_insn_decode_zero_def)

lemma decode_rel32:
  assumes "length code = 15" and "code ! 0 = 0xE8 \<or> code ! 0 = 0xE9"
  shows "\<exists>insn. x86_insn_decode x86_insn_decode_zero code \<lparr>mode = 64\<rparr> = Inr insn
    \<and> primary_opcode insn = code ! 0 \<and> insn_length insn = 5 \<and> immediate_offset insn = 1
    \<and> insn_immediate insn = ucast (le_word (take 4 (drop 1 code)) :: u32) \<and> insn_flags insn = 0"
  using assms rel32_spec[OF assms(2)] not_prefix_opcodes[of "code ! 0"]
  by (simp add: branch_decode_simps nth_append x86_insn_decode_zero_def effective_operand_bits_def
      insn_prefix_defs decode_flag_defs)

section \<open>Relocated branches\<close>

lemma offset8_ucast [simp]: "offset8 (ucast (b :: u8)) = scast b"
  by (simp add: offset8_def) (rule arg_cong[where f = scast], rule bit_word_eqI, simp add: bit_simps)

lemma offset32_ucast [simp]: "offset32 (ucast (w :: u32)) = scast w"
  by (simp add: offset32_def)

lemma length_jmp_absolute [simp]: "length (codegen_x64_jmp_absolute_addr t) = 14"
  by (simp add: codegen_x64_jmp_absolute_addr_def)

lemma length_JmpNearIndirect [simp]: "length (JmpNearIndirect a code t) = 6"
  by (simp add: JmpNearIndirect_def)

lemma jmp_absolute_goes:
  assumes "bytes_at m ip (codegen_x64_jmp_absolute_addr t)"
  shows "x86_branch cond m ip = Some (t, None)"
proof -
  let ?bs = "codegen_x64_jmp_absolute_addr t"
  have len: "length ?bs = 14"
    by (simp add: codegen_x64_jmp_absolute_addr_def)
  have "m ip = 0xFF" "m (ip + 1) = 0x25"
    using bytes_at_nth[OF assms, of 0] bytes_at_nth[OF assms, of 1] len
    by (simp_all add: codegen_x64_jmp_absolute_addr_def)
  moreover have "le_word (mem_read m (ip + 2) 4) = (0 :: u32)"
    using bytes_at_read[OF assms, of 2 4] len by (simp add: codegen_x64_jmp_absolute_addr_def)
  moreover have "le_word (mem_read m (ip + 6) 8) = t"
    using bytes_at_read[OF assms, of 6 8] len by (simp add: codegen_x64_jmp_absolute_addr_def)
  ultimately show ?thesis
    by (simp add: x86_branch_def)
qed

text \<open>The code at \<open>cur\<close> as the decoder sees it.\<close>

lemma code_window:
  "length (mem_read m cur 15) = 15" "mem_read m cur 15 ! 0 = m cur" "mem_read m cur 15 ! 1 = m (cur + 1)"
  "take 4 (drop 1 (mem_read m cur 15)) = mem_read m (cur + 1) 4"
  using nth_mem_read[of 0 15 m cur] nth_mem_read[of 1 15 m cur] mem_read_drop[of 1 4 15 m cur]
  by simp_all

text \<open>What the relocator emits for a branch at \<open>cur\<close>.\<close>

lemma relocate_branch8:
  assumes "rel8_opcode (eng_mem eng (rl_env st) cur)"
  shows "\<exists>insn. GenRelocateSingleX86Insn eng oip rip cur 64 st =
      Inr (insn, emit_code (if eng_mem eng (rl_env st) cur = 0xEB then relocate_jmp_rel8 insn (oip + 2)
                            else relocate_jcc insn (oip + 2)) st)
    \<and> insn_length insn = 2 \<and> primary_opcode insn = eng_mem eng (rl_env st) cur
    \<and> insn_immediate insn = ucast (eng_mem eng (rl_env st) (cur + 1))"
proof -
  obtain insn where "x86_insn_decode x86_insn_decode_zero (mem_read (eng_mem eng (rl_env st)) cur 15) \<lparr>mode = 64\<rparr> = Inr insn"
    "primary_opcode insn = eng_mem eng (rl_env st) cur" "insn_length insn = 2"
    "insn_immediate insn = ucast (eng_mem eng (rl_env st) (cur + 1))" "insn_flags insn = 0"
    using decode_rel8[of "mem_read (eng_mem eng (rl_env st)) cur 15"] assms unfolding code_window by auto
  then show ?thesis
    using assms by (auto simp: GenRelocateSingleX86Insn_def Let_def rel8_opcode_def)
qed

lemma relocate_branch32:
  assumes "eng_mem eng (rl_env st) cur = 0xE8 \<or> eng_mem eng (rl_env st) cur = 0xE9"
  shows "\<exists>insn. GenRelocateSingleX86Insn eng oip rip cur 64 st =
      Inr (insn, emit_code (relocate_rel32 insn (oip + 5)) st)
    \<and> insn_length insn = 5 \<and> primary_opcode insn = eng_mem eng (rl_env st) cur
    \<and> insn_immediate insn = ucast (le_word (mem_read (eng_mem eng (rl_env st)) (cur + 1) 4) :: u32)"
proof -
  obtain insn where "x86_insn_decode x86_insn_decode_zero (mem_read (eng_mem eng (rl_env st)) cur 15) \<lparr>mode = 64\<rparr> = Inr insn"
    "primary_opcode insn = eng_mem eng (rl_env st) cur" "insn_length insn = 5" "immediate_offset insn = 1"
    "insn_immediate insn = ucast (le_word (mem_read (eng_mem eng (rl_env st)) (cur + 1) 4) :: u32)" "insn_flags insn = 0"
    using decode_rel32[of "mem_read (eng_mem eng (rl_env st)) cur 15"] assms unfolding code_window by auto
  then show ?thesis
    using assms by (auto simp: GenRelocateSingleX86Insn_def Let_def)
qed

text \<open>The call sequence, and a short jump.\<close>

lemma call_sequence_goes:
  assumes "bytes_at m ip ([0xFF, 0x15] @ le_bytes 4 (2 :: u32) @ [0xEB, 0x08] @ le_bytes 8 t)"
  shows "x86_branch cond m ip = Some (t, Some (ip + 6))"
    and "x86_branch cond m (ip + 6) = Some (ip + 16, None)"
proof -
  let ?bs = "[0xFF, 0x15] @ le_bytes 4 (2 :: u32) @ [0xEB, 0x08] @ le_bytes 8 t"
  have b: "m (ip + of_nat i) = ?bs ! i" if "i < 16" for i
    using bytes_at_nth[OF assms, of i] that by simp
  have d: "le_word (mem_read m (ip + 2) 4) = (2 :: u32)"
    using bytes_at_read[OF assms, of 2 4] by simp
  have t: "le_word (mem_read m (ip + 8) 8) = t"
    using bytes_at_read[OF assms, of 8 8] by simp
  show "x86_branch cond m ip = Some (t, Some (ip + 6))"
    using b[of 0] b[of 1] d t by (simp add: x86_branch_def add.assoc)
  show "x86_branch cond m (ip + 6) = Some (ip + 16, None)"
    using b[of 6] b[of 7] by (simp add: x86_branch_def add.assoc nth_append nth_Cons')
qed

lemma relocate_rel32_eq:
  "relocate_rel32 insn ip =
     (if primary_opcode insn = 0xE8
      then [0xFF, 0x15] @ le_bytes 4 (2 :: u32) @ [0xEB, 0x08] @ le_bytes 8 (ip + offset32 (insn_immediate insn))
      else codegen_x64_jmp_absolute_addr (ip + offset32 (insn_immediate insn)))"
  by (simp add: relocate_rel32_def codegen_x64_jmp_absolute_addr_def)

lemma same_code:
  assumes "bytes_at m oip (mem_read m cur 5)"
  shows "m oip = m cur" "m (oip + 1) = m (cur + 1)" "mem_read m (oip + 1) 4 = mem_read m (cur + 1) 4"
  using bytes_at_nth[OF assms, of 0] bytes_at_nth[OF assms, of 1] nth_mem_read[of 0 5 m cur]
    nth_mem_read[of 1 5 m cur] bytes_at_read[OF assms, of 1 4] mem_read_drop[of 1 4 5 m cur]
  by simp_all

text \<open>
  C8.  A relocated \<^verbatim>\<open>jmp rel8\<close>, \<^verbatim>\<open>jmp rel32\<close> or \<^verbatim>\<open>call rel32\<close> goes to the
  original target: for the branch read from \<open>cur\<close> with origin address \<open>oip\<close>, the bytes the
  relocator appends, placed at \<open>rip\<close> in any memory, branch to the address the original
  branch goes to, and a call still pushes a return address at which execution continues behind
  the relocated code.
\<close>

theorem relocated_branch_target:
  assumes "eng_mem eng (rl_env st) cur \<in> {0xEB, 0xE9, 0xE8}"
    and "bytes_at (eng_mem eng (rl_env st)) oip (mem_read (eng_mem eng (rl_env st)) cur 5)"
    and "x86_branch cond (eng_mem eng (rl_env st)) oip = Some (target, ret)"
  shows "\<exists>insn code. GenRelocateSingleX86Insn eng oip rip cur 64 st = Inr (insn, emit_code code st)
    \<and> (\<forall>m'. bytes_at m' rip code \<longrightarrow>
         (case ret of
            None \<Rightarrow> x86_branch cond m' rip = Some (target, None)
          | Some _ \<Rightarrow> x86_branch cond m' rip = Some (target, Some (rip + 6))
                      \<and> x86_branch cond m' (rip + 6) = Some (rip + of_nat (length code), None)))"
proof -
  let ?m = "eng_mem eng (rl_env st)"
  note same = same_code[OF assms(2)]
  consider (rel8) "?m cur = 0xEB" | (rel32) "?m cur = 0xE8 \<or> ?m cur = 0xE9"
    using assms(1) by auto
  then show ?thesis
  proof cases
    case rel8
    then have "rel8_opcode (?m cur)"
      by (simp add: rel8_opcode_def)
    from relocate_branch8[OF this, of oip rip] obtain insn where insn:
      "GenRelocateSingleX86Insn eng oip rip cur 64 st = Inr (insn, emit_code (relocate_jmp_rel8 insn (oip + 2)) st)"
      "insn_immediate insn = ucast (?m (cur + 1))"
      using rel8 by auto
    have "ret = None" "target = oip + 2 + offset8 (insn_immediate insn)"
      using assms(3) rel8 same by (auto simp: x86_branch_def insn(2))
    then show ?thesis
      using insn(1) by (auto simp: relocate_jmp_rel8_def intro!: jmp_absolute_goes)
  next
    case rel32
    from relocate_branch32[OF this, of oip rip] obtain insn where insn:
      "GenRelocateSingleX86Insn eng oip rip cur 64 st = Inr (insn, emit_code (relocate_rel32 insn (oip + 5)) st)"
      "primary_opcode insn = ?m cur"
      "insn_immediate insn = ucast (le_word (mem_read ?m (cur + 1) 4) :: u32)"
      by auto
    have "target = oip + 5 + offset32 (insn_immediate insn)"
      and "ret = (if ?m cur = 0xE8 then Some (oip + 5) else None)"
      using assms(3) rel32 same by (auto simp: x86_branch_def insn(3))
    then show ?thesis
      using insn(2) call_sequence_goes[of _ rip target cond]
      by (intro exI[of _ insn] exI[of _ "relocate_rel32 insn (oip + 5)"] conjI)
        (auto simp: insn(1) relocate_rel32_eq intro!: jmp_absolute_goes)
  qed
qed

text \<open>
  C20.  A relocated \<^verbatim>\<open>jcc rel8\<close> keeps its meaning: if the condition holds, two jumps lead
  from its new address to the original target; if not, two jumps lead behind the relocated code.
\<close>

theorem relocated_jcc_target:
  assumes "0x70 \<le> eng_mem eng (rl_env st) cur" and "eng_mem eng (rl_env st) cur \<le> 0x7F"
  shows "\<exists>insn code. GenRelocateSingleX86Insn eng oip rip cur 64 st = Inr (insn, emit_code code st)
    \<and> (\<forall>m'. bytes_at m' rip code \<longrightarrow>
         (if cond (eng_mem eng (rl_env st) cur AND 0xF)
          then x86_branch cond m' rip = Some (rip + 4, None)
               \<and> x86_branch cond m' (rip + 4) = Some (oip + 2 + scast (eng_mem eng (rl_env st) (cur + 1)), None)
          else x86_branch cond m' rip = Some (rip + 2, None)
               \<and> x86_branch cond m' (rip + 2) = Some (rip + of_nat (length code), None)))"
proof -
  let ?m = "eng_mem eng (rl_env st)"
  let ?t = "oip + 2 + scast (?m (cur + 1))"
  let ?code = "[?m cur, 2, 0xEB, 14] @ codegen_x64_jmp_absolute_addr ?t"
  have r8: "rel8_opcode (?m cur)" and n: "?m cur \<noteq> 0xEB" "?m cur \<noteq> 0xE9" "?m cur \<noteq> 0xE8"
    using assms by (auto simp: rel8_opcode_def word_le_nat_alt)
  from relocate_branch8[OF r8, of oip rip] n obtain insn where
    "GenRelocateSingleX86Insn eng oip rip cur 64 st = Inr (insn, emit_code ?code st)"
    by (auto simp: relocate_jcc_def Let_def)
  moreover have "if cond (?m cur AND 0xF)
      then x86_branch cond m' rip = Some (rip + 4, None) \<and> x86_branch cond m' (rip + 4) = Some (?t, None)
      else x86_branch cond m' rip = Some (rip + 2, None)
        \<and> x86_branch cond m' (rip + 2) = Some (rip + of_nat (length ?code), None)"
    if m': "bytes_at m' rip ?code" for m'
  proof -
    have len: "length (codegen_x64_jmp_absolute_addr ?t) = 14"
      by (simp add: codegen_x64_jmp_absolute_addr_def)
    have b: "m' (rip + of_nat i) = ?code ! i" if "i < 4" for i
      using bytes_at_nth[OF m', of i] that by simp
    have "bytes_at m' (rip + 4) (codegen_x64_jmp_absolute_addr ?t)"
      using bytes_at_read[OF m', of 4 14] len by (simp add: bytes_at_def)
    then have "x86_branch cond m' (rip + 4) = Some (?t, None)"
      by (rule jmp_absolute_goes)
    moreover have "x86_branch cond m' rip = Some (if cond (?m cur AND 0xF) then rip + 4 else rip + 2, None)"
      using b[of 0] b[of 1] assms n by (simp add: x86_branch_def Let_def add.assoc)
    moreover have "x86_branch cond m' (rip + 2) = Some (rip + 18, None)"
      using b[of 2] b[of 3] by (simp add: x86_branch_def add.assoc nth_Cons')
    ultimately show ?thesis by (simp add: len)
  qed
  ultimately show ?thesis by blast
qed

section \<open>RIP-relative instructions\<close>

text \<open>The moved instruction: the original with another displacement.\<close>

definition moved_insn :: "64 mem \<Rightarrow> u64 \<Rightarrow> x86_insn_decode_t \<Rightarrow> u32 \<Rightarrow> u8 list" where
  "moved_insn m cur insn disp =
     (let off = unat (displacement_offset insn); n = unat (insn_length insn)
      in take off (mem_read m cur n) @ le_bytes 4 disp @ drop (off + 4) (mem_read m cur n))"

lemma rip_insn_seq_moved:
  assumes "disp_field buf insn (unat (insn_length insn))" and "unat (insn_length insn) \<le> 33"
  shows "rip_insn_seq m cur insn dst seq next =
      moved_insn m cur insn (ucast (dst - (seq + ucast (insn_length insn)))) @ codegen_x64_jmp_absolute_addr next"
    and "length (moved_insn m cur insn d) = unat (insn_length insn)"
proof -
  let ?off = "unat (displacement_offset insn)" and ?n = "unat (insn_length insn)"
  have off: "?off + 4 \<le> ?n"
    using assms(1) by (simp add: disp_field_def Let_def)
  have imm: "(if immediate_offset insn \<noteq> 0 then mem_read m (cur + ucast (immediate_offset insn))
       (unat (insn_length insn - ucast (immediate_offset insn))) else []) = drop (?off + 4) (mem_read m cur ?n)"
  proof (cases "immediate_offset insn = 0")
    case True
    then show ?thesis using assms(1) by (simp add: disp_field_def Let_def)
  next
    case False
    then have io: "unat (immediate_offset insn) = ?off + 4"
      using assms(1) by (simp add: disp_field_def Let_def)
    have "unat (ucast (immediate_offset insn) :: u32) = unat (immediate_offset insn)"
      using unat_less_exp[of "immediate_offset insn"] by (simp add: unsigned_ucast_eq take_bit_nat_eq_self)
    then have "unat (insn_length insn - ucast (immediate_offset insn)) = ?n - (?off + 4)"
      using off io by (simp add: unat_sub word_le_nat_alt)
    moreover have "(ucast (immediate_offset insn) :: u64) = of_nat (?off + 4)"
      by (simp only: io[symmetric]) simp
    ultimately show ?thesis
      using False mem_read_drop[of "?off + 4" "?n - (?off + 4)" ?n m cur] off by simp
  qed
  show "rip_insn_seq m cur insn dst seq next =
      moved_insn m cur insn (ucast (dst - (seq + ucast (insn_length insn)))) @ codegen_x64_jmp_absolute_addr next"
    using imm mem_read_drop[of 0 ?off ?n m cur] off
    by (simp add: rip_insn_seq_def moved_insn_def Let_def)
  show "length (moved_insn m cur insn d) = ?n"
    using off by (simp add: moved_insn_def Let_def)
qed

text \<open>
  C21.  A relocated RIP-relative instruction addresses the original operand.  The relocator
  emits a jump to the block \<open>blk\<close> of the near allocator and patches there the original
  instruction, of the same length and different in its displacement only, followed by a jump back
  behind the relocated code.  If the block is within the reach of a signed 32-bit displacement,
  the address the moved instruction computes is the one the original computed.
\<close>

theorem relocated_rip_operand:
  assumes "x86_insn_decode x86_insn_decode_zero (mem_read (eng_mem eng (rl_env st)) cur 15) \<lparr>mode = 64\<rparr> = Inr insn"
    and "ip_relative insn" and "\<not> (0x70 \<le> primary_opcode insn \<and> primary_opcode insn \<le> 0x7F)"
    and "dst = oip + ucast (insn_length insn) + scast (mem_disp (operands_1 insn))"
    and "eng_near eng (rl_env st) (insn_length insn + 14) dst 0x80000000 = (blk, env)"
    and "eng_mem eng env = eng_mem eng (rl_env st)"
    and "- (2 ^ 31) \<le> sint (dst - (rstart blk + ucast (insn_length insn)))"
    and "sint (dst - (rstart blk + ucast (insn_length insn))) < 2 ^ 31"
  shows "\<exists>disp. GenRelocateSingleX86Insn eng oip rip cur 64 st =
      Inr (insn, \<lparr>rl_code = rl_code st @ codegen_x64_jmp_absolute_addr (rstart blk),
                  rl_env = snd (eng_patch eng env (rstart blk)
                    (moved_insn (eng_mem eng (rl_env st)) cur insn disp @ codegen_x64_jmp_absolute_addr (rip + 14)))\<rparr>)
    \<and> length (moved_insn (eng_mem eng (rl_env st)) cur insn disp) = unat (insn_length insn)
    \<and> rstart blk + ucast (insn_length insn) + scast disp = dst"
proof -
  let ?disp = "ucast (dst - (rstart blk + ucast (insn_length insn))) :: u32"
  have field: "disp_field (mem_read (eng_mem eng (rl_env st)) cur 15 @ replicate 5 0xcc) insn (unat (insn_length insn))"
    using decoded_ip_field[OF _ assms(1,2)] by simp
  then have base: "mem_base (operands_1 insn) = RIP"
    by (simp add: disp_field_def Let_def)
  have len: "unat (insn_length insn) \<le> 33"
    using decoded_length[OF _ assms(1)] by simp
  have "GenRelocateSingleX86Insn eng oip rip cur 64 st =
      Inr (insn, relocate_rip eng insn (oip + ucast (insn_length insn)) rip cur st)"
    using assms(1-3) base by (auto simp add: GenRelocateSingleX86Insn_def Let_def ip_relative_def)
  moreover have "relocate_rip eng insn (oip + ucast (insn_length insn)) rip cur st =
      \<lparr>rl_code = rl_code st @ codegen_x64_jmp_absolute_addr (rstart blk),
       rl_env = snd (eng_patch eng env (rstart blk)
         (moved_insn (eng_mem eng (rl_env st)) cur insn ?disp @ codegen_x64_jmp_absolute_addr (rip + 14)))\<rparr>"
    using assms(4-6) rip_insn_seq_moved(1)[OF field len]
    by (simp add: relocate_rip_def Let_def emit_code_def add.assoc codegen_x64_jmp_absolute_addr_def)
  moreover have "scast ?disp = dst - (rstart blk + ucast (insn_length insn))"
    using assms(7,8) by (rule scast_ucast_fits)
  ultimately show ?thesis
    using rip_insn_seq_moved(2)[OF field len] by (intro exI[of _ ?disp]) simp
qed

section \<open>The relocation loop\<close>

text \<open>
  The invariant of the loop: the instruction pointer of the original has advanced by the bytes
  consumed, that of the relocated code by the bytes emitted.
\<close>

lemma relocate_loop_invariant:
  assumes "relocate_loop eng buffer base sz consumed oip rip st = Inr (oip', rip', st')"
    and "rip = base + of_nat (length (rl_code st))"
  shows "\<exists>n. oip' = oip + of_nat n \<and> rip' = base + of_nat (length (rl_code st'))
    \<and> sz \<le> int (consumed + n) \<and> (n = 0 \<or> int (consumed + n) < sz + 33)
    \<and> (int consumed < sz \<longrightarrow> 0 < n)"
  using assms
proof (induction eng buffer base sz consumed oip rip st rule: relocate_loop.induct)
  case (1 eng buffer base sz consumed oip rip st)
  show ?case
  proof (cases "int consumed < sz")
    case False
    with 1(2,3) show ?thesis
      by (intro exI[of _ 0]) (auto simp: relocate_loop.simps[of eng buffer base sz consumed])
  next
    case True
    then obtain insn st1 where step:
      "GenRelocateSingleX86Insn eng oip rip (buffer + of_nat consumed) 64 st = Inr (insn, st1)"
      "relocate_loop eng buffer base sz (consumed + unat (insn_length insn)) (oip + ucast (insn_length insn))
         (base + of_nat (length (rl_code st1))) st1 = Inr (oip', rip', st')"
      using 1(2) by (auto simp: relocate_loop.simps[of eng buffer base sz consumed] sbind_eq_Inr)
    let ?k = "unat (insn_length insn)"
    obtain n where n: "oip' = oip + ucast (insn_length insn) + of_nat n"
      "rip' = base + of_nat (length (rl_code st'))" "sz \<le> int (consumed + ?k + n)"
      "n = 0 \<or> int (consumed + ?k + n) < sz + 33" 
      using 1(1)[OF True step(1) refl step(2) refl] by auto
    have k: "0 < ?k" "?k \<le> 33"
      using decoded_progress[OF step(1)] by auto
    have "uint (insn_length insn) \<le> 33"
      using k(2) of_nat_le_iff[of ?k 33, where 'a = int] by (simp only: of_nat_unat of_nat_numeral)
    then show ?thesis
      using n k True by (intro exI[of _ "?k + n"]) (auto simp: algebra_simps)
  qed
qed

lemma fixed_loop:
  assumes "GenRelocateCodeFixed eng buffer origin relocated branch env = Inr (ret, origin', relocated', env')"
    and "unat (rsize origin) < 2 ^ 31"
  obtains n st where "relocate_loop eng buffer (rstart relocated) (int (unat (rsize origin))) 0 (rstart origin)
        (rstart relocated) \<lparr>rl_code = [], rl_env = env\<rparr>
      = Inr (rstart origin + of_nat n, rstart relocated + of_nat (length (rl_code st)), st)"
    and "unat (rsize origin) \<le> n" and "n < unat (rsize origin) + 33"
proof -
  have "sint (ucast (rsize origin) :: u32) = int (unat (rsize origin))"
    using assms(2) by (rule sint_ucast_small)
  then obtain oip rip st where loop: "relocate_loop eng buffer (rstart relocated) (int (unat (rsize origin))) 0
      (rstart origin) (rstart relocated) \<lparr>rl_code = [], rl_env = env\<rparr> = Inr (oip, rip, st)"
    using assms(1) by (auto simp: GenRelocateCodeFixed_def Let_def sbind_eq_Inr)
  obtain n where n: "oip = rstart origin + of_nat n" "rip = rstart relocated + of_nat (length (rl_code st))"
    "int (unat (rsize origin)) \<le> int (0 + n)" "n = 0 \<or> int (0 + n) < int (unat (rsize origin)) + 33"
    using relocate_loop_invariant[OF loop] by auto
  show ?thesis
    by (rule that[OF loop[unfolded n(1,2)]]) (use n(3,4) in linarith)+
qed

text \<open>
  C22.  A successful relocation covers at least the bytes asked for and at most one instruction
  more; the origin is reset to exactly the bytes relocated; the code fits the block it was
  given; and it ends with a jump to the first original instruction that was not relocated.
\<close>

theorem relocated_code_returns_to_origin:
  assumes "GenRelocateCodeFixed eng buffer origin relocated True env = Inr (0, origin', relocated', env')"
    and "unat (rsize origin) < 2 ^ 31" and "rstart relocated \<noteq> 0"
  shows "unat (rsize origin) \<le> unat (rsize origin') \<and> unat (rsize origin') < unat (rsize origin) + 33
    \<and> rstart origin' = rstart origin
    \<and> (\<exists>body env1. let code = body @ codegen_x64_jmp_absolute_addr (rstart origin + rsize origin')
         in relocated' = MemRange_new (rstart relocated) (of_nat (length code))
            \<and> length code \<le> unat (rsize relocated) \<and> env' = snd (eng_patch eng env1 (rstart relocated) code)
            \<and> (\<forall>m' cond. bytes_at m' (rstart relocated) code \<longrightarrow>
                 x86_branch cond m' (rstart relocated + of_nat (length body)) = Some (range_end origin', None)))"
proof -
  obtain n st where loop: "relocate_loop eng buffer (rstart relocated) (int (unat (rsize origin))) 0 (rstart origin)
        (rstart relocated) \<lparr>rl_code = [], rl_env = env\<rparr>
      = Inr (rstart origin + of_nat n, rstart relocated + of_nat (length (rl_code st)), st)"
    and n: "unat (rsize origin) \<le> n" "n < unat (rsize origin) + 33"
    using fixed_loop[OF assms(1,2)] by blast
  have un: "unat (of_nat n :: u64) = n"
    using n(2) assms(2) by (simp add: unat_of_nat)
  let ?code = "rl_code st @ codegen_x64_jmp_absolute_addr (rstart origin + of_nat n)"
  have jmp: "JmpNearIndirect (rstart relocated) (rl_code st) (rstart relocated + of_nat (length (rl_code st)) + 6)
      @ le_bytes 8 (rstart origin + of_nat n) = codegen_x64_jmp_absolute_addr (rstart origin + of_nat n)"
    by (simp add: JmpNearIndirect_def codegen_x64_jmp_absolute_addr_def add.commute)
  have res: "origin' = MemRange_new (rstart origin) (of_nat n)" "length ?code \<le> unat (rsize relocated)"
    "relocated' = MemRange_new (rstart relocated) (of_nat (length ?code))"
    "env' = snd (eng_patch eng (rl_env st) (rstart relocated) ?code)"
    using assms(1,3) loop jmp sint_ucast_small[OF assms(2)]
    by (auto simp: GenRelocateCodeFixed_def Let_def emit_code_def FinalizeFromTurboAssembler_def split: if_splits)
  have "x86_branch cond m' (rstart relocated + of_nat (length (rl_code st))) = Some (range_end origin', None)"
    if "bytes_at m' (rstart relocated) ?code" for m' cond
    using bytes_at_read[OF that, of "length (rl_code st)" 14] res(1)
    by (auto intro!: jmp_absolute_goes simp: bytes_at_def codegen_x64_jmp_absolute_addr_def)
  then show ?thesis
    using n un res by (auto simp: Let_def)
qed

section \<open>Retries\<close>



section \<open>Witnesses\<close>

text \<open>An engine whose state is the memory: fixed near and executable blocks, patches that write.\<close>

definition flat_engine :: "64 mem engine" where
  "flat_engine =
     \<lparr>eng_mem = (\<lambda>m. m), eng_near = (\<lambda>m n pos rng. (MemRange_new 0x5000 (ucast n), m)),
      eng_patch = (\<lambda>m a bs. (0, mem_write m a bs)),
      eng_exec_alloc = (\<lambda>m n. (if n \<le> 4096 then MemRange_new 0x6000 n else MemRange_empty, m)),
      eng_exec_free = (\<lambda>m b. m)\<rparr>"

definition code_memory :: "u8 list \<Rightarrow> 64 mem" where
  "code_memory bs = (\<lambda>a. if 0x1000 \<le> a \<and> unat (a - 0x1000) < length bs then bs ! unat (a - 0x1000) else 0x90)"

definition flat_state :: "u8 list \<Rightarrow> 64 mem reloc_state" where
  "flat_state bs = \<lparr>rl_code = [], rl_env = code_memory bs\<rparr>"

lemma flat_simps [simp]:
  "eng_mem flat_engine m = m" "rl_env (flat_state bs) = code_memory bs"
  "eng_near flat_engine m n pos rng = (MemRange_new 0x5000 (ucast n), m)"
  "eng_exec_alloc flat_engine m k = (if k \<le> 4096 then MemRange_new 0x6000 k else MemRange_empty, m)"
  by (simp_all add: flat_engine_def flat_state_def)

theorem relocated_branch_target_witness:
  "\<exists>insn code. GenRelocateSingleX86Insn flat_engine 0x1000 0x2000 0x1000 64 (flat_state [0xE8, 0x10, 0, 0, 0])
      = Inr (insn, emit_code code (flat_state [0xE8, 0x10, 0, 0, 0]))
    \<and> (\<forall>m'. bytes_at m' 0x2000 code \<longrightarrow>
         x86_branch (\<lambda>_. True) m' 0x2000 = Some (0x1015, Some 0x2006)
         \<and> x86_branch (\<lambda>_. True) m' 0x2006 = Some (0x2000 + of_nat (length code), None))"
proof -
  have "x86_branch (\<lambda>_. True) (code_memory [0xE8, 0x10, 0, 0, 0]) 0x1000 = Some (0x1015, Some 0x1005)"
    by code_simp
  then show ?thesis
    using relocated_branch_target[of flat_engine "flat_state [0xE8, 0x10, 0, 0, 0]" "0x1000" "0x1000" "\<lambda>_. True"
        "0x1015" "Some 0x1005" "0x2000"]
    by (simp add: bytes_at_def code_memory_def)
qed

theorem relocated_jcc_target_witness:
  "\<exists>insn code. GenRelocateSingleX86Insn flat_engine 0x1000 0x2000 0x1000 64 (flat_state [0x74, 0x10])
      = Inr (insn, emit_code code (flat_state [0x74, 0x10]))
    \<and> (\<forall>m'. bytes_at m' 0x2000 code \<longrightarrow>
         x86_branch (\<lambda>c. c = 4) m' 0x2000 = Some (0x2004, None)
         \<and> x86_branch (\<lambda>c. c = 4) m' 0x2004 = Some (0x1012, None))"
  using relocated_jcc_target[of flat_engine "flat_state [0x74, 0x10]" "0x1000" "0x1000" "0x2000" "\<lambda>c. c = 4"]
  by (simp add: code_memory_def)


theorem relocated_rip_operand_witness:
  "\<exists>insn disp. GenRelocateSingleX86Insn flat_engine 0x1000 0x2000 0x1000 64 (flat_state mov_rip_code) =
      Inr (insn, \<lparr>rl_code = codegen_x64_jmp_absolute_addr 0x5000,
                  rl_env = mem_write (code_memory mov_rip_code) 0x5000
                    (moved_insn (code_memory mov_rip_code) 0x1000 insn disp @ codegen_x64_jmp_absolute_addr 0x200e)\<rparr>)
    \<and> length (moved_insn (code_memory mov_rip_code) 0x1000 insn disp) = 7
    \<and> 0x5007 + scast disp = (0x1017 :: u64)"
proof -
  have "mem_read (code_memory mov_rip_code) 0x1000 15 = mov_rip_code"
    by code_simp
  then obtain insn where insn: "x86_insn_decode x86_insn_decode_zero (mem_read (code_memory mov_rip_code) 0x1000 15) \<lparr>mode = 64\<rparr> = Inr insn"
    "ip_relative insn" "insn_length insn = 7" "mem_disp (operands_1 insn) = 0x10" "primary_opcode insn = 0x8b"
    using mov_rip_decoded by auto
  then have "\<exists>disp. GenRelocateSingleX86Insn flat_engine 0x1000 0x2000 0x1000 64 (flat_state mov_rip_code) =
      Inr (insn, \<lparr>rl_code = rl_code (flat_state mov_rip_code) @ codegen_x64_jmp_absolute_addr (rstart (MemRange_new 0x5000 21)),
                  rl_env = snd (eng_patch flat_engine (code_memory mov_rip_code) (rstart (MemRange_new 0x5000 21))
                    (moved_insn (eng_mem flat_engine (rl_env (flat_state mov_rip_code))) 0x1000 insn disp
                      @ codegen_x64_jmp_absolute_addr (0x2000 + 14)))\<rparr>)
    \<and> length (moved_insn (eng_mem flat_engine (rl_env (flat_state mov_rip_code))) 0x1000 insn disp) = unat (insn_length insn)
    \<and> rstart (MemRange_new 0x5000 21) + ucast (insn_length insn) + scast disp = 0x1017"
    by (intro relocated_rip_operand) simp_all
  moreover have "rl_code (flat_state mov_rip_code) = []"
    "\<And>m a bs. snd (eng_patch flat_engine m a bs) = mem_write m a bs"
    by (simp_all add: flat_state_def flat_engine_def fun_eq_iff)
  ultimately show ?thesis
    using insn(3) by (intro exI[of _ insn]) simp
qed

lemma fixed_example:
  "\<exists>o' r' e. GenRelocateCodeFixed flat_engine 0x1000 (MemRange_new 0x1000 5) (MemRange_new 0x6000 64) True
     (code_memory [0x74, 0x10, 0xE8, 0x10, 0, 0, 0]) = Inr (0, o', r', e)"
proof -
  have "case GenRelocateCodeFixed flat_engine 0x1000 (MemRange_new 0x1000 5) (MemRange_new 0x6000 64) True
     (code_memory [0x74, 0x10, 0xE8, 0x10, 0, 0, 0]) of Inl _ \<Rightarrow> False | Inr (ret, _) \<Rightarrow> ret = 0"
    by code_simp
  then show ?thesis by (auto split: sum.splits)
qed

theorem relocated_code_returns_to_origin_witness:
  "\<exists>o' r' e. GenRelocateCodeFixed flat_engine 0x1000 (MemRange_new 0x1000 5) (MemRange_new 0x6000 64) True
     (code_memory [0x74, 0x10, 0xE8, 0x10, 0, 0, 0]) = Inr (0, o', r', e)
     \<and> 5 \<le> unat (rsize o') \<and> unat (rsize o') < 38 \<and> rstart o' = 0x1000"
proof -
  obtain o' r' e where f: "GenRelocateCodeFixed flat_engine 0x1000 (MemRange_new 0x1000 5) (MemRange_new 0x6000 64) True
     (code_memory [0x74, 0x10, 0xE8, 0x10, 0, 0, 0]) = Inr (0, o', r', e)"
    using fixed_example by blast
  show ?thesis
    using relocated_code_returns_to_origin[OF f] f by auto
qed

section \<open>What the relocator does not relocate\<close>


end
