(* ===== verification/Arm64_Constants.thy ===== *)
theory Arm64_Constants
  imports Dobby_Prelude
begin

text \<open>
  The A64 encodings of \<^verbatim>\<open>source/core/arch/arm64/constants-arm64.h\<close> and
  \<^verbatim>\<open>source/InstructionRelocation/arm64/inst_constants.h\<close>, and the registers of
  \<^verbatim>\<open>source/core/arch/arm64/registers-arm64.h\<close>.  An enumeration of the source is a datatype
  with a function giving the value of each enumerator; the \<^verbatim>\<open>..._OP_LIST\<close> macros are the
  functions giving the fields of their rows.  Names that mean something else in HOL carry the
  prefix \<^verbatim>\<open>OP_\<close>.
\<close>

section \<open>Operand kinds\<close>

datatype Shift = NO_SHIFT | LSL | LSR | ASR | ROR | MSL

fun Shift_value :: "Shift \<Rightarrow> u32" where
  "Shift_value NO_SHIFT = - 1"
| "Shift_value LSL = 0x0"
| "Shift_value LSR = 0x1"
| "Shift_value ASR = 0x2"
| "Shift_value ROR = 0x3"
| "Shift_value MSL = 0x4"

datatype Extend = NO_EXTEND | UXTB | UXTH | UXTW | UXTX | SXTB | SXTH | SXTW | SXTX

datatype AddrMode = Offset | PreIndex | PostIndex

definition kRdShift :: nat where "kRdShift = 0"

definition kRnShift :: nat where "kRnShift = 5"

definition kRmShift :: nat where "kRmShift = 16"

definition kRtShift :: nat where "kRtShift = 0"

definition kRt2Shift :: nat where "kRt2Shift = 10"

section \<open>Exceptions and branches\<close>

datatype ExceptionOp = HLT | BRK | SVC | HVC | SMC | DCPS1 | DCPS2 | DCPS3

definition ExceptionFixed :: u32 where "ExceptionFixed = 0xD4000000"

definition ExceptionFMask :: u32 where "ExceptionFMask = 0xFF000000"

fun ExceptionOp_value :: "ExceptionOp \<Rightarrow> u32" where
  "ExceptionOp_value HLT = ExceptionFixed OR 0x00400000"
| "ExceptionOp_value BRK = ExceptionFixed OR 0x00200000"
| "ExceptionOp_value SVC = ExceptionFixed OR 0x00000001"
| "ExceptionOp_value HVC = ExceptionFixed OR 0x00000002"
| "ExceptionOp_value SMC = ExceptionFixed OR 0x00000003"
| "ExceptionOp_value DCPS1 = ExceptionFixed OR 0x00A00001"
| "ExceptionOp_value DCPS2 = ExceptionFixed OR 0x00A00002"
| "ExceptionOp_value DCPS3 = ExceptionFixed OR 0x00A00003"

datatype UnconditionalBranchOp = OP_B | OP_BL

definition UnconditionalBranchFixed :: u32 where "UnconditionalBranchFixed = 0x14000000"

definition UnconditionalBranchFixedMask :: u32 where "UnconditionalBranchFixedMask = 0x7C000000"

definition UnconditionalBranchMask :: u32 where "UnconditionalBranchMask = 0xFC000000"

fun UnconditionalBranchOp_value :: "UnconditionalBranchOp \<Rightarrow> u32" where
  "UnconditionalBranchOp_value OP_B = UnconditionalBranchFixed OR 0x00000000"
| "UnconditionalBranchOp_value OP_BL = UnconditionalBranchFixed OR 0x80000000"

datatype UnconditionalBranchToRegisterOp = OP_BR | OP_BLR | OP_RET

definition UnconditionalBranchToRegisterFixed :: u32 where
  "UnconditionalBranchToRegisterFixed = 0xD6000000"

definition UnconditionalBranchToRegisterFixedMask :: u32 where
  "UnconditionalBranchToRegisterFixedMask = 0xFE000000"

definition UnconditionalBranchToRegisterMask :: u32 where
  "UnconditionalBranchToRegisterMask = 0xFFFFFC1F"

fun UnconditionalBranchToRegisterOp_value :: "UnconditionalBranchToRegisterOp \<Rightarrow> u32" where
  "UnconditionalBranchToRegisterOp_value OP_BR = UnconditionalBranchToRegisterFixed OR 0x001F0000"
| "UnconditionalBranchToRegisterOp_value OP_BLR = UnconditionalBranchToRegisterFixed OR 0x003F0000"
| "UnconditionalBranchToRegisterOp_value OP_RET = UnconditionalBranchToRegisterFixed OR 0x005F0000"

definition CompareBranchFixed :: u32 where "CompareBranchFixed = 0x34000000"

definition CompareBranchFixedMask :: u32 where "CompareBranchFixedMask = 0x7E000000"

definition ConditionalBranchFixed :: u32 where "ConditionalBranchFixed = 0x54000000"

definition ConditionalBranchFixedMask :: u32 where "ConditionalBranchFixedMask = 0xFE000000"

definition TestBranchFixed :: u32 where "TestBranchFixed = 0x36000000"

definition TestBranchFixedMask :: u32 where "TestBranchFixedMask = 0x7E000000"

section \<open>Loads and stores\<close>

datatype LoadRegLiteralOp =
  LDR_w_literal | LDR_x_literal | LDRSW_literal | PRFM_literal | LDR_s_literal | LDR_d_literal | LDR_q_literal

definition LoadRegLiteralFixed :: u32 where "LoadRegLiteralFixed = 0x18000000"

definition LoadRegLiteralFixedMask :: u32 where "LoadRegLiteralFixedMask = 0x3B000000"

definition LoadRegLiteralMask :: u32 where "LoadRegLiteralMask = 0xFF000000"

definition LoadRegLiteralSub :: "u32 \<Rightarrow> u32 \<Rightarrow> u32" where
  "LoadRegLiteralSub opc v = LoadRegLiteralFixed OR LeftShift opc 2 30 OR LeftShift v 1 26"

fun LoadRegLiteralOp_value :: "LoadRegLiteralOp \<Rightarrow> u32" where
  "LoadRegLiteralOp_value LDR_w_literal = LoadRegLiteralSub 0b00 0"
| "LoadRegLiteralOp_value LDR_x_literal = LoadRegLiteralSub 0b01 0"
| "LoadRegLiteralOp_value LDRSW_literal = LoadRegLiteralSub 0b10 0"
| "LoadRegLiteralOp_value PRFM_literal = LoadRegLiteralSub 0b11 0"
| "LoadRegLiteralOp_value LDR_s_literal = LoadRegLiteralSub 0b00 1"
| "LoadRegLiteralOp_value LDR_d_literal = LoadRegLiteralSub 0b01 1"
| "LoadRegLiteralOp_value LDR_q_literal = LoadRegLiteralSub 0b10 1"

datatype LoadStoreOp =
  STRB_w | LDRB_w | LDRSB_x | LDRSB_w | STR_b | LDR_b | STR_q | LDR_q
| STRH_w | LDRH_w | LDRSH_x | LDRSH_w | STR_h | LDR_h
| STR_w | LDR_w | LDRSW | STR_s | LDR_s
| STR_x | LDR_x | PRFM | STR_d | LDR_d

fun LOAD_STORE_OP_LIST :: "LoadStoreOp \<Rightarrow> u32 \<times> u32 \<times> u32" where
  "LOAD_STORE_OP_LIST STRB_w = (0b00, 0, 0b00)"
| "LOAD_STORE_OP_LIST LDRB_w = (0b00, 0, 0b01)"
| "LOAD_STORE_OP_LIST LDRSB_x = (0b00, 0, 0b10)"
| "LOAD_STORE_OP_LIST LDRSB_w = (0b00, 0, 0b11)"
| "LOAD_STORE_OP_LIST STR_b = (0b00, 1, 0b00)"
| "LOAD_STORE_OP_LIST LDR_b = (0b00, 1, 0b01)"
| "LOAD_STORE_OP_LIST STR_q = (0b00, 1, 0b10)"
| "LOAD_STORE_OP_LIST LDR_q = (0b00, 1, 0b11)"
| "LOAD_STORE_OP_LIST STRH_w = (0b01, 0, 0b00)"
| "LOAD_STORE_OP_LIST LDRH_w = (0b01, 0, 0b01)"
| "LOAD_STORE_OP_LIST LDRSH_x = (0b01, 0, 0b10)"
| "LOAD_STORE_OP_LIST LDRSH_w = (0b01, 0, 0b11)"
| "LOAD_STORE_OP_LIST STR_h = (0b01, 1, 0b00)"
| "LOAD_STORE_OP_LIST LDR_h = (0b01, 1, 0b01)"
| "LOAD_STORE_OP_LIST STR_w = (0b10, 0, 0b00)"
| "LOAD_STORE_OP_LIST LDR_w = (0b10, 0, 0b01)"
| "LOAD_STORE_OP_LIST LDRSW = (0b10, 0, 0b10)"
| "LOAD_STORE_OP_LIST STR_s = (0b10, 1, 0b00)"
| "LOAD_STORE_OP_LIST LDR_s = (0b10, 1, 0b01)"
| "LOAD_STORE_OP_LIST STR_x = (0b11, 0, 0b00)"
| "LOAD_STORE_OP_LIST LDR_x = (0b11, 0, 0b01)"
| "LOAD_STORE_OP_LIST PRFM = (0b11, 0, 0b10)"
| "LOAD_STORE_OP_LIST STR_d = (0b11, 1, 0b00)"
| "LOAD_STORE_OP_LIST LDR_d = (0b11, 1, 0b01)"

definition LoadStoreOpSub :: "u32 \<times> u32 \<times> u32 \<Rightarrow> u32" where
  "LoadStoreOpSub f = (case f of (sz, v, opc) \<Rightarrow> LeftShift sz 2 30 OR LeftShift v 1 26 OR LeftShift opc 2 22)"

definition LoadStoreOp_value :: "LoadStoreOp \<Rightarrow> u32" where
  "LoadStoreOp_value op = LoadStoreOpSub (LOAD_STORE_OP_LIST op)"

definition LoadStoreRegisterOffsetFixed :: u32 where "LoadStoreRegisterOffsetFixed = 0x38200800"

definition LoadStoreRegisterOffsetFixedMask :: u32 where "LoadStoreRegisterOffsetFixedMask = 0x3B200C00"

definition LoadStoreRegisterOffsetOp_value :: "LoadStoreOp \<Rightarrow> u32" where
  "LoadStoreRegisterOffsetOp_value op = LoadStoreRegisterOffsetFixed OR LoadStoreOpSub (LOAD_STORE_OP_LIST op)"

definition LoadStoreUnscaledOffsetFixed :: u32 where "LoadStoreUnscaledOffsetFixed = 0x38000000"

definition LoadStoreUnscaledOffsetFixedMask :: u32 where "LoadStoreUnscaledOffsetFixedMask = 0x3B200C00"

definition LoadStoreUnscaledOffsetOp_value :: "LoadStoreOp \<Rightarrow> u32" where
  "LoadStoreUnscaledOffsetOp_value op = LoadStoreUnscaledOffsetFixed OR LoadStoreOpSub (LOAD_STORE_OP_LIST op)"

definition LoadStoreUnsignedOffsetFixed :: u32 where "LoadStoreUnsignedOffsetFixed = 0x39000000"

definition LoadStoreUnsignedOffsetFixedMask :: u32 where "LoadStoreUnsignedOffsetFixedMask = 0x3B000000"

definition LoadStoreUnsignedOffset_value :: "LoadStoreOp \<Rightarrow> u32" where
  "LoadStoreUnsignedOffset_value op = LoadStoreUnsignedOffsetFixed OR LoadStoreOpSub (LOAD_STORE_OP_LIST op)"

datatype LoadStorePairOp =
  STP_w | LDP_w | STP_s | LDP_s | LDPSW | STP_d | LDP_d | STP_x | LDP_x | STP_q | LDP_q

fun LOAD_STORE_PAIR_OP_LIST :: "LoadStorePairOp \<Rightarrow> u32 \<times> u32 \<times> u32" where
  "LOAD_STORE_PAIR_OP_LIST STP_w = (0b00, 0, 0)"
| "LOAD_STORE_PAIR_OP_LIST LDP_w = (0b00, 0, 1)"
| "LOAD_STORE_PAIR_OP_LIST STP_s = (0b00, 1, 0)"
| "LOAD_STORE_PAIR_OP_LIST LDP_s = (0b00, 1, 1)"
| "LOAD_STORE_PAIR_OP_LIST LDPSW = (0b01, 0, 1)"
| "LOAD_STORE_PAIR_OP_LIST STP_d = (0b01, 1, 0)"
| "LOAD_STORE_PAIR_OP_LIST LDP_d = (0b01, 1, 1)"
| "LOAD_STORE_PAIR_OP_LIST STP_x = (0b10, 0, 0)"
| "LOAD_STORE_PAIR_OP_LIST LDP_x = (0b10, 0, 1)"
| "LOAD_STORE_PAIR_OP_LIST STP_q = (0b10, 1, 0)"
| "LOAD_STORE_PAIR_OP_LIST LDP_q = (0b10, 1, 1)"

definition LoadStorePairOpSub :: "u32 \<times> u32 \<times> u32 \<Rightarrow> u32" where
  "LoadStorePairOpSub f = (case f of (opc, v, l) \<Rightarrow> LeftShift opc 2 30 OR LeftShift v 1 26 OR LeftShift l 1 22)"

definition LoadStorePairOp_value :: "LoadStorePairOp \<Rightarrow> u32" where
  "LoadStorePairOp_value op = LoadStorePairOpSub (LOAD_STORE_PAIR_OP_LIST op)"

definition LoadStorePairOffsetFixed :: u32 where "LoadStorePairOffsetFixed = 0x29000000"

definition LoadStorePairPostIndexFixed :: u32 where "LoadStorePairPostIndexFixed = 0x28800000"

definition LoadStorePairPreIndexFixed :: u32 where "LoadStorePairPreIndexFixed = 0x29800000"

definition LoadStorePairFixedMask :: u32 where "LoadStorePairFixedMask = 0x3B800000"

definition LoadStorePairOffsetOp_value :: "LoadStorePairOp \<Rightarrow> u32" where
  "LoadStorePairOffsetOp_value op = LoadStorePairOffsetFixed OR LoadStorePairOpSub (LOAD_STORE_PAIR_OP_LIST op)"

definition LoadStorePairPostIndexOp_value :: "LoadStorePairOp \<Rightarrow> u32" where
  "LoadStorePairPostIndexOp_value op = LoadStorePairPostIndexFixed OR LoadStorePairOpSub (LOAD_STORE_PAIR_OP_LIST op)"

definition LoadStorePairPreIndexOp_value :: "LoadStorePairOp \<Rightarrow> u32" where
  "LoadStorePairPreIndexOp_value op = LoadStorePairPreIndexFixed OR LoadStorePairOpSub (LOAD_STORE_PAIR_OP_LIST op)"

section \<open>Data processing\<close>

datatype MoveWideImmediateOp = OP_MOVN | OP_MOVZ | OP_MOVK

definition SixtyFourBits :: u32 where "SixtyFourBits = 0x80000000"

definition MoveWideImmediateFixed :: u32 where "MoveWideImmediateFixed = 0x12800000"

definition MoveWideImmediateFixedMask :: u32 where "MoveWideImmediateFixedMask = 0x1F800000"

fun MoveWideImmediateOp_value :: "MoveWideImmediateOp \<Rightarrow> u32" where
  "MoveWideImmediateOp_value OP_MOVN = 0x00000000"
| "MoveWideImmediateOp_value OP_MOVZ = 0x40000000"
| "MoveWideImmediateOp_value OP_MOVK = 0x60000000"

datatype AddSubOp = ADD_w | ADDS_w | SUB_w | SUBS_w | ADD_x | ADDS_x | SUB_x | SUBS_x

fun AddSubOp_fields :: "AddSubOp \<Rightarrow> u32 \<times> u32 \<times> u32" where
  "AddSubOp_fields ADD_w = (0, 0, 0)"
| "AddSubOp_fields ADDS_w = (0, 0, 1)"
| "AddSubOp_fields SUB_w = (0, 1, 0)"
| "AddSubOp_fields SUBS_w = (0, 1, 1)"
| "AddSubOp_fields ADD_x = (1, 0, 0)"
| "AddSubOp_fields ADDS_x = (1, 0, 1)"
| "AddSubOp_fields SUB_x = (1, 1, 0)"
| "AddSubOp_fields SUBS_x = (1, 1, 1)"

definition AddSubOpSub :: "u32 \<Rightarrow> u32 \<times> u32 \<times> u32 \<Rightarrow> u32" where
  "AddSubOpSub fixd f = (case f of (sf, op, s) \<Rightarrow> fixd OR LeftShift sf 1 31 OR LeftShift op 1 30 OR LeftShift s 1 29)"

definition AddSubImmediateFixed :: u32 where "AddSubImmediateFixed = 0x11000000"

definition AddSubImmediateFixedMask :: u32 where "AddSubImmediateFixedMask = 0x1F000000"

definition AddSubImmediateOp_value :: "AddSubOp \<Rightarrow> u32" where
  "AddSubImmediateOp_value op = AddSubOpSub AddSubImmediateFixed (AddSubOp_fields op)"

definition AddSubShiftedFixed :: u32 where "AddSubShiftedFixed = 0x0B000000"

definition AddSubShiftedFixedMask :: u32 where "AddSubShiftedFixedMask = 0x1F200000"

definition AddSubShiftedOp_value :: "AddSubOp \<Rightarrow> u32" where
  "AddSubShiftedOp_value op = AddSubOpSub AddSubShiftedFixed (AddSubOp_fields op)"

definition AddSubExtendedFixed :: u32 where "AddSubExtendedFixed = 0x0B200000"

definition AddSubExtendedFixedMask :: u32 where "AddSubExtendedFixedMask = 0x1F200000"

definition AddSubExtendedOp_value :: "AddSubOp \<Rightarrow> u32" where
  "AddSubExtendedOp_value op = AddSubOpSub AddSubExtendedFixed (AddSubOp_fields op)"

datatype LogicalOp = OP_AND | OP_BIC | OP_ORR | OP_ORN | OP_EOR | OP_EON | OP_ANDS | OP_BICS

definition LogicalOp_NOT :: u32 where "LogicalOp_NOT = 0x00200000"

fun LogicalOp_value :: "LogicalOp \<Rightarrow> u32" where
  "LogicalOp_value OP_AND = 0x00000000"
| "LogicalOp_value OP_BIC = 0x00000000 OR LogicalOp_NOT"
| "LogicalOp_value OP_ORR = 0x20000000"
| "LogicalOp_value OP_ORN = 0x20000000 OR LogicalOp_NOT"
| "LogicalOp_value OP_EOR = 0x40000000"
| "LogicalOp_value OP_EON = 0x40000000 OR LogicalOp_NOT"
| "LogicalOp_value OP_ANDS = 0x60000000"
| "LogicalOp_value OP_BICS = 0x60000000 OR LogicalOp_NOT"

definition LogicalShiftedFixed :: u32 where "LogicalShiftedFixed = 0x0A000000"

datatype PCRelAddressingOp = OP_ADR | OP_ADRP

definition PCRelAddressingFixed :: u32 where "PCRelAddressingFixed = 0x10000000"

definition PCRelAddressingFixedMask :: u32 where "PCRelAddressingFixedMask = 0x1F000000"

definition PCRelAddressingMask :: u32 where "PCRelAddressingMask = 0x9F000000"

fun PCRelAddressingOp_value :: "PCRelAddressingOp \<Rightarrow> u32" where
  "PCRelAddressingOp_value OP_ADR = PCRelAddressingFixed OR 0x00000000"
| "PCRelAddressingOp_value OP_ADRP = PCRelAddressingFixed OR 0x80000000"

section \<open>Registers\<close>

datatype RegisterType =
  kRegister_32 | kRegister_64 | kRegister | kVRegister | kSIMD_FP_Register_8 | kSIMD_FP_Register_16
| kSIMD_FP_Register_32 | kSIMD_FP_Register_64 | kSIMD_FP_Register_128 | kInvalid

fun RegisterType_value :: "RegisterType \<Rightarrow> nat" where
  "RegisterType_value kRegister_32 = 0"
| "RegisterType_value kRegister_64 = 1"
| "RegisterType_value kRegister = 2"
| "RegisterType_value kVRegister = 3"
| "RegisterType_value kSIMD_FP_Register_8 = 4"
| "RegisterType_value kSIMD_FP_Register_16 = 5"
| "RegisterType_value kSIMD_FP_Register_32 = 6"
| "RegisterType_value kSIMD_FP_Register_64 = 7"
| "RegisterType_value kSIMD_FP_Register_128 = 8"
| "RegisterType_value kInvalid = 9"

record CPURegister =
  reg_id :: u32
  reg_size :: nat
  reg_type :: RegisterType

definition reg_X :: "u32 \<Rightarrow> CPURegister" where
  "reg_X code = \<lparr>reg_id = code, reg_size = 64, reg_type = kRegister_64\<rparr>"

definition reg_W :: "u32 \<Rightarrow> CPURegister" where
  "reg_W code = \<lparr>reg_id = code, reg_size = 32, reg_type = kRegister_32\<rparr>"

definition reg_Q :: "u32 \<Rightarrow> CPURegister" where
  "reg_Q code = \<lparr>reg_id = code, reg_size = 128, reg_type = kSIMD_FP_Register_128\<rparr>"

definition InvalidRegister :: CPURegister where
  "InvalidRegister = \<lparr>reg_id = 0, reg_size = 0, reg_type = kInvalid\<rparr>"

definition reg_Is :: "CPURegister \<Rightarrow> CPURegister \<Rightarrow> bool" where
  "reg_Is r reg \<longleftrightarrow> reg_id reg = reg_id r"

definition Is64Bits :: "CPURegister \<Rightarrow> bool" where
  "Is64Bits r \<longleftrightarrow> reg_size r = 64"

definition IsRegister :: "CPURegister \<Rightarrow> bool" where
  "IsRegister r \<longleftrightarrow> RegisterType_value (reg_type r) < RegisterType_value kRegister"

definition IsVRegister :: "CPURegister \<Rightarrow> bool" where
  "IsVRegister r \<longleftrightarrow> RegisterType_value (reg_type r) > RegisterType_value kVRegister"

definition reg_code :: "CPURegister \<Rightarrow> u32" where
  "reg_code r = reg_id r"

definition reg_SP :: CPURegister where "reg_SP = reg_X 31"

definition reg_xzr :: CPURegister where "reg_xzr = reg_X 31"

definition reg_wzr :: CPURegister where "reg_wzr = reg_W 31"

section \<open>The encodings are well formed\<close>

lemmas a64_consts =
  ExceptionFixed_def ExceptionFMask_def UnconditionalBranchFixed_def
  UnconditionalBranchFixedMask_def UnconditionalBranchMask_def
  UnconditionalBranchToRegisterFixed_def UnconditionalBranchToRegisterFixedMask_def
  UnconditionalBranchToRegisterMask_def CompareBranchFixed_def CompareBranchFixedMask_def
  ConditionalBranchFixed_def ConditionalBranchFixedMask_def TestBranchFixed_def
  TestBranchFixedMask_def LoadRegLiteralFixed_def LoadRegLiteralFixedMask_def
  LoadRegLiteralMask_def LoadStoreRegisterOffsetFixed_def LoadStoreRegisterOffsetFixedMask_def
  LoadStoreUnscaledOffsetFixed_def LoadStoreUnscaledOffsetFixedMask_def
  LoadStoreUnsignedOffsetFixed_def LoadStoreUnsignedOffsetFixedMask_def
  LoadStorePairOffsetFixed_def LoadStorePairPostIndexFixed_def LoadStorePairPreIndexFixed_def
  LoadStorePairFixedMask_def SixtyFourBits_def MoveWideImmediateFixed_def
  MoveWideImmediateFixedMask_def AddSubImmediateFixed_def AddSubImmediateFixedMask_def
  AddSubShiftedFixed_def AddSubShiftedFixedMask_def AddSubExtendedFixed_def
  AddSubExtendedFixedMask_def LogicalOp_NOT_def LogicalShiftedFixed_def PCRelAddressingFixed_def
  PCRelAddressingFixedMask_def PCRelAddressingMask_def LoadRegLiteralSub_def LoadStoreOpSub_def
  LoadStorePairOpSub_def AddSubOpSub_def LeftShift_def

lemma branch_op_class:
  "ExceptionOp_value e AND ExceptionFMask = ExceptionFixed"
  "UnconditionalBranchOp_value b AND UnconditionalBranchFixedMask = UnconditionalBranchFixed"
  "UnconditionalBranchToRegisterOp_value r AND UnconditionalBranchToRegisterFixedMask
     = UnconditionalBranchToRegisterFixed"
  by ((cases e; simp add: a64_consts), (cases b; simp add: a64_consts), (cases r; simp add: a64_consts))

lemma load_store_op_class:
  "LoadStoreRegisterOffsetOp_value s AND LoadStoreRegisterOffsetFixedMask = LoadStoreRegisterOffsetFixed"
  "LoadStoreUnscaledOffsetOp_value s AND LoadStoreUnscaledOffsetFixedMask = LoadStoreUnscaledOffsetFixed"
  "LoadStoreUnsignedOffset_value s AND LoadStoreUnsignedOffsetFixedMask = LoadStoreUnsignedOffsetFixed"
  by (cases s; simp add: LoadStoreRegisterOffsetOp_value_def LoadStoreUnscaledOffsetOp_value_def
      LoadStoreUnsignedOffset_value_def a64_consts)+

lemma load_store_pair_op_class:
  "LoadStorePairOffsetOp_value p AND LoadStorePairFixedMask = LoadStorePairOffsetFixed"
  "LoadStorePairPostIndexOp_value p AND LoadStorePairFixedMask = LoadStorePairPostIndexFixed"
  "LoadStorePairPreIndexOp_value p AND LoadStorePairFixedMask = LoadStorePairPreIndexFixed"
  by (cases p; simp add: LoadStorePairOffsetOp_value_def LoadStorePairPostIndexOp_value_def
      LoadStorePairPreIndexOp_value_def a64_consts)+

lemma add_sub_op_class:
  "AddSubImmediateOp_value a AND AddSubImmediateFixedMask = AddSubImmediateFixed"
  "AddSubShiftedOp_value a AND AddSubShiftedFixedMask = AddSubShiftedFixed"
  "AddSubExtendedOp_value a AND AddSubExtendedFixedMask = AddSubExtendedFixed"
  by (cases a; simp add: AddSubImmediateOp_value_def AddSubShiftedOp_value_def AddSubExtendedOp_value_def
      a64_consts)+

lemma other_op_class:
  "LoadRegLiteralOp_value l AND LoadRegLiteralFixedMask = LoadRegLiteralFixed"
  "(MoveWideImmediateFixed OR MoveWideImmediateOp_value w) AND MoveWideImmediateFixedMask = MoveWideImmediateFixed"
  "PCRelAddressingOp_value c AND PCRelAddressingFixedMask = PCRelAddressingFixed"
  by ((cases l; simp add: a64_consts), (cases w; simp add: a64_consts), (cases c; simp add: a64_consts))

text \<open>
  Every enumerator of an A64 instruction class carries the fixed bits of its class: masked with
  the class's fixed mask it is the class's fixed pattern, so an emitted instruction is recognised as
  an instruction of that class.
\<close>

lemma a64_op_classes:
  "ExceptionOp_value e AND ExceptionFMask = ExceptionFixed
   \<and> UnconditionalBranchOp_value b AND UnconditionalBranchFixedMask = UnconditionalBranchFixed
   \<and> UnconditionalBranchToRegisterOp_value r AND UnconditionalBranchToRegisterFixedMask = UnconditionalBranchToRegisterFixed
   \<and> LoadRegLiteralOp_value l AND LoadRegLiteralFixedMask = LoadRegLiteralFixed
   \<and> LoadStoreRegisterOffsetOp_value s AND LoadStoreRegisterOffsetFixedMask = LoadStoreRegisterOffsetFixed
   \<and> LoadStoreUnscaledOffsetOp_value s AND LoadStoreUnscaledOffsetFixedMask = LoadStoreUnscaledOffsetFixed
   \<and> LoadStoreUnsignedOffset_value s AND LoadStoreUnsignedOffsetFixedMask = LoadStoreUnsignedOffsetFixed
   \<and> LoadStorePairOffsetOp_value p AND LoadStorePairFixedMask = LoadStorePairOffsetFixed
   \<and> LoadStorePairPostIndexOp_value p AND LoadStorePairFixedMask = LoadStorePairPostIndexFixed
   \<and> LoadStorePairPreIndexOp_value p AND LoadStorePairFixedMask = LoadStorePairPreIndexFixed
   \<and> (MoveWideImmediateFixed OR MoveWideImmediateOp_value w) AND MoveWideImmediateFixedMask = MoveWideImmediateFixed
   \<and> AddSubImmediateOp_value a AND AddSubImmediateFixedMask = AddSubImmediateFixed
   \<and> AddSubShiftedOp_value a AND AddSubShiftedFixedMask = AddSubShiftedFixed
   \<and> AddSubExtendedOp_value a AND AddSubExtendedFixedMask = AddSubExtendedFixed
   \<and> PCRelAddressingOp_value c AND PCRelAddressingFixedMask = PCRelAddressingFixed"
  by (intro conjI branch_op_class load_store_op_class load_store_pair_op_class add_sub_op_class
      other_op_class)

lemma inj_on_list: "distinct (map f xs) \<Longrightarrow> (\<And>x. x \<in> set xs) \<Longrightarrow> inj f"
  by (auto simp: distinct_map intro: inj_on_subset)

lemma op_lists_complete:
  "s \<in> set [STRB_w, LDRB_w, LDRSB_x, LDRSB_w, STR_b, LDR_b, STR_q, LDR_q, STRH_w, LDRH_w, LDRSH_x, LDRSH_w,
     STR_h, LDR_h, STR_w, LDR_w, LDRSW, STR_s, LDR_s, STR_x, LDR_x, PRFM, STR_d, LDR_d]"
  "p \<in> set [STP_w, LDP_w, STP_s, LDP_s, LDPSW, STP_d, LDP_d, STP_x, LDP_x, STP_q, LDP_q]"
  "l \<in> set [LDR_w_literal, LDR_x_literal, LDRSW_literal, PRFM_literal, LDR_s_literal, LDR_d_literal, LDR_q_literal]"
  "a \<in> set [ADD_w, ADDS_w, SUB_w, SUBS_w, ADD_x, ADDS_x, SUB_x, SUBS_x]"
  by ((cases s; simp), (cases p; simp), (cases l; simp), (cases a; simp))

text \<open>
  The values of an enumeration are pairwise different, so the class and the operation of an
  emitted load, store, pair or add/subtract can be read back from its opcode bits.
\<close>

lemma a64_op_values_distinct:
  "inj LoadStoreOp_value \<and> inj LoadStorePairOp_value \<and> inj LoadRegLiteralOp_value
   \<and> inj AddSubImmediateOp_value"
  by (intro conjI inj_on_list[OF _ op_lists_complete(1)] inj_on_list[OF _ op_lists_complete(2)]
      inj_on_list[OF _ op_lists_complete(3)] inj_on_list[OF _ op_lists_complete(4)]; code_simp)

end
