(* ===== verification/Arm64_Codec.thy ===== *)
theory Arm64_Codec
  imports Dobby_Prelude
begin

text \<open>
  The PC-relative immediates of A64 instructions, from
  \<^verbatim>\<open>source/InstructionRelocation/arm64/inst_decode_encode_kit.h\<close>: sign extension, the
  decoders and encoders of the 14, 19 and 26 bit branch and literal offsets, and the split
  \<^verbatim>\<open>immhi:immlo\<close> of ADR and ADRP.  \<^verbatim>\<open>int64_t\<close> offsets are 64-bit words in two's
  complement; \<^verbatim>\<open>>>\<close> on them is the arithmetic shift.
\<close>

definition SignExtend :: "u64 \<Rightarrow> nat \<Rightarrow> u64" where
  "SignExtend x M = (let sign_bit = c_bit x (M - 1);
                         sign_mask = 0 - sign_bit
                     in x OR push_bit M (drop_bit M sign_mask))"

definition decode_imm14_offset :: "u32 \<Rightarrow> u64" where
  "decode_imm14_offset instr =
     (let imm14 = ucast (c_bits instr 5 18); offset = push_bit 2 imm14 in SignExtend offset (2 + 14))"

definition encode_imm14_offset :: "u32 \<Rightarrow> u64 \<Rightarrow> u32" where
  "encode_imm14_offset instr offset =
     (let imm14 = ucast (c_bits (signed_drop_bit 2 offset) 0 13) in c_set_bits instr 5 18 imm14)"

definition decode_imm19_offset :: "u32 \<Rightarrow> u64" where
  "decode_imm19_offset instr =
     (let imm19 = ucast (c_bits instr 5 23); offset = push_bit 2 imm19 in SignExtend offset (2 + 19))"

definition encode_imm19_offset :: "u32 \<Rightarrow> u64 \<Rightarrow> u32" where
  "encode_imm19_offset instr offset =
     (let imm19 = ucast (c_bits (signed_drop_bit 2 offset) 0 18) in c_set_bits instr 5 23 imm19)"

definition decode_imm26_offset :: "u32 \<Rightarrow> u64" where
  "decode_imm26_offset instr =
     (let imm26 = ucast (c_bits instr 0 25); offset = push_bit 2 imm26 in SignExtend offset (2 + 26))"

definition encode_imm26_offset :: "u32 \<Rightarrow> u64 \<Rightarrow> u32" where
  "encode_imm26_offset instr offset =
     (let imm26 = ucast (c_bits (signed_drop_bit 2 offset) 0 25) in c_set_bits instr 0 25 imm26)"

text \<open>A C bit-field of \<open>n\<close> bits at bit \<open>lo\<close>: a store keeps the low \<open>n\<close> bits of the value.\<close>

definition bitfield_get :: "u32 \<Rightarrow> nat \<Rightarrow> nat \<Rightarrow> u32" where
  "bitfield_get w lo n = take_bit n (drop_bit lo w)"

definition bitfield_set :: "u32 \<Rightarrow> nat \<Rightarrow> nat \<Rightarrow> u32 \<Rightarrow> u32" where
  "bitfield_set w lo n v = (w AND NOT (push_bit lo (mask n))) OR push_bit lo (take_bit n v)"

definition decode_immhi_immlo_offset :: "u32 \<Rightarrow> u64" where
  "decode_immhi_immlo_offset instr =
     (let immhi = bitfield_get instr 5 19; immlo = bitfield_get instr 29 2;
          imm = ucast (immlo + push_bit 2 immhi)
      in SignExtend imm (2 + 19))"

definition encode_immhi_immlo_offset :: "u32 \<Rightarrow> u64 \<Rightarrow> u32" where
  "encode_immhi_immlo_offset instr offset =
     (let d = bitfield_set instr 29 2 (ucast (c_bits offset 0 2))
      in bitfield_set d 5 19 (ucast (c_bits offset 2 (2 + 19))))"

definition decode_immhi_immlo_zero12_offset :: "u32 \<Rightarrow> u64" where
  "decode_immhi_immlo_zero12_offset instr = push_bit 12 (decode_immhi_immlo_offset instr)"

definition encode_immhi_immlo_zero12_offset :: "u32 \<Rightarrow> u64 \<Rightarrow> u32" where
  "encode_immhi_immlo_zero12_offset instr offset =
     encode_immhi_immlo_offset instr (signed_drop_bit 12 offset)"

definition decode_rt :: "u32 \<Rightarrow> u32" where
  "decode_rt instr = c_bits instr 0 4"

definition decode_rd :: "u32 \<Rightarrow> u32" where
  "decode_rd instr = c_bits instr 0 4"

section \<open>Sign extension\<close>

named_theorems codec

lemmas [codec] =
  decode_imm14_offset_def encode_imm14_offset_def decode_imm19_offset_def encode_imm19_offset_def
  decode_imm26_offset_def encode_imm26_offset_def decode_immhi_immlo_offset_def
  encode_immhi_immlo_offset_def decode_immhi_immlo_zero12_offset_def
  encode_immhi_immlo_zero12_offset_def c_bits_def c_set_bits_def submask_def bitfield_get_def
  bitfield_set_def

lemma neg_c_bit: "0 - c_bit (x :: u64) k = (if bit x k then - 1 else 0)"
  by (simp add: c_bit_def and_one_eq bit_iff_odd_drop_bit mod2_eq_if)

text \<open>
  On a value below \<open>2 ^ M\<close>, \<^verbatim>\<open>SignExtend\<close> is the value of its low \<open>M\<close> bits read as a
  signed number.
\<close>

lemma SignExtend_signed:
  assumes "take_bit M x = x" and "0 < M"
  shows "SignExtend x M = signed_take_bit (M - 1) x"
proof (rule bit_word_eqI)
  fix n
  assume n: "n < LENGTH(64)"
  have hi: "\<not> bit x n" if "M \<le> n"
    using that assms(1) bit_take_bit_iff[of M x n] by simp
  have ext: "SignExtend x M = x OR push_bit M (drop_bit M (if bit x (M - 1) then - 1 else 0))"
    unfolding SignExtend_def Let_def neg_c_bit ..
  have "n = M - 1" if "n < M" "M - 1 \<le> n"
    using that by simp
  then show "bit (SignExtend x M) n = bit (signed_take_bit (M - 1) x) n"
    unfolding ext using n hi assms(2)
    by (cases "n < M") (auto simp: bit_simps min_def)
qed

text \<open>
  The architecture's reading of an immediate field of \<open>n\<close> bits at bit \<open>lo\<close>, scaled by
  \<open>2 ^ sh\<close> and sign extended.
\<close>

definition simm :: "u32 \<Rightarrow> nat \<Rightarrow> nat \<Rightarrow> nat \<Rightarrow> u64" where
  "simm i lo n sh = signed_take_bit (n + sh - 1) (push_bit sh (take_bit n (drop_bit lo (ucast i))))"

text \<open>A field of \<open>n\<close> bits scaled by \<open>2 ^ sh\<close> holds \<open>off\<close>.\<close>

definition fits :: "nat \<Rightarrow> nat \<Rightarrow> u64 \<Rightarrow> bool" where
  "fits n sh off \<longleftrightarrow>
     2 ^ sh dvd sint off \<and> - (2 ^ (n + sh - 1)) \<le> sint off \<and> sint off < 2 ^ (n + sh - 1)"

lemma fits_bits:
  assumes "fits n sh off"
  shows "take_bit sh off = 0" and "signed_take_bit (n + sh - 1) off = off"
proof -
  have "take_bit sh (sint off) = 0"
    using assms by (simp add: fits_def take_bit_eq_mod)
  then show "take_bit sh off = 0"
    using take_bit_of_int[of sh "sint off", where ?'a = "64 word"] by simp
  have "signed_take_bit (n + sh - 1) (sint off) = sint off"
    using assms by (simp add: fits_def signed_take_bit_int_eq_self)
  then show "signed_take_bit (n + sh - 1) off = off"
    using signed_take_bit_of_int[of "n + sh - 1" "sint off", where ?'a = "64 word"] by simp
qed

lemma decode_field:
  assumes "0 < n" and "lo + n \<le> 32"
  shows "SignExtend (push_bit sh (ucast (c_bits i lo (lo + n - 1)))) (sh + n) = simm i lo n sh"
proof -
  have "c_bits i lo (lo + n - 1) = take_bit n (drop_bit lo i)"
    using assms by (simp add: c_bits_def submask_def take_bit_eq_mask)
  then have "ucast (c_bits i lo (lo + n - 1)) = take_bit n (drop_bit lo (ucast i :: u64))"
    using assms by (auto intro!: bit_word_eqI simp: bit_simps)
  moreover have "take_bit (sh + n) x = x" if "x = push_bit sh (take_bit n y)" for x y :: u64
    unfolding that by (auto intro!: bit_word_eqI simp: bit_simps)
  ultimately show ?thesis
    unfolding simm_def using assms by (simp add: SignExtend_signed add.commute[of n])
qed

lemma decode_branch_offsets:
  "decode_imm14_offset i = simm i 5 14 2"
  "decode_imm19_offset i = simm i 5 19 2"
  "decode_imm26_offset i = simm i 0 26 2"
  using decode_field[of 14 5 2 i] decode_field[of 19 5 2 i] decode_field[of 26 0 2 i]
  by (simp_all add: decode_imm14_offset_def decode_imm19_offset_def decode_imm26_offset_def Let_def)

lemma bit_encode_field:
  assumes "0 < n" and "lo + n \<le> 32" and "sh + n \<le> 64" and "k < 32"
  shows "bit (c_set_bits (i :: u32) lo (lo + n - 1) (ucast (c_bits (signed_drop_bit sh (off :: u64)) 0 (n - 1)))) k
    \<longleftrightarrow> (if lo \<le> k \<and> k < lo + n then bit off (sh + (k - lo)) else bit i k)"
  using assms by (auto simp: c_set_bits_def c_bits_def submask_def bit_simps)

lemma simm_cong:
  assumes "\<And>k. lo \<le> k \<Longrightarrow> k < lo + n \<Longrightarrow> bit i k = bit off (sh + (k - lo))" and "lo + n \<le> 32"
    and "0 < n" and "fits n sh off"
  shows "simm i lo n sh = off"
proof -
  have "take_bit (n + sh) off = push_bit sh (take_bit n (drop_bit lo (ucast i)))"
  proof (rule bit_word_eqI)
    fix k
    assume k: "k < LENGTH(64)"
    have "\<not> bit off k" if "k < sh"
      using that assms(4) bit_take_bit_iff[of sh off k] fits_bits(1)[OF assms(4)] by simp
    then show "bit (take_bit (n + sh) off) k = bit (push_bit sh (take_bit n (drop_bit lo (ucast i :: u64)))) k"
      using k assms(1)[of "lo + (k - sh)"] assms(2) by (cases "k < sh") (auto simp: bit_simps)
  qed
  then have "simm i lo n sh = signed_take_bit (n + sh - 1) (take_bit (n + sh) off)"
    by (simp add: simm_def)
  also have "\<dots> = signed_take_bit (n + sh - 1) off"
    using assms(3) by (auto intro!: bit_word_eqI simp: bit_simps min_def)
  finally show ?thesis
    using fits_bits(2)[OF assms(4)] by simp
qed

lemma encode_branch_offsets:
  "fits 14 2 off \<Longrightarrow> decode_imm14_offset (encode_imm14_offset i off) = off"
  "fits 19 2 off \<Longrightarrow> decode_imm19_offset (encode_imm19_offset i off) = off"
  "fits 26 2 off \<Longrightarrow> decode_imm26_offset (encode_imm26_offset i off) = off"
  unfolding decode_branch_offsets encode_imm14_offset_def encode_imm19_offset_def encode_imm26_offset_def Let_def
  using bit_encode_field[of 14 5 2 _ i off] bit_encode_field[of 19 5 2 _ i off] bit_encode_field[of 26 0 2 _ i off]
  by (intro simm_cong; simp)+

text \<open>
  ADR and ADRP: the two low bits of the immediate are at bit 29, the others at bit 5.
\<close>

definition adr_imm :: "u32 \<Rightarrow> u64" where
  "adr_imm i = signed_take_bit 20 (take_bit 2 (drop_bit 29 (ucast i)) OR push_bit 2 (take_bit 19 (drop_bit 5 (ucast i))))"

lemma decode_adr_offset: "decode_immhi_immlo_offset i = adr_imm i"
proof -
  have "ucast (bitfield_get i 29 2 + push_bit 2 (bitfield_get i 5 19)) =
      (take_bit 2 (drop_bit 29 (ucast i)) OR push_bit 2 (take_bit 19 (drop_bit 5 (ucast i))) :: u64)"
    by (subst disjunctive_add) (auto intro!: bit_word_eqI simp: bitfield_get_def bit_simps)
  then have "decode_immhi_immlo_offset i =
      SignExtend (take_bit 2 (drop_bit 29 (ucast i)) OR push_bit 2 (take_bit 19 (drop_bit 5 (ucast i)))) 21"
    by (simp add: decode_immhi_immlo_offset_def Let_def)
  also have "\<dots> = adr_imm i"
    unfolding adr_imm_def by (rule trans[OF SignExtend_signed]) (auto intro!: bit_word_eqI simp: bit_simps)
  finally show ?thesis .
qed

lemma Suc_Suc_diff: "2 \<le> n \<Longrightarrow> Suc (Suc (n - 2)) = n" "\<not> n < 2 \<Longrightarrow> Suc (Suc (n - 2)) = n"
  by simp_all

lemma encode_adr_offset:
  assumes "fits 21 0 off"
  shows "decode_immhi_immlo_offset (encode_immhi_immlo_offset i off) = off"
proof -
  have lo: "take_bit 2 (drop_bit 29 (ucast (encode_immhi_immlo_offset i off))) = take_bit 2 off"
    by (rule bit_word_eqI) (auto simp: encode_immhi_immlo_offset_def bitfield_set_def c_bits_def submask_def bit_simps)
  have hi: "take_bit 19 (drop_bit 5 (ucast (encode_immhi_immlo_offset i off))) = take_bit 19 (drop_bit 2 off)"
    by (rule bit_word_eqI) (auto simp: encode_immhi_immlo_offset_def bitfield_set_def c_bits_def submask_def bit_simps)
  have "take_bit 2 (drop_bit 29 (ucast (encode_immhi_immlo_offset i off))) OR
      push_bit 2 (take_bit 19 (drop_bit 5 (ucast (encode_immhi_immlo_offset i off)))) = take_bit 21 off"
    unfolding lo hi by (rule bit_word_eqI) (auto simp: bit_simps Suc_Suc_diff)
  then have "adr_imm (encode_immhi_immlo_offset i off) = signed_take_bit 20 (take_bit 21 off)"
    by (simp add: adr_imm_def)
  also have "\<dots> = signed_take_bit 20 off"
    by (auto intro!: bit_word_eqI simp: bit_simps min_def)
  finally show ?thesis
    using fits_bits(2)[OF assms] by (simp add: decode_adr_offset)
qed

lemma encode_adrp_offset:
  assumes "fits 21 12 off"
  shows "decode_immhi_immlo_zero12_offset (encode_immhi_immlo_zero12_offset i off) = off"
proof -
  have "sint (signed_drop_bit 12 off) = sint off div 2 ^ 12"
    by (simp add: sint_signed_drop_bit_eq drop_bit_eq_div)
  moreover have sd: "2 ^ 12 * (sint off div 2 ^ 12) = sint off"
    using assms by (simp add: fits_def)
  ultimately have "fits 21 0 (signed_drop_bit 12 off)"
    using assms by (auto simp: fits_def)
  moreover have "push_bit 12 (signed_drop_bit 12 off) = off"
  proof -
    have "push_bit 12 (signed_drop_bit 12 off) = push_bit 12 (drop_bit 12 off)"
      by (rule bit_word_eqI) (auto simp: bit_simps split: if_splits)
    also have "\<dots> = off"
      using bits_ident[of 12 off] fits_bits(1)[OF assms] by simp
    finally show ?thesis .
  qed
  ultimately show ?thesis
    by (simp add: decode_immhi_immlo_zero12_offset_def encode_immhi_immlo_zero12_offset_def encode_adr_offset)
qed

lemma encode_keeps_bits:
  "k < 32 \<Longrightarrow> k < 5 \<or> 19 \<le> k \<Longrightarrow> bit (encode_imm14_offset i off) k = bit i k"
  "k < 32 \<Longrightarrow> k < 5 \<or> 24 \<le> k \<Longrightarrow> bit (encode_imm19_offset i off) k = bit i k"
  "k < 32 \<Longrightarrow> 26 \<le> k \<Longrightarrow> bit (encode_imm26_offset i off) k = bit i k"
  unfolding encode_imm14_offset_def encode_imm19_offset_def encode_imm26_offset_def Let_def
  using bit_encode_field[of 14 5 2 k i off] bit_encode_field[of 19 5 2 k i off] bit_encode_field[of 26 0 2 k i off]
  by auto

text \<open>
  C28. A branch or literal offset that fits its field survives an encoding: the decoder reads
  back the offset that was written, for the 14, 19 and 26 bit fields and the ADR and ADRP
  immediates, and the encoders of the branch fields leave the other bits of the instruction alone.
\<close>

theorem arm64_offset_roundtrip:
  "(fits 14 2 off \<longrightarrow> decode_imm14_offset (encode_imm14_offset i off) = off)
   \<and> (fits 19 2 off \<longrightarrow> decode_imm19_offset (encode_imm19_offset i off) = off)
   \<and> (fits 26 2 off \<longrightarrow> decode_imm26_offset (encode_imm26_offset i off) = off)
   \<and> (fits 21 0 off \<longrightarrow> decode_immhi_immlo_offset (encode_immhi_immlo_offset i off) = off)
   \<and> (fits 21 12 off \<longrightarrow> decode_immhi_immlo_zero12_offset (encode_immhi_immlo_zero12_offset i off) = off)
   \<and> (\<forall>k < 32. (k < 5 \<or> 19 \<le> k \<longrightarrow> bit (encode_imm14_offset i off) k = bit i k)
       \<and> (k < 5 \<or> 24 \<le> k \<longrightarrow> bit (encode_imm19_offset i off) k = bit i k)
       \<and> (26 \<le> k \<longrightarrow> bit (encode_imm26_offset i off) k = bit i k))"
  using encode_branch_offsets[of off i] encode_adr_offset[of off i] encode_adrp_offset[of off i]
    encode_keeps_bits[of _ i off]
  by blast

theorem arm64_offset_roundtrip_witness:
  "fits 14 2 (-0x8000) \<and> decode_imm14_offset (encode_imm14_offset 0x37000000 (-0x8000)) = -0x8000
   \<and> fits 19 2 0x80 \<and> decode_imm19_offset (encode_imm19_offset 0x58000011 0x80) = 0x80
   \<and> fits 26 2 (-4) \<and> decode_imm26_offset (encode_imm26_offset 0x94000000 (-4)) = -4
   \<and> fits 21 0 (-3) \<and> decode_immhi_immlo_offset (encode_immhi_immlo_offset 0x10000000 (-3)) = -3
   \<and> fits 21 12 0x5000 \<and> decode_immhi_immlo_zero12_offset (encode_immhi_immlo_zero12_offset 0x90000000 0x5000) = 0x5000"
  using arm64_offset_roundtrip[of "-0x8000" "0x37000000"] arm64_offset_roundtrip[of "0x80" "0x58000011"]
    arm64_offset_roundtrip[of "-4" "0x94000000"] arm64_offset_roundtrip[of "-3" "0x10000000"]
    arm64_offset_roundtrip[of "0x5000" "0x90000000"]
  by (simp add: fits_def)

end
