(* ===== verification/Arm64_Assembler.thy ===== *)
theory Arm64_Assembler
  imports Arm64_Constants Arm64_Codec Code_Builder
begin

text \<open>
  The A64 assembler of \<^verbatim>\<open>source/core/assembler/assembler-arm64.h\<close> with its base class
  \<^verbatim>\<open>AssemblerBase\<close> (\<^verbatim>\<open>source/core/assembler/assembler.h\<close>), the labels of
  \<^verbatim>\<open>source/core/assembler/pseudo_label.h\<close> and the code generator of
  \<^verbatim>\<open>source/core/codegen/codegen-arm64.h\<close>.  An assembler is its code bytes and its data
  labels, in the order they were created; a label is referred to by its index.  Instruction words
  are 32-bit words; \<^verbatim>\<open>int64_t\<close> immediates are 64-bit words.  The release build's
  \<^verbatim>\<open>DCHECK\<close> is empty.
\<close>

definition Low16Bits :: "u32 \<Rightarrow> u16" where
  "Low16Bits value = ucast (value AND 0xffff)"

definition High16Bits :: "u32 \<Rightarrow> u16" where
  "High16Bits value = ucast (drop_bit 16 value)"

definition Low32Bits :: "u64 \<Rightarrow> u32" where
  "Low32Bits value = ucast value"

definition High32Bits :: "u64 \<Rightarrow> u32" where
  "High32Bits value = ucast (drop_bit 32 value)"

definition TMP_REG_0 :: CPURegister where
  "TMP_REG_0 = reg_X 17"

definition f_Rd :: "CPURegister \<Rightarrow> u32" where
  "f_Rd rd = push_bit kRdShift (reg_code rd)"

definition f_Rt :: "CPURegister \<Rightarrow> u32" where
  "f_Rt rt = push_bit kRtShift (reg_code rt)"

definition f_Rt2 :: "CPURegister \<Rightarrow> u32" where
  "f_Rt2 rt = push_bit kRt2Shift (reg_code rt)"

definition f_Rn :: "CPURegister \<Rightarrow> u32" where
  "f_Rn rn = push_bit kRnShift (reg_code rn)"

definition f_Rm :: "CPURegister \<Rightarrow> u32" where
  "f_Rm rm = push_bit kRmShift (reg_code rm)"

section \<open>Operands\<close>

record Operand =
  op_immediate :: u64
  op_reg :: CPURegister
  op_shift :: Shift
  op_extend :: Extend
  op_shift_extend_imm :: u32

definition Operand_imm :: "u64 \<Rightarrow> Operand" where
  "Operand_imm imm = \<lparr>op_immediate = imm, op_reg = InvalidRegister, op_shift = NO_SHIFT,
                      op_extend = NO_EXTEND, op_shift_extend_imm = 0\<rparr>"

definition Operand_shifted :: "CPURegister \<Rightarrow> Shift \<Rightarrow> u32 \<Rightarrow> Operand" where
  "Operand_shifted reg shift shift_imm =
     \<lparr>op_immediate = 0, op_reg = reg, op_shift = shift, op_extend = NO_EXTEND, op_shift_extend_imm = shift_imm\<rparr>"

definition Operand_extended :: "CPURegister \<Rightarrow> Extend \<Rightarrow> u32 \<Rightarrow> Operand" where
  "Operand_extended reg ext shift_imm =
     \<lparr>op_immediate = 0, op_reg = reg, op_shift = NO_SHIFT, op_extend = ext, op_shift_extend_imm = shift_imm\<rparr>"

definition IsImmediate :: "Operand \<Rightarrow> bool" where
  "IsImmediate opd = reg_Is (op_reg opd) InvalidRegister"

definition IsShiftedRegister :: "Operand \<Rightarrow> bool" where
  "IsShiftedRegister opd \<longleftrightarrow> op_shift opd \<noteq> NO_SHIFT"

definition IsExtendedRegister :: "Operand \<Rightarrow> bool" where
  "IsExtendedRegister opd \<longleftrightarrow> op_extend opd \<noteq> NO_EXTEND"

record MemOperand =
  mo_base :: CPURegister
  mo_reg_offset :: CPURegister
  mo_offset :: u64
  mo_shift :: Shift
  mo_extend :: Extend
  mo_shift_extend_imm :: u32
  mo_addrmode :: AddrMode

definition MemOperand_imm :: "CPURegister \<Rightarrow> u64 \<Rightarrow> AddrMode \<Rightarrow> MemOperand" where
  "MemOperand_imm base offset addrmode =
     \<lparr>mo_base = base, mo_reg_offset = InvalidRegister, mo_offset = offset, mo_shift = NO_SHIFT,
      mo_extend = NO_EXTEND, mo_shift_extend_imm = 0, mo_addrmode = addrmode\<rparr>"

definition MemOperand_extended :: "CPURegister \<Rightarrow> CPURegister \<Rightarrow> Extend \<Rightarrow> u32 \<Rightarrow> MemOperand" where
  "MemOperand_extended base regoffset ext extend_imm =
     \<lparr>mo_base = base, mo_reg_offset = regoffset, mo_offset = 0, mo_shift = NO_SHIFT,
      mo_extend = ext, mo_shift_extend_imm = extend_imm, mo_addrmode = Offset\<rparr>"

definition MemOperand_shifted :: "CPURegister \<Rightarrow> CPURegister \<Rightarrow> Shift \<Rightarrow> u32 \<Rightarrow> MemOperand" where
  "MemOperand_shifted base regoffset shift shift_imm =
     \<lparr>mo_base = base, mo_reg_offset = regoffset, mo_offset = 0, mo_shift = shift,
      mo_extend = NO_EXTEND, mo_shift_extend_imm = shift_imm, mo_addrmode = Offset\<rparr>"

text \<open>The constructor from an operand assigns its fields for register operands only.\<close>

definition MemOperand_operand :: "CPURegister \<Rightarrow> Operand \<Rightarrow> AddrMode \<Rightarrow> MemOperand result" where
  "MemOperand_operand base offset addrmode =
     (if IsShiftedRegister offset
      then Inr \<lparr>mo_base = base, mo_reg_offset = op_reg offset, mo_offset = 0, mo_shift = op_shift offset,
                mo_extend = NO_EXTEND, mo_shift_extend_imm = op_shift_extend_imm offset, mo_addrmode = addrmode\<rparr>
      else if IsExtendedRegister offset
      then Inr \<lparr>mo_base = base, mo_reg_offset = op_reg offset, mo_offset = 0, mo_shift = NO_SHIFT,
                mo_extend = op_extend offset, mo_shift_extend_imm = op_shift_extend_imm offset, mo_addrmode = addrmode\<rparr>
      else Inl Uninitialised)"

definition IsImmediateOffset :: "MemOperand \<Rightarrow> bool" where
  "IsImmediateOffset opd \<longleftrightarrow> mo_addrmode opd = Offset"

definition IsRegisterOffset :: "MemOperand \<Rightarrow> bool" where
  "IsRegisterOffset opd \<longleftrightarrow> mo_addrmode opd = Offset"

definition IsPreIndex :: "MemOperand \<Rightarrow> bool" where
  "IsPreIndex opd \<longleftrightarrow> mo_addrmode opd = PreIndex"

definition IsPostIndex :: "MemOperand \<Rightarrow> bool" where
  "IsPostIndex opd \<longleftrightarrow> mo_addrmode opd = PostIndex"

section \<open>Field encoders\<close>

definition enc_sf :: "CPURegister \<Rightarrow> u32" where
  "enc_sf reg = (if Is64Bits reg then LeftShift 1 1 31 else 0)"

definition enc_V :: "CPURegister \<Rightarrow> u32" where
  "enc_V reg = (if IsVRegister reg then LeftShift 1 1 26 else 0)"

definition enc_L :: "bool \<Rightarrow> u32" where
  "enc_L load_or_store = (if load_or_store then LeftShift 1 1 22 else 0)"

definition enc_shift :: "Shift \<Rightarrow> u32" where
  "enc_shift shift = LeftShift (Shift_value shift) 2 22"

definition EncodeLogicalImmediate :: "CPURegister \<Rightarrow> CPURegister \<Rightarrow> Operand \<Rightarrow> u32" where
  "EncodeLogicalImmediate rd rn operand =
     (let imm = op_immediate operand;
          immr = ucast (c_bits imm 0 5); imms = ucast (c_bits imm 6 11)
      in enc_sf rd OR LeftShift immr 6 16 OR LeftShift imms 6 10 OR f_Rd rd OR f_Rn rn)"

definition EncodeLogicalShift :: "CPURegister \<Rightarrow> CPURegister \<Rightarrow> Operand \<Rightarrow> u32" where
  "EncodeLogicalShift rd rn operand =
     enc_sf rd OR enc_shift (op_shift operand) OR f_Rm (op_reg operand)
     OR LeftShift (op_shift_extend_imm operand) 6 10 OR f_Rn rn OR f_Rd rd"

definition enc_LoadStorePair :: "u32 \<Rightarrow> CPURegister \<Rightarrow> CPURegister \<Rightarrow> MemOperand \<Rightarrow> u32" where
  "enc_LoadStorePair op rt rt2 addr =
     (let opc = c_bits op 30 31;
          scale = (if IsRegister rt then 2 + unat (c_bit opc 1)
                   else if IsVRegister rt then 2 + unat opc else 2);
          imm7 = ucast (signed_drop_bit scale (mo_offset addr))
      in LeftShift imm7 7 15)"

definition enc_scale :: "u32 \<Rightarrow> nat" where
  "enc_scale op = (if op AND LoadStoreUnsignedOffsetFixed = LoadStoreUnsignedOffsetFixed
                   then unat (c_bits op 30 31) else 0)"

section \<open>Assembler state and labels\<close>

definition kLabelImm19 :: nat where "kLabelImm19 = 0"

record ref_inst_t =
  link_type :: nat
  inst_offset :: u64

record RelocDataLabel =
  lb_pos :: u64
  lb_ref_insts :: "ref_inst_t list"
  lb_data :: u64

record TurboAssembler =
  asm_fixed_addr :: u64
  asm_code :: "u8 list"
  asm_data_labels :: "RelocDataLabel list"

definition TurboAssembler_new :: "u64 \<Rightarrow> TurboAssembler" where
  "TurboAssembler_new fixed_addr = \<lparr>asm_fixed_addr = fixed_addr, asm_code = [], asm_data_labels = []\<rparr>"

definition set_fixed_addr :: "u64 \<Rightarrow> TurboAssembler \<Rightarrow> TurboAssembler" where
  "set_fixed_addr in_fixed_addr a = a\<lparr>asm_fixed_addr := in_fixed_addr\<rparr>"

definition pc_offset :: "TurboAssembler \<Rightarrow> u64" where
  "pc_offset a = of_nat (length (asm_code a))"

definition label_new :: "u64 \<Rightarrow> RelocDataLabel" where
  "label_new d = \<lparr>lb_pos = 0, lb_ref_insts = [], lb_data = d\<rparr>"

definition bind_to :: "u64 \<Rightarrow> RelocDataLabel \<Rightarrow> RelocDataLabel" where
  "bind_to pos l = l\<lparr>lb_pos := pos\<rparr>"

definition link_to :: "nat \<Rightarrow> u32 \<Rightarrow> RelocDataLabel \<Rightarrow> RelocDataLabel" where
  "link_to type pc_off l =
     l\<lparr>lb_ref_insts := lb_ref_insts l @ [\<lparr>link_type = type, inst_offset = ucast pc_off\<rparr>]\<rparr>"

definition createDataLabel :: "u64 \<Rightarrow> TurboAssembler \<Rightarrow> nat \<times> TurboAssembler" where
  "createDataLabel d a =
     (length (asm_data_labels a), a\<lparr>asm_data_labels := asm_data_labels a @ [label_new d]\<rparr>)"

definition emit_bytes :: "u8 list \<Rightarrow> TurboAssembler \<Rightarrow> TurboAssembler" where
  "emit_bytes bs a = a\<lparr>asm_code := asm_code a @ bs\<rparr>"

definition asm_Emit :: "u32 \<Rightarrow> TurboAssembler \<Rightarrow> TurboAssembler" where
  "asm_Emit value a = emit_bytes (le_bytes 4 value) a"

definition asm_EmitInt64 :: "u64 \<Rightarrow> TurboAssembler \<Rightarrow> TurboAssembler" where
  "asm_EmitInt64 value a = emit_bytes (le_bytes 8 value) a"

definition LoadInst :: "u8 list \<Rightarrow> u32 \<Rightarrow> u32 result" where
  "LoadInst code offset =
     (if unat offset + 4 \<le> length code then Inr (le_word (take 4 (drop (unat offset) code)))
      else Inl OutOfBounds)"

definition RewriteInst :: "u8 list \<Rightarrow> u32 \<Rightarrow> u32 \<Rightarrow> u8 list result" where
  "RewriteInst code offset instr =
     (if unat offset + 4 \<le> length code
      then Inr (take (unat offset) code @ le_bytes 4 instr @ drop (unat offset + 4) code)
      else Inl OutOfBounds)"

fun link_confused_instructions :: "u64 \<Rightarrow> ref_inst_t list \<Rightarrow> u8 list \<Rightarrow> u8 list result" where
  "link_confused_instructions pos [] code = Inr code"
| "link_confused_instructions pos (ref_inst # ref_insts) code =
     (let fixup_offset = pos - inst_offset ref_inst
      in sbind (LoadInst code (ucast (inst_offset ref_inst))) (\<lambda>inst.
           let new_inst = (if link_type ref_inst = kLabelImm19 then encode_imm19_offset inst fixup_offset else 0)
           in sbind (RewriteInst code (ucast (inst_offset ref_inst)) new_inst) (\<lambda>code.
                link_confused_instructions pos ref_insts code)))"

definition bindLabel :: "RelocDataLabel \<Rightarrow> u8 list \<Rightarrow> (RelocDataLabel \<times> u8 list) result" where
  "bindLabel label code =
     (let label = bind_to (of_nat (length code)) label
      in sbind (link_confused_instructions (lb_pos label) (lb_ref_insts label) code) (\<lambda>code. Inr (label, code)))"

fun reloc_labels :: "RelocDataLabel list \<Rightarrow> u8 list \<Rightarrow> (RelocDataLabel list \<times> u8 list) result" where
  "reloc_labels [] code = Inr ([], code)"
| "reloc_labels (l # ls) code =
     sbind (bindLabel l code) (\<lambda>(l, code).
       sbind (reloc_labels ls (code @ le_bytes 8 (lb_data l))) (\<lambda>(ls, code). Inr (l # ls, code)))"

definition relocDataLabels :: "TurboAssembler \<Rightarrow> TurboAssembler result" where
  "relocDataLabels a =
     sbind (reloc_labels (asm_data_labels a) (asm_code a)) (\<lambda>(ls, code).
       Inr (a\<lparr>asm_data_labels := ls, asm_code := code\<rparr>))"

section \<open>Instructions\<close>

definition asm_nop :: "TurboAssembler \<Rightarrow> TurboAssembler" where
  "asm_nop = asm_Emit 0xD503201F"

definition asm_brk :: "u32 \<Rightarrow> TurboAssembler \<Rightarrow> TurboAssembler" where
  "asm_brk code = asm_Emit (ExceptionOp_value BRK OR LeftShift code 16 5)"

definition asm_ret :: "TurboAssembler \<Rightarrow> TurboAssembler" where
  "asm_ret = asm_Emit 0xD65F03C0"

definition asm_adrp :: "CPURegister \<Rightarrow> u64 \<Rightarrow> TurboAssembler \<Rightarrow> TurboAssembler" where
  "asm_adrp rd imm =
     (let immlo = LeftShift (ucast (c_bits (signed_drop_bit 12 imm) 0 1)) 2 29;
          immhi = LeftShift (ucast (c_bits (signed_drop_bit 12 imm) 2 20)) 19 5
      in asm_Emit (PCRelAddressingOp_value OP_ADRP OR f_Rd rd OR immlo OR immhi))"

definition asm_AddSubImmediate ::
  "CPURegister \<Rightarrow> CPURegister \<Rightarrow> Operand \<Rightarrow> u32 \<Rightarrow> TurboAssembler \<Rightarrow> TurboAssembler result" where
  "asm_AddSubImmediate rd rn operand op a =
     (if IsImmediate operand
      then let imm12 = ucast (LeftShift (op_immediate operand) 12 10)
           in Inr (asm_Emit (op OR f_Rd rd OR f_Rn rn OR imm12) a)
      else Inl Unreachable)"

definition asm_add :: "CPURegister \<Rightarrow> CPURegister \<Rightarrow> u64 \<Rightarrow> TurboAssembler \<Rightarrow> TurboAssembler result" where
  "asm_add rd rn imm =
     (if Is64Bits rd \<and> Is64Bits rn
      then asm_AddSubImmediate rd rn (Operand_imm imm) (AddSubImmediateOp_value ADD_x)
      else asm_AddSubImmediate rd rn (Operand_imm imm) (AddSubImmediateOp_value ADD_w))"

definition asm_adds :: "CPURegister \<Rightarrow> CPURegister \<Rightarrow> u64 \<Rightarrow> TurboAssembler \<Rightarrow> TurboAssembler result" where
  "asm_adds rd rn imm a = Inl Unreachable"

definition asm_sub :: "CPURegister \<Rightarrow> CPURegister \<Rightarrow> u64 \<Rightarrow> TurboAssembler \<Rightarrow> TurboAssembler result" where
  "asm_sub rd rn imm =
     (if Is64Bits rd \<and> Is64Bits rn
      then asm_AddSubImmediate rd rn (Operand_imm imm) (AddSubImmediateOp_value SUB_x)
      else asm_AddSubImmediate rd rn (Operand_imm imm) (AddSubImmediateOp_value SUB_w))"

definition asm_subs :: "CPURegister \<Rightarrow> CPURegister \<Rightarrow> u64 \<Rightarrow> TurboAssembler \<Rightarrow> TurboAssembler result" where
  "asm_subs rd rn imm a = Inl Unreachable"

definition asm_b :: "u64 \<Rightarrow> TurboAssembler \<Rightarrow> TurboAssembler" where
  "asm_b imm = (let imm26 = ucast (c_bits (signed_drop_bit 2 imm) 0 25)
                in asm_Emit (UnconditionalBranchOp_value OP_B OR imm26))"

definition asm_br :: "CPURegister \<Rightarrow> TurboAssembler \<Rightarrow> TurboAssembler" where
  "asm_br rn = asm_Emit (UnconditionalBranchToRegisterOp_value OP_BR OR f_Rn rn)"

definition asm_blr :: "CPURegister \<Rightarrow> TurboAssembler \<Rightarrow> TurboAssembler" where
  "asm_blr rn = asm_Emit (UnconditionalBranchToRegisterOp_value OP_BLR OR f_Rn rn)"

definition EmitLoadRegLiteral :: "LoadRegLiteralOp \<Rightarrow> CPURegister \<Rightarrow> u64 \<Rightarrow> TurboAssembler \<Rightarrow> TurboAssembler" where
  "EmitLoadRegLiteral op rt imm =
     asm_Emit (LoadRegLiteralOp_value op OR ucast (LeftShift (signed_drop_bit 2 imm) 26 5) OR f_Rt rt)"

fun literal_op :: "RegisterType \<Rightarrow> LoadRegLiteralOp result" where
  "literal_op kRegister_32 = Inr LDR_w_literal"
| "literal_op kRegister_64 = Inr LDR_x_literal"
| "literal_op kSIMD_FP_Register_32 = Inr LDR_s_literal"
| "literal_op kSIMD_FP_Register_64 = Inr LDR_d_literal"
| "literal_op kSIMD_FP_Register_128 = Inr LDR_q_literal"
| "literal_op _ = Inl Unreachable"

definition asm_ldr_literal :: "CPURegister \<Rightarrow> u64 \<Rightarrow> TurboAssembler \<Rightarrow> TurboAssembler result" where
  "asm_ldr_literal rt imm a = sbind (literal_op (reg_type rt)) (\<lambda>op. Inr (EmitLoadRegLiteral op rt imm a))"

definition asm_LoadStore :: "LoadStoreOp \<Rightarrow> CPURegister \<Rightarrow> MemOperand \<Rightarrow> TurboAssembler \<Rightarrow> TurboAssembler result" where
  "asm_LoadStore op rt addr a =
     (if IsImmediateOffset addr
      then let imm12 = signed_drop_bit (enc_scale (LoadStoreUnsignedOffsetFixed OR LoadStoreOp_value op)) (mo_offset addr)
           in Inr (asm_Emit (LoadStoreUnsignedOffsetFixed OR LoadStoreOp_value op
                             OR ucast (LeftShift imm12 12 10) OR f_Rn (mo_base addr) OR f_Rt rt) a)
      else if IsRegisterOffset addr then Inl Unreachable
      else Inl Unreachable)"

definition asm_ldr :: "CPURegister \<Rightarrow> MemOperand \<Rightarrow> TurboAssembler \<Rightarrow> TurboAssembler result" where
  "asm_ldr rt src = asm_LoadStore LDR_x rt src"

definition asm_str :: "CPURegister \<Rightarrow> MemOperand \<Rightarrow> TurboAssembler \<Rightarrow> TurboAssembler result" where
  "asm_str rt src = asm_LoadStore STR_x rt src"

definition asm_LoadStorePair ::
  "LoadStorePairOp \<Rightarrow> CPURegister \<Rightarrow> CPURegister \<Rightarrow> MemOperand \<Rightarrow> TurboAssembler \<Rightarrow> TurboAssembler" where
  "asm_LoadStorePair op rt rt2 addr =
     (let combine_fields_op = enc_LoadStorePair (LoadStorePairOp_value op) rt rt2 addr
            OR f_Rt2 rt2 OR f_Rn (mo_base addr) OR f_Rt rt;
          addrmodeop = (if IsImmediateOffset addr then LoadStorePairOffsetFixed
                        else if IsPreIndex addr then LoadStorePairPreIndexFixed
                        else LoadStorePairPostIndexFixed)
      in asm_Emit (LoadStorePairOp_value op OR addrmodeop OR combine_fields_op))"

definition asm_ldp :: "CPURegister \<Rightarrow> CPURegister \<Rightarrow> MemOperand \<Rightarrow> TurboAssembler \<Rightarrow> TurboAssembler result" where
  "asm_ldp rt rt2 src a =
     (if reg_type rt = kSIMD_FP_Register_128 then Inr (asm_LoadStorePair LDP_q rt rt2 src a)
      else if reg_type rt = kRegister_64 then Inr (asm_LoadStorePair LDP_x rt rt2 src a)
      else Inl Unreachable)"

definition asm_stp :: "CPURegister \<Rightarrow> CPURegister \<Rightarrow> MemOperand \<Rightarrow> TurboAssembler \<Rightarrow> TurboAssembler result" where
  "asm_stp rt rt2 dst a =
     (if reg_type rt = kSIMD_FP_Register_128 then Inr (asm_LoadStorePair STP_q rt rt2 dst a)
      else if reg_type rt = kRegister_64 then Inr (asm_LoadStorePair STP_x rt rt2 dst a)
      else Inl Unreachable)"

definition asm_LogicalImmediate :: "CPURegister \<Rightarrow> CPURegister \<Rightarrow> Operand \<Rightarrow> LogicalOp \<Rightarrow> TurboAssembler \<Rightarrow> TurboAssembler" where
  "asm_LogicalImmediate rd rn operand op =
     asm_Emit (LogicalOp_value op OR EncodeLogicalImmediate rd rn operand)"

definition asm_LogicalShift :: "CPURegister \<Rightarrow> CPURegister \<Rightarrow> Operand \<Rightarrow> LogicalOp \<Rightarrow> TurboAssembler \<Rightarrow> TurboAssembler" where
  "asm_LogicalShift rd rn operand op =
     asm_Emit (LogicalOp_value op OR LogicalShiftedFixed OR EncodeLogicalShift rd rn operand)"

definition asm_Logical :: "CPURegister \<Rightarrow> CPURegister \<Rightarrow> Operand \<Rightarrow> LogicalOp \<Rightarrow> TurboAssembler \<Rightarrow> TurboAssembler" where
  "asm_Logical rd rn operand op =
     (if IsImmediate operand then asm_LogicalImmediate rd rn operand op
      else asm_LogicalShift rd rn operand op)"

definition asm_orr :: "CPURegister \<Rightarrow> CPURegister \<Rightarrow> Operand \<Rightarrow> TurboAssembler \<Rightarrow> TurboAssembler" where
  "asm_orr rd rn operand = asm_Logical rd rn operand OP_ORR"

definition asm_mov :: "CPURegister \<Rightarrow> CPURegister \<Rightarrow> TurboAssembler \<Rightarrow> TurboAssembler result" where
  "asm_mov rd rn a =
     (if reg_Is rd reg_SP \<or> reg_Is rn reg_SP then asm_add rd rn 0 a
      else if Is64Bits rd then Inr (asm_orr rd reg_xzr (Operand_shifted rn LSL 0) a)
      else Inr (asm_orr rd reg_wzr (Operand_shifted rn LSL 0) a))"

definition MoveWide :: "CPURegister \<Rightarrow> u64 \<Rightarrow> int \<Rightarrow> MoveWideImmediateOp \<Rightarrow> TurboAssembler \<Rightarrow> TurboAssembler" where
  "MoveWide rd imm shift op =
     (let shift = (if shift > 0 then shift div 16 else 0);
          imm16 = ucast (LeftShift imm 16 5)
      in asm_Emit (MoveWideImmediateFixed OR MoveWideImmediateOp_value op OR enc_sf rd
                   OR LeftShift (word_of_int shift) 2 21 OR imm16 OR f_Rd rd))"

definition asm_movk :: "CPURegister \<Rightarrow> u64 \<Rightarrow> int \<Rightarrow> TurboAssembler \<Rightarrow> TurboAssembler" where
  "asm_movk rd imm shift = MoveWide rd imm shift OP_MOVK"

definition asm_movz :: "CPURegister \<Rightarrow> u64 \<Rightarrow> int \<Rightarrow> TurboAssembler \<Rightarrow> TurboAssembler" where
  "asm_movz rd imm shift = MoveWide rd imm shift OP_MOVZ"

section \<open>Macro instructions\<close>

definition asm_Ldr :: "CPURegister \<Rightarrow> nat \<Rightarrow> TurboAssembler \<Rightarrow> TurboAssembler result" where
  "asm_Ldr rt label a =
     (let pc = ucast (pc_offset a);
          a = a\<lparr>asm_data_labels := (asm_data_labels a)[label := link_to kLabelImm19 pc (asm_data_labels a ! label)]\<rparr>
      in asm_ldr_literal rt 0 a)"

definition asm_Mov :: "CPURegister \<Rightarrow> u64 \<Rightarrow> TurboAssembler \<Rightarrow> TurboAssembler" where
  "asm_Mov rd imm a =
     (let w0 = Low32Bits imm; w1 = High32Bits imm;
          h0 = Low16Bits w0; h1 = High16Bits w0; h2 = Low16Bits w1; h3 = High16Bits w1;
          a = asm_movz rd (ucast h0) 0 a;
          a = asm_movk rd (ucast h1) 16 a;
          a = asm_movk rd (ucast h2) 32 a
      in asm_movk rd (ucast h3) 48 a)"

definition asm_CallFunction :: "u64 \<Rightarrow> TurboAssembler \<Rightarrow> TurboAssembler" where
  "asm_CallFunction address a = asm_blr TMP_REG_0 (asm_Mov TMP_REG_0 address a)"

definition asm_AdrpAdd :: "CPURegister \<Rightarrow> u64 \<Rightarrow> u64 \<Rightarrow> TurboAssembler \<Rightarrow> TurboAssembler result" where
  "asm_AdrpAdd rd from to a =
     (let from_PAGE = ALIGN_FLOOR from 0x1000;
          to_PAGE = ALIGN_FLOOR to 0x1000;
          to_PAGEOFF = to mod 0x1000
      in asm_add rd rd to_PAGEOFF (asm_adrp rd (to_PAGE - from_PAGE) a))"

text \<open>\<^verbatim>\<open>CodeGen::LiteralLdrBranch\<close>.\<close>

definition LiteralLdrBranch :: "u64 \<Rightarrow> TurboAssembler \<Rightarrow> TurboAssembler result" where
  "LiteralLdrBranch address a =
     (let (label, a) = createDataLabel address a
      in sbind (asm_Ldr TMP_REG_0 label a) (\<lambda>a. Inr (asm_br TMP_REG_0 a)))"

end
