(* ===== verification/Arm64_Relocation.thy ===== *)
theory Arm64_Relocation
  imports Arm64_Assembler
begin

text \<open>
  Relocation of A64 code,
  \<^verbatim>\<open>source/InstructionRelocation/arm64/InstructionRelocationARM64.cc\<close>: the classes of
  PC-relative instructions, what each is rewritten to, the loop over the instructions of the origin
  block, and the placing of the result.  \<^verbatim>\<open>relo_ctx_t\<close> is its cursor, its origin block and
  the assembler it emits into.
\<close>

section \<open>Instruction classes\<close>

definition arm64_trunc_page :: "u64 \<Rightarrow> u64" where
  "arm64_trunc_page x = x AND NOT (0x1000 - 1)"

definition inst_is_b_bl :: "u32 \<Rightarrow> bool" where
  "inst_is_b_bl instr \<longleftrightarrow> instr AND UnconditionalBranchFixedMask = UnconditionalBranchFixed"

definition inst_is_ldr_literal :: "u32 \<Rightarrow> bool" where
  "inst_is_ldr_literal instr \<longleftrightarrow> instr AND LoadRegLiteralFixedMask = LoadRegLiteralFixed"

definition inst_is_adr :: "u32 \<Rightarrow> bool" where
  "inst_is_adr instr \<longleftrightarrow> instr AND PCRelAddressingFixedMask = PCRelAddressingFixed
     \<and> instr AND PCRelAddressingMask = PCRelAddressingOp_value OP_ADR"

definition inst_is_adrp :: "u32 \<Rightarrow> bool" where
  "inst_is_adrp instr \<longleftrightarrow> instr AND PCRelAddressingFixedMask = PCRelAddressingFixed
     \<and> instr AND PCRelAddressingMask = PCRelAddressingOp_value OP_ADRP"

definition inst_is_b_cond :: "u32 \<Rightarrow> bool" where
  "inst_is_b_cond instr \<longleftrightarrow> instr AND ConditionalBranchFixedMask = ConditionalBranchFixed"

definition inst_is_compare_b :: "u32 \<Rightarrow> bool" where
  "inst_is_compare_b instr \<longleftrightarrow> instr AND CompareBranchFixedMask = CompareBranchFixed"

definition inst_is_test_b :: "u32 \<Rightarrow> bool" where
  "inst_is_test_b instr \<longleftrightarrow> instr AND TestBranchFixedMask = TestBranchFixed"

section \<open>One instruction\<close>

text \<open>In each case \<open>cur\<close> is \<^verbatim>\<open>origin_cursor()\<close>, the address the instruction was at.\<close>

definition relo_b_bl :: "u64 \<Rightarrow> u32 \<Rightarrow> TurboAssembler \<Rightarrow> TurboAssembler result" where
  "relo_b_bl cur inst a =
     (let offset = decode_imm26_offset inst;
          dst = cur + offset;
          (dst_data_label, a) = createDataLabel dst a
      in sbind (asm_Ldr TMP_REG_0 dst_data_label a) (\<lambda>a.
           if inst AND UnconditionalBranchMask = UnconditionalBranchOp_value OP_BL
           then Inr (asm_blr TMP_REG_0 a) else Inr (asm_br TMP_REG_0 a)))"

definition relo_ldr_literal :: "u64 \<Rightarrow> u32 \<Rightarrow> TurboAssembler \<Rightarrow> TurboAssembler result" where
  "relo_ldr_literal cur inst a =
     (let offset = decode_imm19_offset inst;
          dst = cur + offset;
          rt = decode_rt inst;
          opc = c_bits inst 30 31;
          a = asm_Mov TMP_REG_0 dst a
      in if opc = 0b00 then asm_ldr (reg_W rt) (MemOperand_imm TMP_REG_0 0 Offset) a
         else if opc = 0b01 then asm_ldr (reg_X rt) (MemOperand_imm TMP_REG_0 0 Offset) a
         else Inl Unimplemented)"

definition relo_adr :: "u64 \<Rightarrow> u32 \<Rightarrow> TurboAssembler \<Rightarrow> TurboAssembler result" where
  "relo_adr cur inst a =
     (let offset = decode_immhi_immlo_offset inst;
          dst = cur + offset;
          rd = decode_rd inst
      in Inr (asm_Mov (reg_X rd) dst a))"

definition relo_adrp :: "u64 \<Rightarrow> u32 \<Rightarrow> TurboAssembler \<Rightarrow> TurboAssembler result" where
  "relo_adrp cur inst a =
     (let offset = decode_immhi_immlo_zero12_offset inst;
          dst = arm64_trunc_page (cur + offset);
          rd = decode_rd inst
      in Inr (asm_Mov (reg_X rd) dst a))"

text \<open>The three conditional branches: the inverted branch skips the long jump.\<close>

definition relo_b_cond :: "u64 \<Rightarrow> u32 \<Rightarrow> TurboAssembler \<Rightarrow> TurboAssembler result" where
  "relo_b_cond cur inst a =
     (let offset = decode_imm19_offset inst;
          dst = cur + offset;
          cond = c_bits inst 0 3 XOR 1;
          branch_inst = c_set_bits inst 0 3 cond;
          imm19 = drop_bit 2 (4 * 3);
          branch_inst = c_set_bits branch_inst 5 23 imm19;
          (dst_data_label, a) = createDataLabel dst a;
          a = asm_Emit branch_inst a
      in sbind (asm_Ldr TMP_REG_0 dst_data_label a) (\<lambda>a. Inr (asm_br TMP_REG_0 a)))"

definition relo_compare_b :: "u64 \<Rightarrow> u32 \<Rightarrow> TurboAssembler \<Rightarrow> TurboAssembler result" where
  "relo_compare_b cur inst a =
     (let offset = decode_imm19_offset inst;
          dst = cur + offset;
          op = c_bit inst 24 XOR 1;
          branch_inst = c_set_bit inst 24 op;
          imm19 = drop_bit 2 (4 * 3);
          branch_inst = c_set_bits branch_inst 5 23 imm19;
          (dst_data_label, a) = createDataLabel dst a;
          a = asm_Emit branch_inst a
      in sbind (asm_Ldr TMP_REG_0 dst_data_label a) (\<lambda>a. Inr (asm_br TMP_REG_0 a)))"

definition relo_test_b :: "u64 \<Rightarrow> u32 \<Rightarrow> TurboAssembler \<Rightarrow> TurboAssembler result" where
  "relo_test_b cur inst a =
     (let offset = decode_imm14_offset inst;
          dst = cur + offset;
          op = c_bit inst 24 XOR 1;
          branch_inst = c_set_bit inst 24 op;
          imm14 = drop_bit 2 (4 * 3);
          branch_inst = c_set_bits branch_inst 5 18 imm14;
          (dst_data_label, a) = createDataLabel dst a;
          a = asm_Emit branch_inst a
      in sbind (asm_Ldr TMP_REG_0 dst_data_label a) (\<lambda>a. Inr (asm_br TMP_REG_0 a)))"

definition relocate_inst :: "u64 \<Rightarrow> u32 \<Rightarrow> TurboAssembler \<Rightarrow> TurboAssembler result" where
  "relocate_inst cur inst a =
     (if inst_is_b_bl inst then relo_b_bl cur inst a
      else if inst_is_ldr_literal inst then relo_ldr_literal cur inst a
      else if inst_is_adr inst then relo_adr cur inst a
      else if inst_is_adrp inst then relo_adrp cur inst a
      else if inst_is_b_cond inst then relo_b_cond cur inst a
      else if inst_is_compare_b inst then relo_compare_b cur inst a
      else if inst_is_test_b inst then relo_test_b cur inst a
      else Inr (asm_Emit inst a))"

section \<open>The context and the loop\<close>

record relo_ctx_t =
  rc_cursor :: u64
  rc_origin :: MemRange
  rc_asm :: TurboAssembler

definition relo_ctx_new :: "MemRange \<Rightarrow> relo_ctx_t" where
  "relo_ctx_new origin = \<lparr>rc_cursor = range_addr origin, rc_origin = origin, rc_asm = TurboAssembler_new 0\<rparr>"

definition preferred_relo_size :: "relo_ctx_t \<Rightarrow> u32" where
  "preferred_relo_size ctx = ucast (rsize (rc_origin ctx))"

definition relo_size :: "relo_ctx_t \<Rightarrow> u32" where
  "relo_size ctx = ucast (rc_cursor ctx - range_addr (rc_origin ctx))"

definition correct_final_relo_size :: "relo_ctx_t \<Rightarrow> relo_ctx_t" where
  "correct_final_relo_size ctx = ctx\<lparr>rc_origin := range_resize (rc_origin ctx) (ucast (relo_size ctx))\<rparr>"

definition origin_cursor :: "relo_ctx_t \<Rightarrow> u64" where
  "origin_cursor ctx = range_addr (rc_origin ctx) + ucast (relo_size ctx)"

partial_function (option) relocate_arm64_loop :: "64 mem \<Rightarrow> relo_ctx_t \<Rightarrow> relo_ctx_t result option" where
  "relocate_arm64_loop m ctx =
     (if relo_size ctx < preferred_relo_size ctx
      then let inst = le_word (mem_read m (origin_cursor ctx) 4)
           in case relocate_inst (origin_cursor ctx) inst (rc_asm ctx) of
                Inl e \<Rightarrow> Some (Inl e)
              | Inr a \<Rightarrow> relocate_arm64_loop m (ctx\<lparr>rc_asm := a, rc_cursor := rc_cursor ctx + 4\<rparr>)
      else Some (Inr ctx))"

text \<open>
  \<^verbatim>\<open>relo_ctx_t::relocate\<close> up to the finished code: the origin block with its final size and
  the bytes to place.
\<close>

definition relocate_arm64_code :: "64 mem \<Rightarrow> MemRange \<Rightarrow> bool \<Rightarrow> (MemRange \<times> u8 list) result option" where
  "relocate_arm64_code m origin branch =
     (case relocate_arm64_loop m (relo_ctx_new origin) of
        None \<Rightarrow> None
      | Some r \<Rightarrow> Some (sbind r (\<lambda>ctx.
          let ctx = correct_final_relo_size ctx
          in sbind (if branch then LiteralLdrBranch (origin_cursor ctx) (rc_asm ctx) else Inr (rc_asm ctx)) (\<lambda>a.
               sbind (relocDataLabels a) (\<lambda>a. Inr (rc_origin ctx, asm_code a))))))"

definition GenRelocateCode_arm64 ::
  "('s, 'z) engine_scheme \<Rightarrow> MemRange \<Rightarrow> bool \<Rightarrow> 's \<Rightarrow> (MemRange \<times> MemRange \<times> 's) result option" where
  "GenRelocateCode_arm64 eng origin branch env =
     (case relocate_arm64_code (eng_mem eng env) origin branch of
        None \<Rightarrow> None
      | Some r \<Rightarrow> Some (sbind r (\<lambda>(origin, code).
          let (relocated, env) = FinalizeFromTurboAssembler eng 0 code env
          in Inr (origin, relocated, env))))"

definition GenRelocateCodeAndBranch_arm64 ::
  "('s, 'z) engine_scheme \<Rightarrow> MemRange \<Rightarrow> 's \<Rightarrow> (MemRange \<times> MemRange \<times> 's) result option" where
  "GenRelocateCodeAndBranch_arm64 eng origin env = GenRelocateCode_arm64 eng origin True env"

end
