(* ===== verification/Arm64_Semantics.thy ===== *)
theory Arm64_Semantics
  imports Arm64_Codec
begin

text \<open>
  A reference semantics of the A64 instructions the assembler emits and the relocator rewrites, after
  the instruction set manual and independent of the encoders: general registers, stack pointer,
  program counter, condition flags and memory.  Register 31 is the zero register, or the stack
  pointer where the manual says so.  An instruction outside this subset has no step.
\<close>

record a64 =
  a_gpr :: "nat \<Rightarrow> u64"
  a_sp :: u64
  a_pc :: u64
  a_nzcv :: "bool \<times> bool \<times> bool \<times> bool"
  a_mem :: "64 mem"

definition x_get :: "nat \<Rightarrow> a64 \<Rightarrow> u64" where
  "x_get r s = (if r = 31 then 0 else a_gpr s r)"

definition x_set :: "nat \<Rightarrow> u64 \<Rightarrow> a64 \<Rightarrow> a64" where
  "x_set r v s = (if r = 31 then s else s\<lparr>a_gpr := (a_gpr s)(r := v)\<rparr>)"

definition xsp_get :: "nat \<Rightarrow> a64 \<Rightarrow> u64" where
  "xsp_get r s = (if r = 31 then a_sp s else a_gpr s r)"

definition xsp_set :: "nat \<Rightarrow> u64 \<Rightarrow> a64 \<Rightarrow> a64" where
  "xsp_set r v s = (if r = 31 then s\<lparr>a_sp := v\<rparr> else s\<lparr>a_gpr := (a_gpr s)(r := v)\<rparr>)"

definition ifield :: "u32 \<Rightarrow> nat \<Rightarrow> nat \<Rightarrow> nat" where
  "ifield i lo n = unat (take_bit n (drop_bit lo i))"

definition ConditionHolds :: "nat \<Rightarrow> bool \<times> bool \<times> bool \<times> bool \<Rightarrow> bool" where
  "ConditionHolds cond nzcv =
     (case nzcv of (n, z, c, v) \<Rightarrow>
        let k = cond div 2;
            base = (if k = 0 then z else if k = 1 then c else if k = 2 then n else if k = 3 then v
                    else if k = 4 then c \<and> \<not> z else if k = 5 then n = v
                    else if k = 6 then n = v \<and> \<not> z else True)
        in if odd cond \<and> cond \<noteq> 15 then \<not> base else base)"

definition branch_if :: "bool \<Rightarrow> u64 \<Rightarrow> a64 \<Rightarrow> a64" where
  "branch_if b off s = s\<lparr>a_pc := a_pc s + (if b then off else 4)\<rparr>"

definition next_pc :: "a64 \<Rightarrow> a64" where
  "next_pc s = s\<lparr>a_pc := a_pc s + 4\<rparr>"

definition load64 :: "a64 \<Rightarrow> u64 \<Rightarrow> u64" where
  "load64 s a = le_word (mem_read (a_mem s) a 8)"

definition load32 :: "a64 \<Rightarrow> u64 \<Rightarrow> u32" where
  "load32 s a = le_word (mem_read (a_mem s) a 4)"

definition a64_branch :: "u32 \<Rightarrow> a64 \<Rightarrow> a64 option" where
  "a64_branch i s =
     (if i AND 0xFC000000 = 0x14000000 then Some (branch_if True (simm i 0 26 2) s)
      else if i AND 0xFC000000 = 0x94000000
      then Some (x_set 30 (a_pc s + 4) (branch_if True (simm i 0 26 2) s))
      else if i AND 0xFFFFFC1F = 0xD61F0000 then Some (s\<lparr>a_pc := x_get (ifield i 5 5) s\<rparr>)
      else if i AND 0xFFFFFC1F = 0xD63F0000
      then Some (x_set 30 (a_pc s + 4) (s\<lparr>a_pc := x_get (ifield i 5 5) s\<rparr>))
      else if i AND 0xFF000010 = 0x54000000
      then Some (branch_if (ConditionHolds (ifield i 0 4) (a_nzcv s)) (simm i 5 19 2) s)
      else if i AND 0x7E000000 = 0x34000000
      then (let r = x_get (ifield i 0 5) s; v = (if bit i 31 then r else take_bit 32 r)
            in Some (branch_if ((v = 0) = (\<not> bit i 24)) (simm i 5 19 2) s))
      else if i AND 0x7E000000 = 0x36000000
      then (let k = (if bit i 31 then 32 else 0) + ifield i 19 5
            in Some (branch_if (bit (x_get (ifield i 0 5) s) k = bit i 24) (simm i 5 14 2) s))
      else None)"

definition a64_data :: "u32 \<Rightarrow> a64 \<Rightarrow> a64 option" where
  "a64_data i s =
     (let rd = ifield i 0 5; rn = ifield i 5 5
      in if i AND 0x9F000000 = 0x10000000 then Some (next_pc (x_set rd (a_pc s + adr_imm i) s))
         else if i AND 0x9F000000 = 0x90000000
         then Some (next_pc (x_set rd ((a_pc s AND NOT (mask 12)) + push_bit 12 (adr_imm i)) s))
         else if i AND 0xFF000000 = 0x58000000
         then Some (next_pc (x_set rd (load64 s (a_pc s + simm i 5 19 2)) s))
         else if i AND 0xFF000000 = 0x18000000
         then Some (next_pc (x_set rd (ucast (load32 s (a_pc s + simm i 5 19 2))) s))
         else if i AND 0xFFC00000 = 0xF9400000
         then Some (next_pc (x_set rd (load64 s (xsp_get rn s + 8 * of_nat (ifield i 10 12))) s))
         else if i AND 0xFF800000 = 0xD2800000
         then Some (next_pc (x_set rd (push_bit (16 * ifield i 21 2) (of_nat (ifield i 5 16))) s))
         else if i AND 0xFF800000 = 0xF2800000
         then (let sh = 16 * ifield i 21 2
               in Some (next_pc (x_set rd ((x_get rd s AND NOT (push_bit sh (mask 16)))
                                           OR push_bit sh (of_nat (ifield i 5 16))) s)))
         else if i AND 0xFFC00000 = 0x91000000
         then Some (next_pc (xsp_set rd (xsp_get rn s + of_nat (ifield i 10 12)) s))
         else None)"

definition a64_exec :: "u32 \<Rightarrow> a64 \<Rightarrow> a64 option" where
  "a64_exec i s = (case a64_branch i s of Some t \<Rightarrow> Some t | None \<Rightarrow> a64_data i s)"

definition a64_step :: "a64 \<Rightarrow> a64 option" where
  "a64_step s = a64_exec (load32 s (a_pc s)) s"

fun a64_steps :: "nat \<Rightarrow> a64 \<Rightarrow> a64 option" where
  "a64_steps 0 s = Some s"
| "a64_steps (Suc n) s = (case a64_step s of None \<Rightarrow> None | Some t \<Rightarrow> a64_steps n t)"

lemma a64_steps_numeral [simp]:
  "a64_steps (numeral k) s = (case a64_step s of None \<Rightarrow> None | Some t \<Rightarrow> a64_steps (pred_numeral k) t)"
  by (simp add: numeral_eq_Suc)

lemma a64_steps_one [simp]: "a64_steps (Suc 0) s = a64_step s"
  by (simp split: option.splits)

section \<open>Decoding\<close>

text \<open>An instruction word known under one mask differs from a pattern under another.\<close>

lemma mask_excl:
  assumes "(x :: u32) AND m1 = v" and "v AND m2 \<noteq> c AND m1"
  shows "(x AND m2 = c) = False"
proof -
  have "x AND m2 = c \<Longrightarrow> v AND m2 = c AND m1"
    using assms(1) by (metis and.assoc and.commute)
  then show ?thesis using assms(2) by blast
qed

lemma exec_b: "i AND 0xFC000000 = 0x14000000 \<Longrightarrow> a64_exec i s = Some (branch_if True (simm i 0 26 2) s)"
  by (simp add: a64_exec_def a64_branch_def)

lemma exec_bl:
  "i AND 0xFC000000 = 0x94000000 \<Longrightarrow>
     a64_exec i s = Some (x_set 30 (a_pc s + 4) (branch_if True (simm i 0 26 2) s))"
  by (simp add: a64_exec_def a64_branch_def)

lemma exec_bcond:
  assumes "i AND 0xFF000010 = 0x54000000"
  shows "a64_exec i s = Some (branch_if (ConditionHolds (ifield i 0 4) (a_nzcv s)) (simm i 5 19 2) s)"
  by (simp add: a64_exec_def a64_branch_def mask_excl[OF assms] assms)

lemma exec_cb:
  assumes "i AND 0x7E000000 = 0x34000000"
  shows "a64_exec i s = Some (branch_if
    (((if bit i 31 then x_get (ifield i 0 5) s else take_bit 32 (x_get (ifield i 0 5) s)) = 0) = (\<not> bit i 24))
    (simm i 5 19 2) s)"
  by (simp add: a64_exec_def a64_branch_def mask_excl[OF assms] assms Let_def)

lemma exec_tb:
  assumes "i AND 0x7E000000 = 0x36000000"
  shows "a64_exec i s = Some (branch_if
    (bit (x_get (ifield i 0 5) s) ((if bit i 31 then 32 else 0) + ifield i 19 5) = bit i 24) (simm i 5 14 2) s)"
  by (simp add: a64_exec_def a64_branch_def mask_excl[OF assms] assms Let_def)

lemma exec_ldr_literal:
  assumes "i AND 0xFF000000 = 0x58000000"
  shows "a64_exec i s = Some (next_pc (x_set (ifield i 0 5) (load64 s (a_pc s + simm i 5 19 2)) s))"
  by (simp add: a64_exec_def a64_branch_def a64_data_def mask_excl[OF assms] assms Let_def)

lemma exec_ldr_literal_w:
  assumes "i AND 0xFF000000 = 0x18000000"
  shows "a64_exec i s = Some (next_pc (x_set (ifield i 0 5) (ucast (load32 s (a_pc s + simm i 5 19 2))) s))"
  by (simp add: a64_exec_def a64_branch_def a64_data_def mask_excl[OF assms] assms Let_def)

lemma exec_adr:
  assumes "i AND 0x9F000000 = 0x10000000"
  shows "a64_exec i s = Some (next_pc (x_set (ifield i 0 5) (a_pc s + adr_imm i) s))"
  by (simp add: a64_exec_def a64_branch_def a64_data_def mask_excl[OF assms] assms Let_def)

lemma exec_adrp:
  assumes "i AND 0x9F000000 = 0x90000000"
  shows "a64_exec i s = Some (next_pc (x_set (ifield i 0 5) ((a_pc s AND NOT (mask 12)) + push_bit 12 (adr_imm i)) s))"
  by (simp add: a64_exec_def a64_branch_def a64_data_def mask_excl[OF assms] assms Let_def)

lemma exec_ldr:
  assumes "i AND 0xFFC00000 = 0xF9400000"
  shows "a64_exec i s = Some (next_pc (x_set (ifield i 0 5)
    (load64 s (xsp_get (ifield i 5 5) s + 8 * of_nat (ifield i 10 12))) s))"
  by (simp add: a64_exec_def a64_branch_def a64_data_def mask_excl[OF assms] assms Let_def)

lemma exec_movz:
  assumes "i AND 0xFF800000 = 0xD2800000"
  shows "a64_exec i s = Some (next_pc (x_set (ifield i 0 5) (push_bit (16 * ifield i 21 2) (of_nat (ifield i 5 16))) s))"
  by (simp add: a64_exec_def a64_branch_def a64_data_def mask_excl[OF assms] assms Let_def)

lemma exec_movk:
  assumes "i AND 0xFF800000 = 0xF2800000"
  shows "a64_exec i s = Some (next_pc (x_set (ifield i 0 5)
    ((x_get (ifield i 0 5) s AND NOT (push_bit (16 * ifield i 21 2) (mask 16)))
     OR push_bit (16 * ifield i 21 2) (of_nat (ifield i 5 16))) s))"
  by (simp add: a64_exec_def a64_branch_def a64_data_def mask_excl[OF assms] assms Let_def)

lemma exec_add:
  assumes "i AND 0xFFC00000 = 0x91000000"
  shows "a64_exec i s = Some (next_pc (xsp_set (ifield i 0 5) (xsp_get (ifield i 5 5) s + of_nat (ifield i 10 12)) s))"
  by (simp add: a64_exec_def a64_branch_def a64_data_def mask_excl[OF assms] assms Let_def)

text \<open>Words composed of a constant and fields.\<close>

lemma field_and_mask:
  assumes "take_bit k (drop_bit p m) = 0"
  shows "push_bit p (take_bit k x) AND m = (0 :: u32)"
proof (rule bit_word_eqI)
  fix n
  have "\<not> bit m n" if "p \<le> n" "n - p < k" "n < 32"
    using arg_cong[OF assms, of "\<lambda>w. bit w (n - p)"] that by (simp add: bit_simps)
  then show "bit (push_bit p (take_bit k x) AND m) n = bit (0 :: u32) n" if "n < LENGTH(32)"
    using that by (auto simp: bit_simps)
qed

lemma low_field_and_mask: "take_bit k m = 0 \<Longrightarrow> take_bit k x AND m = (0 :: u32)"
  using field_and_mask[of k 0 m x] by simp

lemma field_outside:
  "p + k \<le> lo \<or> lo + n \<le> p \<Longrightarrow> take_bit n (drop_bit lo (push_bit p (take_bit k x))) = (0 :: u32)"
  by (rule bit_word_eqI) (auto simp: bit_simps)

lemma field_same:
  "p + k \<le> 32 \<Longrightarrow> take_bit k (drop_bit p (push_bit p (take_bit k x))) = (take_bit k x :: u32)"
  by (rule bit_word_eqI) (auto simp: bit_simps)

lemma low_field_outside: "k \<le> lo \<Longrightarrow> take_bit n (drop_bit lo (take_bit k x)) = (0 :: u32)"
  by (rule bit_word_eqI) (auto simp: bit_simps)

text \<open>Two words that agree on the bits from \<open>lo\<close> on agree under a mask of such bits.\<close>

lemma high_mask_cong:
  assumes "take_bit lo m = 0" and "\<And>k. lo \<le> k \<Longrightarrow> k < 32 \<Longrightarrow> bit m k \<Longrightarrow> bit x k = bit y k"
  shows "x AND m = (y AND m :: u32)"
proof (rule bit_word_eqI)
  fix n assume n: "n < LENGTH(32)"
  have "lo \<le> n" if "bit m n"
    using arg_cong[OF assms(1), of "\<lambda>w. bit w n"] that n by (auto simp: bit_simps not_le)
  then show "bit (x AND m) n = bit (y AND m) n"
    using assms(2)[of n] n by (auto simp: bit_simps)
qed

lemma take_bit_cong:
  "(\<And>k. k < n \<Longrightarrow> k < 32 \<Longrightarrow> bit x k = bit y k) \<Longrightarrow> take_bit n x = (take_bit n y :: u32)"
  by (rule bit_word_eqI) (auto simp: bit_take_bit_iff)

lemma low_bits_clear:
  assumes "take_bit m b = (0 :: u32)" and "lo + n \<le> m"
  shows "take_bit n (drop_bit lo b) = 0"
proof (rule bit_word_eqI)
  fix k
  show "bit (take_bit n (drop_bit lo b)) k = bit (0 :: u32) k" if "k < LENGTH(32)"
    using arg_cong[OF assms(1), of "\<lambda>w. bit w (lo + k)"] assms(2) by (auto simp: bit_simps)
qed

end
