(* ===== verification/Arm64_Relocation_Proofs.thy ===== *)
theory Arm64_Relocation_Proofs
  imports Arm64_Relocation Arm64_Semantics
begin

text \<open>
  Correctness of the A64 assembler's macros and of the A64 relocator.  The code is first abstracted
  to a list of instruction words with the literals they refer to; the label machinery is shown to
  link every literal load to its data; then each class of relocated instruction is executed in the
  reference semantics.
\<close>

section \<open>Code as instruction words\<close>

definition wcode :: "u32 list \<Rightarrow> u8 list" where
  "wcode ws = concat (map (le_bytes 4) ws)"

definition dcode :: "u64 list \<Rightarrow> u8 list" where
  "dcode ds = concat (map (le_bytes 8) ds)"

lemma wcode_simps [simp]:
  "wcode [] = []" "wcode (w # ws) = le_bytes 4 w @ wcode ws" "wcode (ws @ vs) = wcode ws @ wcode vs"
  by (simp_all add: wcode_def)

lemma dcode_simps [simp]:
  "dcode [] = []" "dcode (d # ds) = le_bytes 8 d @ dcode ds" "dcode (ds @ es) = dcode ds @ dcode es"
  by (simp_all add: dcode_def)

lemma length_wcode [simp]: "length (wcode ws) = 4 * length ws"
  by (induction ws) auto

lemma length_dcode [simp]: "length (dcode ds) = 8 * length ds"
  by (induction ds) auto

lemma wcode_split:
  assumes "k < length ws"
  shows "wcode ws = wcode (take k ws) @ le_bytes 4 (ws ! k) @ wcode (drop (Suc k) ws)"
proof -
  have "ws = take k ws @ ws ! k # drop (Suc k) ws"
    using assms by (rule id_take_nth_drop)
  then have "wcode ws = wcode (take k ws @ ws ! k # drop (Suc k) ws)"
    by (rule arg_cong)
  then show ?thesis
    by (simp only: wcode_simps)
qed

lemma wcode_nth:
  assumes "k < length ws"
  shows "take 4 (drop (4 * k) (wcode ws @ r)) = le_bytes 4 (ws ! k)"
proof -
  have "length (wcode (take k ws)) = 4 * k"
    using assms by simp
  then show ?thesis
    by (subst wcode_split[OF assms]) simp
qed

lemma wcode_update:
  assumes "k < length ws"
  shows "take (4 * k) (wcode ws @ r) @ le_bytes 4 w @ drop (4 * k + 4) (wcode ws @ r) = wcode (ws[k := w]) @ r"
proof -
  have len: "length (wcode (take k ws)) = 4 * k"
    using assms by simp
  have upd: "wcode (ws[k := w]) = wcode (take k ws) @ le_bytes 4 w @ wcode (drop (Suc k) ws)"
    using assms by (simp add: upd_conv_take_nth_drop)
  show ?thesis
    unfolding upd using assms by (subst (1 2) wcode_split[OF assms]) (simp add: min_def)
qed

lemma dcode_nth:
  assumes "j < length ds"
  shows "take 8 (drop (8 * j) (dcode ds)) = le_bytes 8 (ds ! j)"
  using assms
proof (induction ds arbitrary: j)
  case (Cons d ds)
  then show ?case by (cases j) auto
qed simp

lemma LoadInst_word:
  assumes "k < length ws" and "4 * length ws \<le> 2 ^ 31"
  shows "LoadInst (wcode ws @ r) (of_nat (4 * k)) = Inr (ws ! k)"
proof -
  have "unat (of_nat (4 * k) :: u32) = 4 * k"
    using assms by (intro unat_of_nat_small) simp
  then show ?thesis
    using assms wcode_nth[OF assms(1), of r] by (simp add: LoadInst_def)
qed

lemma RewriteInst_word:
  assumes "k < length ws" and "4 * length ws \<le> 2 ^ 31"
  shows "RewriteInst (wcode ws @ r) (of_nat (4 * k)) w = Inr (wcode (ws[k := w]) @ r)"
proof -
  have "unat (of_nat (4 * k) :: u32) = 4 * k"
    using assms by (intro unat_of_nat_small) simp
  then show ?thesis
    using assms wcode_update[OF assms(1), of r w] by (simp add: RewriteInst_def)
qed

section \<open>Linking of literals\<close>

text \<open>A label created and referred to once, by the word \<open>k\<close>.\<close>

definition lab :: "nat \<times> u64 \<Rightarrow> RelocDataLabel" where
  "lab kd = \<lparr>lb_pos = 0, lb_ref_insts = [\<lparr>link_type = kLabelImm19, inst_offset = of_nat (4 * fst kd)\<rparr>],
             lb_data = snd kd\<rparr>"

text \<open>The words after their literals, which start at byte \<open>p\<close>, are linked.\<close>

fun linked :: "u32 list \<Rightarrow> nat \<Rightarrow> (nat \<times> u64) list \<Rightarrow> u32 list" where
  "linked ws p [] = ws"
| "linked ws p ((k, d) # ds) =
     linked (ws[k := encode_imm19_offset (ws ! k) (of_nat p - of_nat (4 * k))]) (p + 8) ds"

lemma length_linked [simp]: "length (linked ws p ds) = length ws"
  by (induction ws p ds rule: linked.induct) auto

lemma linked_other: "i \<notin> fst ` set ds \<Longrightarrow> linked ws p ds ! i = ws ! i"
  by (induction ws p ds rule: linked.induct) auto

lemma linked_nth:
  assumes "distinct (map fst ds)" and "j < length ds" and "fst (ds ! j) < length ws"
  shows "linked ws p ds ! fst (ds ! j) =
    encode_imm19_offset (ws ! fst (ds ! j)) (of_nat (p + 8 * j) - of_nat (4 * fst (ds ! j)))"
  using assms
proof (induction ws p ds arbitrary: j rule: linked.induct)
  case (2 ws p k d ds)
  show ?case
  proof (cases j)
    case 0
    with 2 show ?thesis by (simp add: linked_other)
  next
    case (Suc i)
    with 2(2) have "fst (ds ! i) \<noteq> k"
      using 2(3) nth_mem[of i ds] by auto
    with Suc 2 show ?thesis by (simp add: algebra_simps)
  qed
qed simp

lemma reloc_labels_linked:
  assumes "\<forall>kd \<in> set ds. fst kd < length ws" and "4 * length ws \<le> 2 ^ 31"
  shows "\<exists>ls. reloc_labels (map lab ds) (wcode ws @ r) =
    Inr (ls, wcode (linked ws (4 * length ws + length r) ds) @ r @ dcode (map snd ds))"
  using assms
proof (induction ds arbitrary: ws r)
  case (Cons kd ds)
  obtain k d where kd: "kd = (k, d)" by (cases kd)
  let ?p = "4 * length ws + length r"
  let ?w = "encode_imm19_offset (ws ! k) (of_nat ?p - of_nat (4 * k))"
  let ?l = "(lab kd)\<lparr>lb_pos := of_nat ?p\<rparr>"
  have k: "k < length ws"
    using Cons.prems(1) kd by simp
  have uc: "ucast (of_nat (4 * k) :: u64) = (of_nat (4 * k) :: u32)"
    by (rule ucast_of_nat_down) simp
  have refs: "lb_ref_insts ?l = [\<lparr>link_type = kLabelImm19, inst_offset = of_nat (4 * k)\<rparr>]" "lb_pos ?l = of_nat ?p"
    "lb_data ?l = d"
    by (simp_all add: lab_def kd)
  have bind: "bindLabel (lab kd) (wcode ws @ r) = Inr (?l, wcode (ws[k := ?w]) @ r)"
    unfolding bindLabel_def Let_def bind_to_def length_append length_wcode refs
    using LoadInst_word[OF k Cons.prems(2), of r] RewriteInst_word[OF k Cons.prems(2), of r ?w]
    by (simp only: link_confused_instructions.simps Let_def ref_inst_t.simps uc sbind_simps simp_thms if_True)
  obtain ls where "reloc_labels (map lab ds) (wcode (ws[k := ?w]) @ (r @ le_bytes 8 d)) =
      Inr (ls, wcode (linked (ws[k := ?w]) (4 * length (ws[k := ?w]) + length (r @ le_bytes 8 d)) ds)
        @ (r @ le_bytes 8 d) @ dcode (map snd ds))"
    using Cons.IH[of "ws[k := ?w]" "r @ le_bytes 8 d"] Cons.prems by auto
  then have "reloc_labels (map lab (kd # ds)) (wcode ws @ r) =
      Inr (?l # ls, wcode (linked ws ?p (kd # ds)) @ r @ dcode (map snd (kd # ds)))"
    by (simp only: list.map reloc_labels.simps bind[unfolded kd] sbind_simps split_conv refs[unfolded kd] kd linked.simps dcode_simps
        append_assoc length_append length_list_update length_le_bytes add.assoc snd_conv)
  then show ?case by blast
qed simp

section \<open>What each instruction is rewritten to\<close>

abbreviation ldr17 :: u32 where "ldr17 \<equiv> 0x58000011"

abbreviation br17 :: u32 where "br17 \<equiv> 0xD61F0220"

abbreviation blr17 :: u32 where "blr17 \<equiv> 0xD63F0220"

definition mov_word :: "u32 \<Rightarrow> u32 \<Rightarrow> u64 \<Rightarrow> nat \<Rightarrow> u32" where
  "mov_word base r imm k = base OR push_bit 5 (take_bit 16 (ucast (drop_bit (16 * k) imm))) OR r"

definition mov_words :: "u32 \<Rightarrow> u64 \<Rightarrow> u32 list" where
  "mov_words r imm = [mov_word 0xD2800000 r imm 0, mov_word 0xF2A00000 r imm 1,
                      mov_word 0xF2C00000 r imm 2, mov_word 0xF2E00000 r imm 3]"

text \<open>
  The words of one relocated instruction, with the literals they load: the index of the loading
  word, and the value.
\<close>

definition chunk :: "u64 \<Rightarrow> u32 \<Rightarrow> (u32 list \<times> (nat \<times> u64) list) result" where
  "chunk cur i =
     (if inst_is_b_bl i
      then Inr ([ldr17, if i AND 0xFC000000 = 0x94000000 then blr17 else br17], [(0, cur + simm i 0 26 2)])
      else if inst_is_ldr_literal i
      then (if take_bit 2 (drop_bit 30 i) = 0 \<or> take_bit 2 (drop_bit 30 i) = 1
            then Inr (mov_words 17 (cur + simm i 5 19 2) @ [0xF9400220 OR take_bit 5 i], [])
            else Inl Unimplemented)
      else if inst_is_adr i then Inr (mov_words (take_bit 5 i) (cur + adr_imm i), [])
      else if inst_is_adrp i
      then Inr (mov_words (take_bit 5 i) (arm64_trunc_page (cur + push_bit 12 (adr_imm i))), [])
      else if inst_is_b_cond i
      then Inr ([c_set_bits (c_set_bits i 0 3 (c_bits i 0 3 XOR 1)) 5 23 3, ldr17, br17],
                [(1, cur + simm i 5 19 2)])
      else if inst_is_compare_b i
      then Inr ([c_set_bits (c_set_bit i 24 (c_bit i 24 XOR 1)) 5 23 3, ldr17, br17], [(1, cur + simm i 5 19 2)])
      else if inst_is_test_b i
      then Inr ([c_set_bits (c_set_bit i 24 (c_bit i 24 XOR 1)) 5 18 3, ldr17, br17], [(1, cur + simm i 5 14 2)])
      else Inr ([i], []))"

definition asm_abs :: "TurboAssembler \<Rightarrow> u32 list \<Rightarrow> (nat \<times> u64) list \<Rightarrow> bool" where
  "asm_abs a ws ds \<longleftrightarrow> asm_code a = wcode ws \<and> asm_data_labels a = map lab ds \<and> 4 * length ws < 2 ^ 32"

lemma asm_Emit_code: "asm_Emit w a = a\<lparr>asm_code := asm_code a @ le_bytes 4 w\<rparr>"
  by (simp add: asm_Emit_def emit_bytes_def)

lemma br17_emits: "asm_br TMP_REG_0 a = asm_Emit br17 a" "asm_blr TMP_REG_0 a = asm_Emit blr17 a"
  by (simp_all add: asm_br_def asm_blr_def TMP_REG_0_def reg_X_def f_Rn_def reg_code_def kRnShift_def
      UnconditionalBranchToRegisterFixed_def)

lemma ldr17_emits: "asm_ldr_literal TMP_REG_0 0 a = Inr (asm_Emit ldr17 a)"
  by (simp add: asm_ldr_literal_def TMP_REG_0_def reg_X_def EmitLoadRegLiteral_def f_Rt_def reg_code_def
      kRtShift_def LoadRegLiteralSub_def LoadRegLiteralFixed_def LeftShift_def)

text \<open>Loading from the label created last.\<close>

lemma asm_Ldr_abs:
  assumes "asm_code a = wcode ws" and "asm_data_labels a = map lab ds @ [label_new d]"
    and "4 * length ws + 4 < 2 ^ 32"
  shows "\<exists>a'. asm_Ldr TMP_REG_0 (length ds) a = Inr a' \<and> asm_abs a' (ws @ [ldr17]) (ds @ [(length ws, d)])
    \<and> asm_fixed_addr a' = asm_fixed_addr a"
proof -
  have "ucast (ucast (of_nat (4 * length ws) :: u64) :: u32) = (of_nat (4 * length ws) :: u64)"
    using assms(3) by (intro ucast_of_nat_up_down) simp
  then have lk: "link_to kLabelImm19 (ucast (pc_offset a)) (label_new d) = lab (length ws, d)"
    by (simp add: link_to_def label_new_def lab_def pc_offset_def assms(1))
  show ?thesis
    using assms lk by (simp add: asm_Ldr_def Let_def ldr17_emits asm_Emit_code asm_abs_def nth_append
        list_update_append)
qed

lemma MoveWide_emits:
  "asm_movz (reg_X r) (ucast (h :: u16)) 0 a = asm_Emit (0xD2800000 OR push_bit 5 (ucast h) OR r) a"
  "asm_movk (reg_X r) (ucast h) 16 a = asm_Emit (0xF2A00000 OR push_bit 5 (ucast h) OR r) a"
  "asm_movk (reg_X r) (ucast h) 32 a = asm_Emit (0xF2C00000 OR push_bit 5 (ucast h) OR r) a"
  "asm_movk (reg_X r) (ucast h) 48 a = asm_Emit (0xF2E00000 OR push_bit 5 (ucast h) OR r) a"
proof -
  have "ucast (LeftShift (ucast h :: u64) 16 5) = push_bit 5 (ucast h :: u32)"
    by (rule bit_word_eqI) (auto simp: LeftShift_eq bit_simps dest: bit_imp_le_length)
  then show
    "asm_movz (reg_X r) (ucast h) 0 a = asm_Emit (0xD2800000 OR push_bit 5 (ucast h) OR r) a"
    "asm_movk (reg_X r) (ucast h) 16 a = asm_Emit (0xF2A00000 OR push_bit 5 (ucast h) OR r) a"
    "asm_movk (reg_X r) (ucast h) 32 a = asm_Emit (0xF2C00000 OR push_bit 5 (ucast h) OR r) a"
    "asm_movk (reg_X r) (ucast h) 48 a = asm_Emit (0xF2E00000 OR push_bit 5 (ucast h) OR r) a"
    by (simp_all add: asm_movz_def asm_movk_def MoveWide_def Let_def MoveWideImmediateFixed_def enc_sf_def
        Is64Bits_def reg_X_def f_Rd_def kRdShift_def reg_code_def LeftShift_def flip: or.assoc)
qed

lemma halfwords:
  "ucast (Low16Bits (Low32Bits imm)) = (take_bit 16 (ucast (drop_bit (16 * 0) imm)) :: u32)"
  "ucast (High16Bits (Low32Bits imm)) = (take_bit 16 (ucast (drop_bit (16 * 1) imm)) :: u32)"
  "ucast (Low16Bits (High32Bits imm)) = (take_bit 16 (ucast (drop_bit (16 * 2) imm)) :: u32)"
  "ucast (High16Bits (High32Bits imm)) = (take_bit 16 (ucast (drop_bit (16 * 3) imm)) :: u32)"
proof -
  have m: "(0xffff :: u32) = mask 16"
    by (simp add: mask_eq_exp_minus_1)
  show
    "ucast (Low16Bits (Low32Bits imm)) = (take_bit 16 (ucast (drop_bit (16 * 0) imm)) :: u32)"
    "ucast (High16Bits (Low32Bits imm)) = (take_bit 16 (ucast (drop_bit (16 * 1) imm)) :: u32)"
    "ucast (Low16Bits (High32Bits imm)) = (take_bit 16 (ucast (drop_bit (16 * 2) imm)) :: u32)"
    "ucast (High16Bits (High32Bits imm)) = (take_bit 16 (ucast (drop_bit (16 * 3) imm)) :: u32)"
    by (rule bit_word_eqI;
        auto simp: Low16Bits_def High16Bits_def Low32Bits_def High32Bits_def bit_simps m
          simp del: push_bit_eq_mult)+
qed

lemma mov_emits: "asm_Mov (reg_X r) imm a = a\<lparr>asm_code := asm_code a @ wcode (mov_words r imm)\<rparr>"
  unfolding asm_Mov_def Let_def MoveWide_emits halfwords mov_words_def mov_word_def asm_Emit_code
  by simp

lemma ldr_emits:
  assumes "reg_id rt = r"
  shows "asm_ldr rt (MemOperand_imm TMP_REG_0 0 Offset) a = Inr (asm_Emit (0xF9400220 OR r) a)"
  using assms
  by (simp add: asm_ldr_def asm_LoadStore_def MemOperand_imm_def IsImmediateOffset_def Let_def f_Rn_def f_Rt_def
      TMP_REG_0_def reg_X_def reg_code_def kRnShift_def kRtShift_def LoadStoreUnsignedOffsetFixed_def
      LoadStoreOp_value_def LoadStoreOpSub_def LeftShift_def flip: or.assoc)

lemma asm_abs_Emit: "asm_abs a ws ds \<Longrightarrow> 4 * length ws + 4 < 2 ^ 32 \<Longrightarrow> asm_abs (asm_Emit w a) (ws @ [w]) ds"
  by (simp add: asm_abs_def asm_Emit_code)

lemma asm_abs_words:
  "asm_abs a ws ds \<Longrightarrow> 4 * (length ws + length vs) < 2 ^ 32 \<Longrightarrow>
     asm_abs (a\<lparr>asm_code := asm_code a @ wcode vs\<rparr>) (ws @ vs) ds"
  by (simp add: asm_abs_def)

lemma Ldr_after:
  assumes "asm_abs a ws ds" and "4 * (length ws + length vs) + 4 < 2 ^ 32"
    and "createDataLabel d a = (l, a1)" and "a2 = a1\<lparr>asm_code := asm_code a1 @ wcode vs\<rparr>"
  shows "\<exists>a'. asm_Ldr TMP_REG_0 l a2 = Inr a' \<and> asm_abs a' (ws @ vs @ [ldr17]) (ds @ [(length ws + length vs, d)])"
  using asm_Ldr_abs[of a2 "ws @ vs" ds d] assms by (auto simp: asm_abs_def createDataLabel_def)

text \<open>A relocation step adds the words \<open>vs\<close> and the literals \<open>rs\<close>.\<close>

definition adds :: "TurboAssembler result \<Rightarrow> u32 list \<Rightarrow> (nat \<times> u64) list \<Rightarrow> u32 list \<times> (nat \<times> u64) list \<Rightarrow> bool" where
  "adds r ws ds c \<longleftrightarrow>
     (\<exists>a. r = Inr a \<and> asm_abs a (ws @ fst c) (ds @ map (\<lambda>kd. (length ws + fst kd, snd kd)) (snd c)))"

lemma long_jump_adds:
  assumes "asm_abs a ws ds" and "4 * length ws + 32 < 2 ^ 32" and "length vs \<le> 1"
    and "w = br17 \<or> w = blr17"
  shows "adds (case createDataLabel d a of (l, a1) \<Rightarrow>
             sbind (asm_Ldr TMP_REG_0 l (a1\<lparr>asm_code := asm_code a1 @ wcode vs\<rparr>)) (\<lambda>a. Inr (asm_Emit w a)))
           ws ds (vs @ [ldr17, w], [(length vs, d)])"
proof -
  obtain l a1 where c: "createDataLabel d a = (l, a1)" by (cases "createDataLabel d a")
  obtain a' where a': "asm_Ldr TMP_REG_0 l (a1\<lparr>asm_code := asm_code a1 @ wcode vs\<rparr>) = Inr a'"
    "asm_abs a' (ws @ vs @ [ldr17]) (ds @ [(length ws + length vs, d)])"
    using Ldr_after[OF assms(1) _ c refl, of vs] assms by auto
  then have "asm_abs (asm_Emit w a') ((ws @ vs @ [ldr17]) @ [w]) (ds @ [(length ws + length vs, d)])"
    using assms by (intro asm_abs_Emit) auto
  with a' c show ?thesis by (simp add: adds_def)
qed

lemma mov_adds:
  assumes "asm_abs a ws ds" and "4 * length ws + 32 < 2 ^ 32"
  shows "adds (Inr (asm_Mov (reg_X r) imm a)) ws ds (mov_words r imm, [])"
  using asm_abs_words[OF assms(1), of "mov_words r imm"] assms(2)
  by (simp add: adds_def mov_emits mov_words_def)

lemma ldr_adds:
  assumes "asm_abs a ws ds" and "4 * length ws + 32 < 2 ^ 32" and "reg_id rt = r"
  shows "adds (asm_ldr rt (MemOperand_imm TMP_REG_0 0 Offset) (asm_Mov TMP_REG_0 d a)) ws ds
           (mov_words 17 d @ [0xF9400220 OR r], [])"
proof -
  have "asm_abs (asm_Mov TMP_REG_0 d a) (ws @ mov_words 17 d) ds"
    using mov_adds[OF assms(1,2), of 17 d] by (simp add: adds_def TMP_REG_0_def)
  then have "asm_abs (asm_Emit (0xF9400220 OR r) (asm_Mov TMP_REG_0 d a)) ((ws @ mov_words 17 d) @ [0xF9400220 OR r]) ds"
    using assms(2) by (intro asm_abs_Emit) (auto simp: mov_words_def)
  then show ?thesis
    by (simp add: adds_def ldr_emits[OF assms(3)])
qed

lemma c_bits_low: "c_bits (i :: u32) 0 4 = take_bit 5 i" "c_bits i 30 31 = take_bit 2 (drop_bit 30 i)"
  by (simp_all add: c_bits_def submask_def take_bit_eq_mask numeral_2_eq_2)

lemma relocate_inst_chunk:
  assumes "asm_abs a ws ds" and "4 * length ws + 32 < 2 ^ 32"
  shows "(case chunk cur i of Inl e \<Rightarrow> relocate_inst cur i a = Inl e
          | Inr c \<Rightarrow> adds (relocate_inst cur i a) ws ds c)"
proof -
  have long: "w = br17 \<or> w = blr17 \<Longrightarrow> adds (case createDataLabel d a of (l, a1) \<Rightarrow>
      sbind (asm_Ldr TMP_REG_0 l a1) (\<lambda>a. Inr (asm_Emit w a))) ws ds ([ldr17, w], [(0, d)])" for w d
    using long_jump_adds[OF assms, of "[]" w d] by (simp add: split_def)
  have cond: "adds (case createDataLabel d a of (l, a1) \<Rightarrow>
      sbind (asm_Ldr TMP_REG_0 l (asm_Emit v a1)) (\<lambda>a. Inr (asm_Emit br17 a))) ws ds ([v, ldr17, br17], [(1, d)])" for v d
    using long_jump_adds[OF assms, of "[v]" br17 d] by (simp add: asm_Emit_code)
  note defs = Let_def br17_emits decode_branch_offsets decode_adr_offset
  have bbl: "adds (relo_b_bl cur i a) ws ds
      ([ldr17, if i AND 0xFC000000 = 0x94000000 then blr17 else br17], [(0, cur + simm i 0 26 2)])"
    using long[of blr17] long[of br17]
    by (simp add: relo_b_bl_def defs UnconditionalBranchMask_def UnconditionalBranchFixed_def)
  have lit: "adds (relo_ldr_literal cur i a) ws ds
      (mov_words 17 (cur + simm i 5 19 2) @ [0xF9400220 OR take_bit 5 i], [])"
    if "take_bit 2 (drop_bit 30 i) = 0 \<or> take_bit 2 (drop_bit 30 i) = 1"
    using that ldr_adds[OF assms, of "reg_W (take_bit 5 i)"] ldr_adds[OF assms, of "reg_X (take_bit 5 i)"]
    by (auto simp: relo_ldr_literal_def defs c_bits_low decode_rt_def reg_W_def reg_X_def)
  have "relo_ldr_literal cur i a = Inl Unimplemented"
    if "\<not> (take_bit 2 (drop_bit 30 i) = 0 \<or> take_bit 2 (drop_bit 30 i) = 1)"
    using that by (simp add: relo_ldr_literal_def defs c_bits_low)
  moreover have "adds (relo_adr cur i a) ws ds (mov_words (take_bit 5 i) (cur + adr_imm i), [])"
    using mov_adds[OF assms] by (simp add: relo_adr_def defs c_bits_low decode_rd_def)
  moreover have "adds (relo_adrp cur i a) ws ds
      (mov_words (take_bit 5 i) (arm64_trunc_page (cur + push_bit 12 (adr_imm i))), [])"
    using mov_adds[OF assms]
    by (simp add: relo_adrp_def defs c_bits_low decode_rd_def decode_immhi_immlo_zero12_offset_def)
  moreover have "adds (relo_b_cond cur i a) ws ds
      ([c_set_bits (c_set_bits i 0 3 (c_bits i 0 3 XOR 1)) 5 23 3, ldr17, br17], [(1, cur + simm i 5 19 2)])"
    using cond by (simp add: relo_b_cond_def defs)
  moreover have "adds (relo_compare_b cur i a) ws ds
      ([c_set_bits (c_set_bit i 24 (c_bit i 24 XOR 1)) 5 23 3, ldr17, br17], [(1, cur + simm i 5 19 2)])"
    using cond by (simp add: relo_compare_b_def defs)
  moreover have "adds (relo_test_b cur i a) ws ds
      ([c_set_bits (c_set_bit i 24 (c_bit i 24 XOR 1)) 5 18 3, ldr17, br17], [(1, cur + simm i 5 14 2)])"
    using cond by (simp add: relo_test_b_def defs)
  moreover have "adds (Inr (asm_Emit i a)) ws ds ([i], [])"
    using asm_abs_Emit[OF assms(1), of i] assms(2) by (simp add: adds_def)
  ultimately show ?thesis
    using bbl lit by (simp add: chunk_def relocate_inst_def)
qed

section \<open>The loop\<close>

text \<open>The rewritten instructions of a run, and the words and literals they make up.\<close>

fun chunks :: "u64 \<Rightarrow> u32 list \<Rightarrow> (u32 list \<times> (nat \<times> u64) list) list result" where
  "chunks cur [] = Inr []"
| "chunks cur (i # is) = sbind (chunk cur i) (\<lambda>c. sbind (chunks (cur + 4) is) (\<lambda>cs. Inr (c # cs)))"

definition words_of :: "(u32 list \<times> (nat \<times> u64) list) list \<Rightarrow> u32 list" where
  "words_of cs = concat (map fst cs)"

fun literals_of :: "nat \<Rightarrow> (u32 list \<times> (nat \<times> u64) list) list \<Rightarrow> (nat \<times> u64) list" where
  "literals_of k [] = []"
| "literals_of k (c # cs) =
     map (\<lambda>kd. (k + fst kd, snd kd)) (snd c) @ literals_of (k + length (fst c)) cs"

definition insts_at :: "64 mem \<Rightarrow> u64 \<Rightarrow> nat \<Rightarrow> u32 list" where
  "insts_at m a n = map (\<lambda>j. le_word (mem_read m (a + of_nat (4 * j)) 4)) [0..<n]"

lemma insts_at_Suc: "insts_at m a (Suc n) = le_word (mem_read m a 4) # insts_at m (a + 4) n"
  unfolding insts_at_def map_upt_Suc by (simp add: algebra_simps)

lemma length_mov_words [simp]: "length (mov_words r d) = 4"
  by (simp add: mov_words_def)

lemma chunk_length:
  assumes "chunk cur i = Inr c"
  shows "length (fst c) \<le> 5"
  using assms by (auto simp: chunk_def split: if_splits)

text \<open>How many instructions cover a size.\<close>

definition inst_count :: "u32 \<Rightarrow> nat" where
  "inst_count sz = (unat sz + 3) div 4"

lemma preferred_relo_size_step [simp]:
  "preferred_relo_size (ctx\<lparr>rc_asm := a, rc_cursor := c\<rparr>) = preferred_relo_size ctx"
  by (simp add: preferred_relo_size_def)

lemma loop_test:
  assumes "unat (preferred_relo_size ctx) \<le> 2 ^ 32 - 4"
    and "rc_cursor ctx = range_addr (rc_origin ctx) + of_nat (4 * j)"
    and "j \<le> inst_count (preferred_relo_size ctx)"
  shows "unat (relo_size ctx) = 4 * j" and "origin_cursor ctx = range_addr (rc_origin ctx) + of_nat (4 * j)"
    and "relo_size ctx < preferred_relo_size ctx \<longleftrightarrow> j < inst_count (preferred_relo_size ctx)"
proof -
  have j: "4 * j < 2 ^ 32"
    using assms(1,3) by (simp add: inst_count_def)
  have sz: "relo_size ctx = of_nat (4 * j)"
    unfolding relo_size_def assms(2) by (simp only: add_diff_cancel_left') (rule ucast_of_nat_down, simp)
  show un: "unat (relo_size ctx) = 4 * j"
    unfolding sz using j by (intro unat_of_nat_small) simp
  show "origin_cursor ctx = range_addr (rc_origin ctx) + of_nat (4 * j)"
    unfolding origin_cursor_def sz using j by (subst ucast_of_nat_small) simp_all
  show "relo_size ctx < preferred_relo_size ctx \<longleftrightarrow> j < inst_count (preferred_relo_size ctx)"
    unfolding word_less_nat_alt un using assms(3) by (auto simp: inst_count_def)
qed


text \<open>What the loop computes.\<close>

lemma relocate_loop_chunks:
  assumes "unat (preferred_relo_size ctx) \<le> 2 ^ 28"
    and "rc_cursor ctx = range_addr (rc_origin ctx) + of_nat (4 * j)"
    and "j + n = inst_count (preferred_relo_size ctx)"
    and "asm_abs (rc_asm ctx) ws ds" and "length ws \<le> 5 * j"
  shows "case chunks (range_addr (rc_origin ctx) + of_nat (4 * j))
           (insts_at m (range_addr (rc_origin ctx) + of_nat (4 * j)) n) of
      Inl e \<Rightarrow> relocate_arm64_loop m ctx = Some (Inl e)
    | Inr cs \<Rightarrow> \<exists>a. asm_abs a (ws @ words_of cs) (ds @ literals_of (length ws) cs)
        \<and> relocate_arm64_loop m ctx =
            Some (Inr (ctx\<lparr>rc_asm := a, rc_cursor := range_addr (rc_origin ctx) + of_nat (4 * inst_count (preferred_relo_size ctx))\<rparr>))"
  using assms
proof (induction n arbitrary: ctx j ws ds)
  case 0
  have "\<not> relo_size ctx < preferred_relo_size ctx"
    using loop_test(3)[of ctx j] 0 by simp
  then show ?case
    using 0 by (auto simp: insts_at_def relocate_arm64_loop.simps[of m ctx] words_of_def intro!: exI[of _ "rc_asm ctx"])
next
  case (Suc n)
  let ?c = "range_addr (rc_origin ctx) + of_nat (4 * j)"
  let ?i = "le_word (mem_read m ?c 4)"
  have lt: "relo_size ctx < preferred_relo_size ctx" and oc: "origin_cursor ctx = ?c"
    using loop_test(2,3)[of ctx j] Suc.prems by simp_all
  have c4: "?c + 4 = range_addr (rc_origin ctx) + of_nat (4 * Suc j)"
    by (simp add: algebra_simps)
  have bnd: "4 * length ws + 32 < 2 ^ 32"
    using Suc.prems(1,3,5) by (simp add: inst_count_def)
  show ?case
  proof (cases "chunk ?c ?i")
    case (Inl e)
    then show ?thesis
      using relocate_inst_chunk[OF Suc.prems(4) bnd, of ?c ?i] lt oc
      by (simp add: insts_at_Suc relocate_arm64_loop.simps[of m ctx])
  next
    case (Inr c)
    then obtain a where a: "relocate_inst ?c ?i (rc_asm ctx) = Inr a"
      "asm_abs a (ws @ fst c) (ds @ map (\<lambda>kd. (length ws + fst kd, snd kd)) (snd c))"
      using relocate_inst_chunk[OF Suc.prems(4) bnd, of ?c ?i] by (auto simp: adds_def)
    let ?ctx = "ctx\<lparr>rc_asm := a, rc_cursor := ?c + 4\<rparr>"
    have step: "relocate_arm64_loop m ctx = relocate_arm64_loop m ?ctx"
      using lt oc a(1) Suc.prems(2) by (simp add: relocate_arm64_loop.simps[of m ctx])
    have "rc_origin ?ctx = rc_origin ctx" "rc_asm ?ctx = a"
      by simp_all
    moreover have "length (ws @ fst c) \<le> 5 * Suc j"
      using chunk_length[OF Inr] Suc.prems(5) by simp
    ultimately show ?thesis
      using Suc.IH[of ?ctx "Suc j" "ws @ fst c" "ds @ map (\<lambda>kd. (length ws + fst kd, snd kd)) (snd c)"] a(2) Suc.prems(1,3) Inr
      unfolding step insts_at_Suc chunks.simps c4
      by (cases "chunks (range_addr (rc_origin ctx) + of_nat (4 * Suc j))
            (insts_at m (range_addr (rc_origin ctx) + of_nat (4 * Suc j)) n)")
        (simp_all add: words_of_def)
  qed
qed

section \<open>The finished code\<close>

lemma words_of_simps [simp]:
  "words_of [] = []" "words_of (c # cs) = fst c @ words_of cs" "words_of (cs @ cs') = words_of cs @ words_of cs'"
  by (simp_all add: words_of_def)

lemma literals_of_append [simp]:
  "literals_of k (cs @ cs') = literals_of k cs @ literals_of (k + length (words_of cs)) cs'"
  by (induction cs arbitrary: k) (auto simp: add.assoc)

lemma chunk_literals:
  assumes "chunk cur i = Inr c"
  shows "snd c = [] \<or> (\<exists>k d. snd c = [(k, d)] \<and> k < length (fst c) \<and> fst c ! k = ldr17)"
  using assms by (auto simp: chunk_def split: if_splits)

lemma chunks_nth:
  "chunks cur is = Inr cs \<Longrightarrow> length cs = length is \<and>
     (\<forall>j < length is. chunk (cur + of_nat (4 * j)) (is ! j) = Inr (cs ! j))"
proof (induction "is" arbitrary: cur cs)
  case (Cons i "is")
  then obtain c cs' where c: "chunk cur i = Inr c" "chunks (cur + 4) is = Inr cs'" "cs = c # cs'"
    by (auto simp: sbind_eq_Inr)
  show ?case
    using Cons.IH[OF c(2)] c(1,3) by (auto simp: less_Suc_eq_0_disj algebra_simps)
qed simp

text \<open>The literals of well-formed rewritten instructions lie in their words.\<close>

definition chunk_ok :: "u32 list \<times> (nat \<times> u64) list \<Rightarrow> bool" where
  "chunk_ok c \<longleftrightarrow> distinct (map fst (snd c)) \<and> (\<forall>kd \<in> set (snd c). fst kd < length (fst c) \<and> fst c ! fst kd = ldr17)"

lemma chunks_ok: "chunks cur is = Inr cs \<Longrightarrow> list_all chunk_ok cs"
proof (induction "is" arbitrary: cur cs)
  case (Cons i "is")
  then obtain c cs' where c: "chunk cur i = Inr c" "chunks (cur + 4) is = Inr cs'" "cs = c # cs'"
    by (auto simp: sbind_eq_Inr)
  show ?case
    using Cons.IH[OF c(2)] chunk_literals[OF c(1)] c(3) by (auto simp: chunk_ok_def)
qed simp

lemma literals_in:
  "list_all chunk_ok cs \<Longrightarrow> kd \<in> set (literals_of b cs) \<Longrightarrow>
     b \<le> fst kd \<and> fst kd < b + length (words_of cs) \<and> words_of cs ! (fst kd - b) = ldr17"
proof (induction cs arbitrary: b)
  case (Cons c cs)
  show ?case
  proof (cases "kd \<in> set (literals_of (b + length (fst c)) cs)")
    case True
    with Cons have "b + length (fst c) \<le> fst kd \<and> fst kd < b + length (fst c) + length (words_of cs)
        \<and> words_of cs ! (fst kd - (b + length (fst c))) = ldr17"
      by simp
    then show ?thesis by (auto simp: nth_append algebra_simps)
  next
    case False
    with Cons show ?thesis by (auto simp: chunk_ok_def nth_append)
  qed
qed simp

lemma literals_distinct: "list_all chunk_ok cs \<Longrightarrow> distinct (map fst (literals_of b cs))"
proof (induction cs arbitrary: b)
  case (Cons c cs)
  have "distinct (map (\<lambda>kd. b + fst kd) (snd c))"
    using Cons.prems by (simp add: chunk_ok_def distinct_map inj_on_def)
  moreover have "b + fst kd \<notin> fst ` set (literals_of (b + length (fst c)) cs)" if "kd \<in> set (snd c)" for kd
    using Cons.prems that literals_in[of cs _ "b + length (fst c)"] by (force simp: chunk_ok_def)
  ultimately show ?case
    using Cons by (auto simp: o_def)
qed simp

lemma words_of_bound: "chunks cur is = Inr cs \<Longrightarrow> length (words_of cs) \<le> 5 * length is"
proof (induction "is" arbitrary: cur cs)
  case (Cons i "is")
  then obtain c cs' where c: "chunk cur i = Inr c" "chunks (cur + 4) is = Inr cs'" "cs = c # cs'"
    by (auto simp: sbind_eq_Inr)
  show ?case
    using Cons.IH[OF c(2)] chunk_length[OF c(1)] c(3) by simp
qed simp

lemma finish_code:
  assumes "asm_abs a ws ds" and "\<forall>kd \<in> set ds. fst kd < length ws" and "4 * length ws \<le> 2 ^ 31"
  shows "\<exists>a'. relocDataLabels a = Inr a'
    \<and> asm_code a' = wcode (linked ws (4 * length ws) ds) @ dcode (map snd ds)"
  using reloc_labels_linked[OF assms(2,3), of "[]"] assms(1) by (auto simp: relocDataLabels_def asm_abs_def)

lemma LiteralLdrBranch_adds:
  assumes "asm_abs a ws ds" and "4 * length ws + 32 < 2 ^ 32"
  shows "adds (LiteralLdrBranch d a) ws ds ([ldr17, br17], [(0, d)])"
  using long_jump_adds[OF assms, of "[]" br17 d]
  by (simp add: LiteralLdrBranch_def br17_emits split_def Let_def)

lemma relo_size_final:
  assumes "rc_cursor ctx = range_addr (rc_origin ctx) + of_nat (4 * n)" and "4 * n < 2 ^ 32"
  shows "correct_final_relo_size ctx = ctx\<lparr>rc_origin := range_resize (rc_origin ctx) (of_nat (4 * n))\<rparr>"
    and "origin_cursor (correct_final_relo_size ctx) = range_addr (rc_origin ctx) + of_nat (4 * n)"
proof -
  have sz: "relo_size ctx = of_nat (4 * n)"
    unfolding relo_size_def assms(1) by (simp only: add_diff_cancel_left') (rule ucast_of_nat_down, simp)
  have uc: "ucast (of_nat (4 * n) :: u32) = (of_nat (4 * n) :: u64)"
    using assms(2) by (intro ucast_of_nat_small) simp
  show c: "correct_final_relo_size ctx = ctx\<lparr>rc_origin := range_resize (rc_origin ctx) (of_nat (4 * n))\<rparr>"
    unfolding correct_final_relo_size_def sz uc ..
  have "relo_size (correct_final_relo_size ctx) = of_nat (4 * n)"
    unfolding c using sz by (simp add: relo_size_def)
  then show "origin_cursor (correct_final_relo_size ctx) = range_addr (rc_origin ctx) + of_nat (4 * n)"
    unfolding origin_cursor_def using uc by (simp add: c)
qed

text \<open>The jump back to the instruction behind the relocated ones, as a last rewritten instruction.\<close>

definition tail_chunk :: "bool \<Rightarrow> u64 \<Rightarrow> (u32 list \<times> (nat \<times> u64) list) list" where
  "tail_chunk branch d = (if branch then [([ldr17, br17], [(0, d)])] else [])"

lemma tail_adds:
  assumes "asm_abs a ws ds" and "4 * length ws + 32 < 2 ^ 32"
  shows "\<exists>a'. (if branch then LiteralLdrBranch d a else Inr a) = Inr a'
    \<and> asm_abs a' (ws @ words_of (tail_chunk branch d)) (ds @ literals_of (length ws) (tail_chunk branch d))"
  using LiteralLdrBranch_adds[OF assms, of d] assms(1) by (auto simp: adds_def tail_chunk_def)

lemma tail_ok [simp]: "list_all chunk_ok (tail_chunk branch d)"
  by (simp add: tail_chunk_def chunk_ok_def)

definition finished :: "(u32 list \<times> (nat \<times> u64) list) list \<Rightarrow> u8 list" where
  "finished cs = wcode (linked (words_of cs) (4 * length (words_of cs)) (literals_of 0 cs))
                 @ dcode (map snd (literals_of 0 cs))"

lemma relocate_code_chunks:
  assumes "unat (ucast (rsize origin) :: u32) \<le> 2 ^ 26"
    and "chunks (range_addr origin) (insts_at m (range_addr origin) n) = Inr cs"
    and "n = inst_count (ucast (rsize origin))"
  shows "relocate_arm64_code m origin branch =
    Some (Inr (range_resize origin (of_nat (4 * n)),
               finished (cs @ tail_chunk branch (range_addr origin + of_nat (4 * n)))))"
proof -
  let ?ctx = "relo_ctx_new origin" and ?d = "range_addr origin + of_nat (4 * n)"
  let ?cs = "cs @ tail_chunk branch ?d"
  have pref: "preferred_relo_size ?ctx = ucast (rsize origin)" "rc_origin ?ctx = origin"
    "rc_cursor ?ctx = range_addr origin"
    by (simp_all add: preferred_relo_size_def relo_ctx_new_def)
  have abs0: "asm_abs (rc_asm ?ctx) [] []"
    by (simp add: asm_abs_def relo_ctx_new_def TurboAssembler_new_def)
  obtain a where a: "asm_abs a (words_of cs) (literals_of 0 cs)"
    and loop: "relocate_arm64_loop m ?ctx = Some (Inr (?ctx\<lparr>rc_asm := a, rc_cursor := ?d\<rparr>))"
    using relocate_loop_chunks[of ?ctx 0 n "[]" "[]" m] abs0 assms(1,2,3) pref by auto
  have n: "n \<le> 2 ^ 25" and len: "length (words_of cs) \<le> 5 * n"
    using assms(1,3) words_of_bound[OF assms(2)] by (simp_all add: inst_count_def insts_at_def)
  obtain a' where a': "(if branch then LiteralLdrBranch ?d a else Inr a) = Inr a'"
    "asm_abs a' (words_of ?cs) (literals_of 0 ?cs)"
    using tail_adds[OF a, of branch ?d] n len by auto
  have ok: "list_all chunk_ok ?cs"
    using chunks_ok[OF assms(2)] by simp
  have inb: "\<forall>kd \<in> set (literals_of 0 ?cs). fst kd < length (words_of ?cs)"
    using literals_in[OF ok, of _ 0] by fastforce
  have bnd: "4 * length (words_of ?cs) \<le> 2 ^ 31"
    using n len by (simp add: tail_chunk_def)
  obtain a'' where "relocDataLabels a' = Inr a''" "asm_code a'' = finished ?cs"
    using finish_code[OF a'(2) inb bnd] unfolding finished_def by blast
  then show ?thesis
    unfolding relocate_arm64_code_def loop
    using relo_size_final[of "?ctx\<lparr>rc_asm := a, rc_cursor := ?d\<rparr>" n] n a'(1) pref
    by (cases branch) (simp_all add: Let_def)
qed

lemma relocate_code_error:
  assumes "unat (ucast (rsize origin) :: u32) \<le> 2 ^ 26"
    and "chunks (range_addr origin) (insts_at m (range_addr origin) n) = Inl e"
    and "n = inst_count (ucast (rsize origin))"
  shows "relocate_arm64_code m origin branch = Some (Inl e)"
proof -
  let ?ctx = "relo_ctx_new origin"
  have "asm_abs (rc_asm ?ctx) [] []"
    by (simp add: asm_abs_def relo_ctx_new_def TurboAssembler_new_def)
  then have "relocate_arm64_loop m ?ctx = Some (Inl e)"
    using relocate_loop_chunks[of ?ctx 0 n "[]" "[]" m] assms
    by (simp add: preferred_relo_size_def relo_ctx_new_def)
  then show ?thesis
    by (simp add: relocate_arm64_code_def)
qed

section \<open>Running the finished code\<close>

text \<open>The finished code of \<open>cs\<close> lies at \<open>start\<close>, within reach of the literal loads.\<close>

definition placed :: "64 mem \<Rightarrow> u64 \<Rightarrow> (u32 list \<times> (nat \<times> u64) list) list \<Rightarrow> bool" where
  "placed m start cs \<longleftrightarrow> bytes_at m start (finished cs) \<and> length (finished cs) < 2 ^ 20 \<and> list_all chunk_ok cs"

lemma length_finished: "length (finished cs) = 4 * length (words_of cs) + 8 * length (literals_of 0 cs)"
  by (simp add: finished_def)

lemma placed_word:
  assumes "placed (a_mem s) start cs" and "k < length (words_of cs)" and "a_pc s = start + of_nat (4 * k)"
  shows "load32 s (a_pc s) = linked (words_of cs) (4 * length (words_of cs)) (literals_of 0 cs) ! k"
proof -
  have "mem_read (a_mem s) (start + of_nat (4 * k)) 4 = take 4 (drop (4 * k) (finished cs))"
    using assms by (intro bytes_at_read) (auto simp: placed_def length_finished)
  then show ?thesis
    using assms wcode_nth[of k "linked (words_of cs) (4 * length (words_of cs)) (literals_of 0 cs)"]
    by (simp add: load32_def finished_def)
qed

lemma placed_plain:
  assumes "placed (a_mem s) start cs" and "k < length (words_of cs)" and "a_pc s = start + of_nat (4 * k)"
    and "k \<notin> fst ` set (literals_of 0 cs)"
  shows "a64_step s = a64_exec (words_of cs ! k) s"
  using placed_word[OF assms(1-3)] assms(4) by (simp add: a64_step_def linked_other)

lemma placed_data:
  assumes "placed (a_mem s) start cs" and "j < length (literals_of 0 cs)"
  shows "load64 s (start + of_nat (4 * length (words_of cs) + 8 * j)) = snd (literals_of 0 cs ! j)"
proof -
  have "mem_read (a_mem s) (start + of_nat (4 * length (words_of cs) + 8 * j)) 8 =
      take 8 (drop (4 * length (words_of cs) + 8 * j) (finished cs))"
    using assms by (intro bytes_at_read) (auto simp: placed_def length_finished)
  then show ?thesis
    using assms dcode_nth[of j "map snd (literals_of 0 cs)"] by (simp add: load64_def finished_def)
qed

lemma ldr17_exec:
  assumes "fits 19 2 off"
  shows "a64_exec (encode_imm19_offset ldr17 off) s = Some (next_pc (x_set 17 (load64 s (a_pc s + off)) s))"
proof -
  let ?i = "encode_imm19_offset ldr17 off"
  have "?i AND 0xFF000000 = ldr17 AND 0xFF000000"
    by (rule high_mask_cong[of 24]) (simp_all add: encode_keeps_bits)
  then have "?i AND 0xFF000000 = 0x58000000" by simp
  moreover have "take_bit 5 ?i = take_bit 5 ldr17"
    by (rule take_bit_cong) (simp add: encode_keeps_bits)
  then have "ifield ?i 0 5 = 17"
    by (simp add: ifield_def)
  moreover have "simm ?i 5 19 2 = off"
    using encode_branch_offsets(2)[OF assms, of ldr17] by (simp add: decode_branch_offsets)
  ultimately show ?thesis
    by (simp add: exec_ldr_literal)
qed

lemma fits_offset:
  assumes "n < 2 ^ 20" and "4 dvd n"
  shows "fits 19 2 (of_nat n)"
proof -
  have "sint (of_nat n :: u64) = int n"
    using assms(1) by (simp add: signed_of_nat signed_take_bit_int_eq_self)
  then show ?thesis
    using assms of_nat_dvd_iff[of 4 n, where ?'a = int] by (simp add: fits_def)
qed

lemma placed_ldr17:
  assumes "placed (a_mem s) start cs" and "(k, d) \<in> set (literals_of 0 cs)" and "a_pc s = start + of_nat (4 * k)"
  shows "a64_step s = Some (next_pc (x_set 17 d s))"
proof -
  let ?ws = "words_of cs" and ?ds = "literals_of 0 cs"
  have ok: "list_all chunk_ok cs" and k: "k < length ?ws" "?ws ! k = ldr17"
    using assms literals_in[of cs "(k, d)" 0] by (auto simp: placed_def)
  obtain j where j: "j < length ?ds" "?ds ! j = (k, d)"
    using assms(2) by (auto simp: in_set_conv_nth)
  let ?p = "4 * length ?ws + 8 * j"
  have i: "linked ?ws (4 * length ?ws) ?ds ! k = encode_imm19_offset ldr17 (of_nat ?p - of_nat (4 * k))"
    using linked_nth[OF literals_distinct[OF ok] j(1), of ?ws "4 * length ?ws"] j k by simp
  have le: "4 * k \<le> ?p" and lt: "?p < 2 ^ 20"
    using k j assms(1) by (auto simp: placed_def length_finished)
  have off: "(of_nat ?p - of_nat (4 * k) :: u64) = of_nat (?p - 4 * k)"
    using le by (simp add: of_nat_diff)
  have "fits 19 2 (of_nat (?p - 4 * k))"
    using lt by (intro fits_offset) (simp_all add: dvd_diff_nat)
  then have "a64_step s = Some (next_pc (x_set 17 (load64 s (a_pc s + of_nat (?p - 4 * k))) s))"
    unfolding a64_step_def placed_word[OF assms(1) k(1) assms(3)] i off by (rule ldr17_exec)
  moreover have "a_pc s + of_nat (?p - 4 * k) = start + of_nat ?p"
    unfolding assms(3) using le by (simp add: of_nat_diff)
  ultimately show ?thesis
    using placed_data[OF assms(1) j(1)] j(2) by simp
qed

lemma chunk_literal:
  assumes "placed (a_mem s) start (cs1 @ c # cs2)" and "(r, d) \<in> set (snd c)"
    and "a_pc s = start + of_nat (4 * (length (words_of cs1) + r))"
  shows "a64_step s = Some (next_pc (x_set 17 d s))"
  using assms by (intro placed_ldr17[of s start "cs1 @ c # cs2" "length (words_of cs1) + r"]) force+

lemma chunk_plain:
  assumes "placed (a_mem s) start (cs1 @ c # cs2)" and "r < length (fst c)" and "r \<notin> fst ` set (snd c)"
    and "a_pc s = start + of_nat (4 * (length (words_of cs1) + r))"
  shows "a64_step s = a64_exec (fst c ! r) s"
proof -
  let ?p = "length (words_of cs1)"
  have ok: "list_all chunk_ok cs1" "list_all chunk_ok cs2"
    using assms(1) by (simp_all add: placed_def)
  have "fst kd \<noteq> ?p + r" if kd: "kd \<in> set (literals_of 0 (cs1 @ c # cs2))" for kd
  proof -
    from kd consider "kd \<in> set (literals_of 0 cs1)" | "kd \<in> (\<lambda>kd. (?p + fst kd, snd kd)) ` set (snd c)"
      | "kd \<in> set (literals_of (?p + length (fst c)) cs2)"
      by auto
    then show ?thesis
    proof cases
      case 1
      from literals_in[OF ok(1) this] show ?thesis by linarith
    next
      case 2
      then obtain kd' where "kd' \<in> set (snd c)" "fst kd = ?p + fst kd'" by auto
      with assms(3) show ?thesis by auto
    next
      case 3
      from literals_in[OF ok(2) this] assms(2) show ?thesis by linarith
    qed
  qed
  then have nl: "?p + r \<notin> fst ` set (literals_of 0 (cs1 @ c # cs2))"
    unfolding image_iff by metis
  have w: "words_of (cs1 @ c # cs2) ! (?p + r) = fst c ! r" and lt: "?p + r < length (words_of (cs1 @ c # cs2))"
    using assms(2) by (simp_all add: nth_append)
  show ?thesis
    using placed_plain[OF assms(1) lt assms(4) nl] unfolding w .
qed

section \<open>Materialised constants\<close>

lemma ifield_mov_word:
  assumes "take_bit 5 r = r" and "b AND 0xFF800000 = v" and "take_bit 21 b = 0"
  shows "mov_word b r imm k AND 0xFF800000 = v"
    and "ifield (mov_word b r imm k) 0 5 = unat r"
    and "ifield (mov_word b r imm k) 5 16 = unat (take_bit 16 (ucast (drop_bit (16 * k) imm) :: u32))"
    and "ifield (mov_word b r imm k) 21 2 = unat (take_bit 2 (drop_bit 21 b))"
proof -
  have b: "take_bit 5 b = 0" "take_bit 16 (drop_bit 5 b) = 0"
    using low_bits_clear[OF assms(3), of 0 5] low_bits_clear[OF assms(3), of 5 16] by simp_all
  have r: "r = take_bit 5 r" using assms(1) by simp
  show "mov_word b r imm k AND 0xFF800000 = v"
    unfolding mov_word_def by (subst r) (simp add: bit.conj_disj_distrib2 field_and_mask low_field_and_mask assms(2))
  show "ifield (mov_word b r imm k) 0 5 = unat r"
    unfolding mov_word_def ifield_def by (simp add: assms(1) b field_outside[of 5 16 0 5, simplified])
  show "ifield (mov_word b r imm k) 5 16 = unat (take_bit 16 (ucast (drop_bit (16 * k) imm) :: u32))"
    unfolding mov_word_def ifield_def by (subst r) (simp add: b field_same low_field_outside)
  show "ifield (mov_word b r imm k) 21 2 = unat (take_bit 2 (drop_bit 21 b))"
    unfolding mov_word_def ifield_def by (subst r) (simp add: field_outside low_field_outside)
qed

lemma x_get_set: "r < 32 \<Longrightarrow> x_get r (x_set r v s) = (if r = 31 then 0 else v)"
  by (simp add: x_get_def x_set_def)

lemma x_set_simps [simp]:
  "a_pc (x_set r v s) = a_pc s" "a_mem (x_set r v s) = a_mem s" "a_nzcv (x_set r v s) = a_nzcv s"
  "a_pc (next_pc s) = a_pc s + 4" "a_mem (next_pc s) = a_mem s" "x_get r (next_pc s) = x_get r s"
  "x_set r v (next_pc s) = next_pc (x_set r v s)" "x_set r w (x_set r v s) = x_set r w s"
  by (simp_all add: x_set_def next_pc_def x_get_def)

text \<open>
  Executing the four words of \<^verbatim>\<open>Mov\<close>, one after the other, loads the constant.
\<close>

definition half :: "u64 \<Rightarrow> nat \<Rightarrow> u64" where
  "half imm k = push_bit (16 * k) (take_bit 16 (drop_bit (16 * k) imm))"

lemma of_nat_half: "of_nat (unat (take_bit 16 (ucast (drop_bit (16 * k) imm) :: u32))) = take_bit 16 (drop_bit (16 * k) imm)"
  for imm :: u64
  by (simp only: of_nat_unat) (rule bit_word_eqI, auto simp: bit_simps)

lemma mov_exec:
  assumes "take_bit 5 r = r"
  shows "a64_exec (mov_word 0xD2800000 r imm 0) s = Some (next_pc (x_set (unat r) (half imm 0) s))"
    and "a64_exec (mov_word 0xF2A00000 r imm 1) s =
      Some (next_pc (x_set (unat r) ((x_get (unat r) s AND NOT (push_bit 16 (mask 16))) OR half imm 1) s))"
    and "a64_exec (mov_word 0xF2C00000 r imm 2) s =
      Some (next_pc (x_set (unat r) ((x_get (unat r) s AND NOT (push_bit 32 (mask 16))) OR half imm 2) s))"
    and "a64_exec (mov_word 0xF2E00000 r imm 3) s =
      Some (next_pc (x_set (unat r) ((x_get (unat r) s AND NOT (push_bit 48 (mask 16))) OR half imm 3) s))"
proof -
  note f = ifield_mov_word[OF assms, of "0xD2800000" "0xD2800000" imm 0] ifield_mov_word[OF assms, of "0xF2A00000" "0xF2800000" imm 1]
    ifield_mov_word[OF assms, of "0xF2C00000" "0xF2800000" imm 2] ifield_mov_word[OF assms, of "0xF2E00000" "0xF2800000" imm 3]
  show "a64_exec (mov_word 0xD2800000 r imm 0) s = Some (next_pc (x_set (unat r) (half imm 0) s))"
    using exec_movz[of "mov_word 0xD2800000 r imm 0" s] f(1-4) of_nat_half[of 0 imm] by (simp add: half_def)
  show "a64_exec (mov_word 0xF2A00000 r imm 1) s =
      Some (next_pc (x_set (unat r) ((x_get (unat r) s AND NOT (push_bit 16 (mask 16))) OR half imm 1) s))"
    using exec_movk[of "mov_word 0xF2A00000 r imm 1" s] f(5-8) of_nat_half[of 1 imm] by (simp add: half_def)
  show "a64_exec (mov_word 0xF2C00000 r imm 2) s =
      Some (next_pc (x_set (unat r) ((x_get (unat r) s AND NOT (push_bit 32 (mask 16))) OR half imm 2) s))"
    using exec_movk[of "mov_word 0xF2C00000 r imm 2" s] f(9-12) of_nat_half[of 2 imm] by (simp add: half_def)
  show "a64_exec (mov_word 0xF2E00000 r imm 3) s =
      Some (next_pc (x_set (unat r) ((x_get (unat r) s AND NOT (push_bit 48 (mask 16))) OR half imm 3) s))"
    using exec_movk[of "mov_word 0xF2E00000 r imm 3" s] f(13-16) of_nat_half[of 3 imm] by (simp add: half_def)
qed

lemma halves:
  "(((half imm 0 AND NOT (push_bit 16 (mask 16)) OR half imm 1) AND NOT (push_bit 32 (mask 16)) OR half imm 2)
     AND NOT (push_bit 48 (mask 16)) OR half imm 3) = imm"
proof (rule bit_word_eqI)
  fix n
  consider "n < (16 :: nat)" | "16 \<le> n" "n < 32" | "32 \<le> n" "n < 48" | "48 \<le> n" by linarith
  then show "bit ((((half imm 0 AND NOT (push_bit 16 (mask 16)) OR half imm 1) AND NOT (push_bit 32 (mask 16))
      OR half imm 2) AND NOT (push_bit 48 (mask 16)) OR half imm 3)) n = bit imm n" if "n < LENGTH(64)"
    using that by cases (simp_all add: half_def bit_simps, auto)
qed

lemma reg_less: "take_bit 5 r = r \<Longrightarrow> unat (r :: u32) < 32"
  using take_bit_nat_less_exp[of 5 "unat r"] by (simp flip: unsigned_take_bit_eq)

lemma a64_steps_add:
  "a64_steps (m + n) s = (case a64_steps m s of None \<Rightarrow> None | Some t \<Rightarrow> a64_steps n t)"
  by (induction m arbitrary: s) (auto split: option.splits)

lemma mov_runs:
  assumes "placed (a_mem s) start (cs1 @ c # cs2)" and "fst c = mov_words r d @ vs" and "snd c = []"
    and "take_bit 5 r = r" and "a_pc s = start + of_nat (4 * length (words_of cs1))"
  shows "a64_steps 4 s = Some ((x_set (unat r) d s)\<lparr>a_pc := a_pc s + 16\<rparr>)"
proof -
  have st: "a64_step t = a64_exec (mov_words r d ! k) t"
    if "a_mem t = a_mem s" "a_pc t = a_pc s + of_nat (4 * k)" "k < 4" for t k
    using chunk_plain[of t start cs1 c cs2 k] assms that by (simp add: nth_append algebra_simps)
  have "unat r < 32"
    using assms(4) by (rule reg_less)
  then show ?thesis
    using st[of s 0] st[of "next_pc (x_set (unat r) _ s)" 1] st[of "next_pc (next_pc (x_set (unat r) _ s))" 2]
      st[of "next_pc (next_pc (next_pc (x_set (unat r) _ s)))" 3]
    by (cases "unat r = 31")
      (simp_all add: mov_words_def mov_exec(1,3,4)[OF assms(4)] mov_exec(2)[OF assms(4), unfolded One_nat_def]
        x_get_set halves[unfolded One_nat_def], simp_all add: next_pc_def x_set_def add.commute)
qed

section \<open>Simulation of one instruction\<close>

definition same_except :: "nat set \<Rightarrow> a64 \<Rightarrow> a64 \<Rightarrow> bool" where
  "same_except R t u \<longleftrightarrow> a_mem t = a_mem u \<and> a_sp t = a_sp u \<and> a_nzcv t = a_nzcv u
     \<and> (\<forall>r. r \<notin> R \<longrightarrow> a_gpr t r = a_gpr u r)"

lemmas class_defs =
  inst_is_b_bl_def inst_is_ldr_literal_def inst_is_adr_def inst_is_adrp_def inst_is_b_cond_def
  inst_is_compare_b_def inst_is_test_b_def UnconditionalBranchFixedMask_def UnconditionalBranchFixed_def
  LoadRegLiteralFixedMask_def LoadRegLiteralFixed_def PCRelAddressingFixedMask_def PCRelAddressingFixed_def
  PCRelAddressingMask_def ConditionalBranchFixedMask_def ConditionalBranchFixed_def
  CompareBranchFixedMask_def CompareBranchFixed_def TestBranchFixedMask_def TestBranchFixed_def

lemma mask_sub: "(x :: u32) AND m = v \<Longrightarrow> m AND m' = m' \<Longrightarrow> x AND m' = v AND m'"
  by (metis and.assoc)

lemma chunk_b_bl:
  assumes "i AND 0x7C000000 = 0x14000000"
  shows "chunk cur i = Inr ([ldr17, if i AND 0xFC000000 = 0x94000000 then blr17 else br17], [(0, cur + simm i 0 26 2)])"
  by (simp add: chunk_def class_defs assms)

lemma chunk_ldr:
  assumes "i AND 0xFF000000 = 0x58000000"
  shows "chunk cur i = Inr (mov_words 17 (cur + simm i 5 19 2) @ [0xF9400220 OR take_bit 5 i], [])"
proof -
  have "take_bit 2 (drop_bit 30 i) = take_bit 2 (drop_bit 30 (i AND 0xFF000000))"
    by (simp add: drop_bit_and take_bit_eq_mask mask_eq_exp_minus_1 and.assoc)
  then have "take_bit 2 (drop_bit 30 i) = 1"
    by (simp add: assms)
  then show ?thesis
    using mask_sub[OF assms, of "0x3B000000"] mask_sub[OF assms, of "0x7C000000"] by (simp add: chunk_def class_defs)
qed

lemma chunk_adr:
  assumes "i AND 0x9F000000 = 0x10000000"
  shows "chunk cur i = Inr (mov_words (take_bit 5 i) (cur + adr_imm i), [])"
  using mask_sub[OF assms, of "0x1F000000"] by (simp add: chunk_def class_defs mask_excl[OF assms] assms)

lemma chunk_adrp:
  assumes "i AND 0x9F000000 = 0x90000000"
  shows "chunk cur i = Inr (mov_words (take_bit 5 i) (arm64_trunc_page (cur + push_bit 12 (adr_imm i))), [])"
  using mask_sub[OF assms, of "0x1F000000"] by (simp add: chunk_def class_defs mask_excl[OF assms] assms)

lemma chunk_b_cond:
  assumes "i AND 0xFF000010 = 0x54000000"
  shows "chunk cur i = Inr ([c_set_bits (c_set_bits i 0 3 (c_bits i 0 3 XOR 1)) 5 23 3, ldr17, br17],
                [(1, cur + simm i 5 19 2)])"
  using mask_sub[OF assms, of "0xFE000000"] by (simp add: chunk_def class_defs mask_excl[OF assms])

lemma chunk_compare_b:
  assumes "i AND 0x7E000000 = 0x34000000"
  shows "chunk cur i = Inr ([c_set_bits (c_set_bit i 24 (c_bit i 24 XOR 1)) 5 23 3, ldr17, br17],
                [(1, cur + simm i 5 19 2)])"
  by (simp add: chunk_def class_defs mask_excl[OF assms] assms)

lemma chunk_test_b:
  assumes "i AND 0x7E000000 = 0x36000000"
  shows "chunk cur i = Inr ([c_set_bits (c_set_bit i 24 (c_bit i 24 XOR 1)) 5 18 3, ldr17, br17],
                [(1, cur + simm i 5 14 2)])"
  by (simp add: chunk_def class_defs mask_excl[OF assms] assms)

lemma br17_exec:
  "a64_exec br17 s = Some (s\<lparr>a_pc := a_gpr s 17\<rparr>)"
  "a64_exec blr17 s = Some (x_set 30 (a_pc s + 4) (s\<lparr>a_pc := a_gpr s 17\<rparr>))"
  by (simp_all add: a64_exec_def a64_branch_def ifield_def x_get_def)

text \<open>The long jump through a literal: from its first word, two steps.\<close>

lemma long_jump_runs:
  assumes "placed (a_mem s) start (cs1 @ c # cs2)" and "snd c = [(r, d)]" and "Suc r < length (fst c)"
    and "fst c ! Suc r = br17 \<or> fst c ! Suc r = blr17"
    and "a_pc s = start + of_nat (4 * (length (words_of cs1) + r))"
  shows "a64_steps 2 s = a64_exec (fst c ! Suc r) ((x_set 17 d s)\<lparr>a_pc := a_pc s + 4\<rparr>)"
proof -
  let ?t = "next_pc (x_set 17 d s)"
  have "a64_step s = Some ?t"
    using assms by (intro chunk_literal[of s start cs1 c cs2 r]) auto
  moreover have "a64_step ?t = a64_exec (fst c ! Suc r) ?t"
    using assms by (intro chunk_plain[of ?t start cs1 c cs2]) (auto simp: algebra_simps)
  ultimately show ?thesis
    by (simp add: next_pc_def split: option.split)
qed

text \<open>The inverted branch over the long jump.\<close>

lemma bit_consts:
  "bit (3 :: int) k \<longleftrightarrow> k < 2" "bit (12 :: int) k \<longleftrightarrow> k = 2 \<or> k = 3"
  "bit (96 :: int) k \<longleftrightarrow> k = 5 \<or> k = 6" "bit (0x1000000 :: int) k \<longleftrightarrow> k = 24"
  "bit (0x80000000 :: int) k \<longleftrightarrow> k = 31"
proof -
  have "(3 :: int) = mask 2" "(12 :: int) = push_bit 2 (mask 2)" "(96 :: int) = push_bit 5 (mask 2)"
    "(0x1000000 :: int) = push_bit 24 (mask 1)" "(0x80000000 :: int) = push_bit 31 (mask 1)"
    by (simp_all add: mask_eq_exp_minus_1)
  then show "bit (3 :: int) k \<longleftrightarrow> k < 2" "bit (12 :: int) k \<longleftrightarrow> k = 2 \<or> k = 3"
    "bit (96 :: int) k \<longleftrightarrow> k = 5 \<or> k = 6" "bit (0x1000000 :: int) k \<longleftrightarrow> k = 24"
    "bit (0x80000000 :: int) k \<longleftrightarrow> k = 31"
    by (simp_all only: bit_push_bit_iff bit_mask_iff) auto
qed

lemma bit_set_imm:
  assumes "k < 32"
  shows "bit (c_set_bits x 5 23 3) k = (if 5 \<le> k \<and> k < 24 then k < 7 else bit (x :: u32) k)"
    and "bit (c_set_bits x 5 18 3) k = (if 5 \<le> k \<and> k < 19 then k < 7 else bit x k)"
  using assms by (auto simp: c_set_bits_def submask_def bit_simps bit_consts)

lemma simm_skip:
  "simm (c_set_bits x 5 23 3) 5 19 2 = 12" "simm (c_set_bits x 5 18 3) 5 14 2 = 12"
  by ((rule simm_cong; auto simp: bit_set_imm bit_consts fits_def), (rule simm_cong; auto simp: bit_set_imm bit_consts fits_def))

lemma bit_invert:
  assumes "k < 32"
  shows "bit (c_set_bits i 0 3 (c_bits i 0 3 XOR 1)) k = (if k = 0 then \<not> bit i 0 else bit (i :: u32) k)"
    and "bit (c_set_bit i 24 (c_bit i 24 XOR 1)) k = (if k = 24 then \<not> bit i 24 else bit i k)"
  using assms by (auto simp: c_set_bits_def c_set_bit_def c_bits_def c_bit_def submask_def bit_simps bit_consts)

abbreviation inverted_b_cond :: "u32 \<Rightarrow> u32" where
  "inverted_b_cond i \<equiv> c_set_bits (c_set_bits i 0 3 (c_bits i 0 3 XOR 1)) 5 23 3"

abbreviation inverted_compare_b :: "u32 \<Rightarrow> u32" where
  "inverted_compare_b i \<equiv> c_set_bits (c_set_bit i 24 (c_bit i 24 XOR 1)) 5 23 3"

abbreviation inverted_test_b :: "u32 \<Rightarrow> u32" where
  "inverted_test_b i \<equiv> c_set_bits (c_set_bit i 24 (c_bit i 24 XOR 1)) 5 18 3"

lemma ConditionHolds_invert:
  assumes "c < 14"
  shows "ConditionHolds (if even c then c + 1 else c - 1) f = (\<not> ConditionHolds c f)"
proof -
  have "c = 0 \<or> c = 1 \<or> c = 2 \<or> c = 3 \<or> c = 4 \<or> c = 5 \<or> c = 6 \<or> c = 7 \<or> c = 8 \<or> c = 9 \<or> c = 10
      \<or> c = 11 \<or> c = 12 \<or> c = 13"
    using assms by presburger
  then show ?thesis
    by (cases f) (elim disjE; simp add: ConditionHolds_def)
qed

lemma ifield_xor1:
  assumes "\<And>k. k < 4 \<Longrightarrow> bit j k = (if k = 0 then \<not> bit i 0 else bit (i :: u32) k)"
  shows "ifield j 0 4 = (if even (ifield i 0 4) then ifield i 0 4 + 1 else ifield i 0 4 - 1)"
proof -
  have "take_bit 4 j = (take_bit 4 i XOR 1 :: u32)"
    by (rule bit_word_eqI) (auto simp: bit_simps assms bit_1_iff split: if_splits)
  then have "unat (take_bit 4 j) = unat (take_bit 4 i) XOR 1"
    by (simp add: unsigned_xor_eq)
  then show ?thesis
    by (auto simp: ifield_def xor_Suc_0_eq)
qed

lemma bit_FF000010: "bit (0xFF000010 :: u32) k \<Longrightarrow> k = 4 \<or> 24 \<le> k"
proof -
  have "(0xFF000010 :: u32) = push_bit 24 (mask 8) OR push_bit 4 (mask 1)"
    by (simp add: mask_eq_exp_minus_1)
  then show "bit (0xFF000010 :: u32) k \<Longrightarrow> k = 4 \<or> 24 \<le> k"
    by (simp only: bit_or_iff bit_push_bit_iff bit_mask_iff) auto
qed

lemma exec_inverted_b_cond:
  assumes "i AND 0xFF000010 = 0x54000000" and "ifield i 0 4 < 14"
  shows "a64_exec (inverted_b_cond i) s = Some (branch_if (\<not> ConditionHolds (ifield i 0 4) (a_nzcv s)) 12 s)"
proof -
  have "inverted_b_cond i AND 0xFF000010 = i AND 0xFF000010"
    by (rule high_mask_cong[of 4]) (simp, drule bit_FF000010, auto simp: bit_set_imm bit_invert)
  then show ?thesis
    using exec_bcond[of "inverted_b_cond i" s] assms
      ifield_xor1[of "inverted_b_cond i" i] ConditionHolds_invert[OF assms(2)]
    by (simp add: simm_skip bit_set_imm bit_invert)
qed

lemma inverted_keeps:
  "bit (inverted_compare_b i) 31 = bit i 31" "bit (inverted_compare_b i) 24 = (\<not> bit i 24)"
  "ifield (inverted_compare_b i) 0 5 = ifield i 0 5" "inverted_compare_b i AND 0x7E000000 = i AND 0x7E000000"
  "bit (inverted_test_b i) 31 = bit i 31" "bit (inverted_test_b i) 24 = (\<not> bit i 24)"
  "ifield (inverted_test_b i) 0 5 = ifield i 0 5" "ifield (inverted_test_b i) 19 5 = ifield i 19 5"
  "inverted_test_b i AND 0x7E000000 = i AND 0x7E000000"
proof -
  show "bit (inverted_compare_b i) 31 = bit i 31" "bit (inverted_compare_b i) 24 = (\<not> bit i 24)"
    "bit (inverted_test_b i) 31 = bit i 31" "bit (inverted_test_b i) 24 = (\<not> bit i 24)"
    by (simp_all add: bit_set_imm bit_invert)
  have "take_bit 5 (inverted_compare_b i) = take_bit 5 i" "take_bit 5 (inverted_test_b i) = take_bit 5 i"
    by (rule take_bit_cong, simp add: bit_set_imm bit_invert)+
  then show "ifield (inverted_compare_b i) 0 5 = ifield i 0 5" "ifield (inverted_test_b i) 0 5 = ifield i 0 5"
    by (simp_all add: ifield_def)
  have "take_bit 5 (drop_bit 19 (inverted_test_b i)) = take_bit 5 (drop_bit 19 i)"
    by (rule take_bit_cong) (simp add: bit_drop_bit_eq bit_set_imm bit_invert)
  then show "ifield (inverted_test_b i) 19 5 = ifield i 19 5"
    by (simp add: ifield_def)
  show "inverted_compare_b i AND 0x7E000000 = i AND 0x7E000000" "inverted_test_b i AND 0x7E000000 = i AND 0x7E000000"
    by (rule high_mask_cong[of 25], simp, simp add: bit_set_imm bit_invert)+
qed

text \<open>The conditional branches of the three classes; \<open>B.AL\<close> and \<open>B.NV\<close> have no inverse.\<close>

definition cond_branch :: "u32 \<Rightarrow> bool" where
  "cond_branch i \<longleftrightarrow> i AND 0xFF000010 = 0x54000000 \<and> ifield i 0 4 < 14
     \<or> i AND 0x7E000000 = 0x34000000 \<or> i AND 0x7E000000 = 0x36000000"

lemma cond_branch_pair:
  assumes "cond_branch i"
  shows "\<exists>w b off. chunk cur i = Inr ([w, ldr17, br17], [(1, cur + off)])
    \<and> a64_exec i (s\<lparr>a_pc := cur\<rparr>) = Some (branch_if b off (s\<lparr>a_pc := cur\<rparr>))
    \<and> a64_exec w s = Some (branch_if (\<not> b) 12 s)"
proof -
  consider "i AND 0xFF000010 = 0x54000000" "ifield i 0 4 < 14" | "i AND 0x7E000000 = 0x34000000"
    | "i AND 0x7E000000 = 0x36000000"
    using assms by (auto simp: cond_branch_def)
  then show ?thesis
  proof cases
    case 1
    then show ?thesis
      by (simp add: chunk_b_cond exec_bcond exec_inverted_b_cond) blast
  next
    case 2
    then have "a64_exec (inverted_compare_b i) s = Some (branch_if
      (\<not> (((if bit i 31 then x_get (ifield i 0 5) s else take_bit 32 (x_get (ifield i 0 5) s)) = 0) = (\<not> bit i 24))) 12 s)"
      using exec_cb[of "inverted_compare_b i" s] by (simp add: inverted_keeps simm_skip)
    with 2 show ?thesis
      by (auto simp: chunk_compare_b exec_cb x_get_def)
  next
    case 3
    then have "a64_exec (inverted_test_b i) s = Some (branch_if
      (\<not> (bit (x_get (ifield i 0 5) s) ((if bit i 31 then 32 else 0) + ifield i 19 5) = bit i 24)) 12 s)"
      using exec_tb[of "inverted_test_b i" s] by (simp add: inverted_keeps simm_skip)
    with 3 show ?thesis
      by (auto simp: chunk_test_b exec_tb x_get_def)
  qed
qed

section \<open>Simulation of the relocated code\<close>

text \<open>The address, in code placed at \<open>start\<close>, of the \<open>j\<close>-th rewritten instruction.\<close>

definition relocated_at :: "u64 \<Rightarrow> (u32 list \<times> (nat \<times> u64) list) list \<Rightarrow> nat \<Rightarrow> u64" where
  "relocated_at start cs j = start + of_nat (4 * length (words_of (take j cs)))"

lemma cs_split: "j < length cs \<Longrightarrow> cs @ ts = take j cs @ cs ! j # (drop (Suc j) cs @ ts)"
  using id_take_nth_drop[of j cs] by simp

lemma relocated_at_Suc:
  "j < length cs \<Longrightarrow> relocated_at start cs (Suc j) = relocated_at start cs j + of_nat (4 * length (fst (cs ! j)))"
  by (simp add: relocated_at_def take_Suc_conv_app_nth algebra_simps)

text \<open>
  What it means that the rewritten form of the instruction \<open>i\<close>, taken from \<open>cur\<close>, does what
  \<open>i\<close> does there.  \<open>nxt\<close> is the address of the next rewritten instruction, which stands for
  \<open>cur + 4\<close>; x17 is the scratch register, free to change unless the instruction writes it.
\<close>

definition corr :: "u64 \<Rightarrow> u64 \<Rightarrow> u64 \<Rightarrow> u64 \<Rightarrow> bool" where
  "corr cur nxt v v' \<longleftrightarrow> v = v' \<or> v' = cur + 4 \<and> v = nxt"

definition adr_like :: "u32 \<Rightarrow> bool" where
  "adr_like i \<longleftrightarrow> i AND 0x9F000000 = 0x10000000 \<or> i AND 0x9F000000 = 0x90000000"

definition ldr_x_literal :: "u32 \<Rightarrow> bool" where
  "ldr_x_literal i \<longleftrightarrow> i AND 0xFF000000 = 0x58000000"

definition branch_like :: "u32 \<Rightarrow> bool" where
  "branch_like i \<longleftrightarrow> i AND 0x7C000000 = 0x14000000 \<or> cond_branch i"

definition simulates :: "u64 \<Rightarrow> u64 \<Rightarrow> u32 \<Rightarrow> a64 \<Rightarrow> bool" where
  "simulates cur nxt i s \<longleftrightarrow>
     (\<exists>k t u. a64_steps k s = Some t \<and> a64_exec i (s\<lparr>a_pc := cur\<rparr>) = Some u
        \<and> same_except {17, 30} t u
        \<and> ((adr_like i \<or> ldr_x_literal i) \<and> ifield i 0 5 = 17 \<longrightarrow> a_gpr t 17 = a_gpr u 17)
        \<and> corr cur nxt (a_gpr t 30) (a_gpr u 30) \<and> corr cur nxt (a_pc t) (a_pc u))"

lemma b_or_bl:
  assumes "(i :: u32) AND 0x7C000000 = 0x14000000" and "i AND 0xFC000000 \<noteq> 0x94000000"
  shows "i AND 0xFC000000 = 0x14000000"
proof -
  have "i AND 0xFC000000 = (i AND 0x80000000) OR (i AND 0x7C000000)"
    by (simp flip: bit.conj_disj_distrib)
  moreover have "i AND 0x80000000 = 0 \<or> i AND 0x80000000 = 0x80000000"
  proof -
    have m: "(0x80000000 :: u32) = push_bit 31 1" by simp
    have "i AND push_bit 31 1 = (if bit i 31 then push_bit 31 1 else 0)"
      by (rule bit_word_eqI) (auto simp: bit_simps bit_consts)
    then show ?thesis unfolding m by auto
  qed
  ultimately show ?thesis
    using assms by auto
qed

lemma sim_b_bl:
  assumes "placed (a_mem s) start (cs @ ts)" and "j < length cs" and "chunk cur i = Inr (cs ! j)"
    and "i AND 0x7C000000 = 0x14000000" and "a_pc s = relocated_at start cs j"
  shows "simulates cur (relocated_at start cs (Suc j)) i s"
proof -
  let ?d = "cur + simm i 0 26 2" and ?br = "if i AND 0xFC000000 = 0x94000000 then blr17 else br17"
  have c: "cs ! j = ([ldr17, ?br], [(0, ?d)])"
    using assms(3,4) by (simp add: chunk_b_bl)
  note pl = assms(1)[unfolded cs_split[OF assms(2), of ts]]
  have run: "a64_steps 2 s = a64_exec ?br ((x_set 17 ?d s)\<lparr>a_pc := a_pc s + 4\<rparr>)"
    using long_jump_runs[OF pl, of 0 ?d] c assms(5) by (simp add: relocated_at_def)
  have nxt: "relocated_at start cs (Suc j) = a_pc s + 8"
    using relocated_at_Suc[OF assms(2), of start] c assms(5) by simp
  have w: "\<not> adr_like i" "\<not> ldr_x_literal i"
    by (simp_all add: adr_like_def ldr_x_literal_def mask_excl[OF assms(4)])
  show ?thesis
  proof (cases "i AND 0xFC000000 = 0x94000000")
    case True
    then show ?thesis
      unfolding simulates_def using run exec_bl[OF True, of "s\<lparr>a_pc := cur\<rparr>"] w nxt
      by (intro exI[of _ 2]) (auto simp: br17_exec same_except_def corr_def x_set_def branch_if_def)
  next
    case False
    have "i AND 0xFC000000 = 0x14000000"
      using assms(4) False by (rule b_or_bl)
    then show ?thesis
      unfolding simulates_def using run False exec_b[of i "s\<lparr>a_pc := cur\<rparr>"] w
      by (intro exI[of _ 2]) (auto simp: br17_exec same_except_def corr_def x_set_def branch_if_def)
  qed
qed

lemma sim_cond_branch:
  assumes "placed (a_mem s) start (cs @ ts)" and "j < length cs" and "chunk cur i = Inr (cs ! j)"
    and "cond_branch i" and "a_pc s = relocated_at start cs j"
  shows "\<exists>n t u. a64_steps n s = Some t \<and> a64_exec i (s\<lparr>a_pc := cur\<rparr>) = Some u \<and> same_except {17} t u
    \<and> (a_pc t = a_pc u \<or> a_pc u = cur + 4 \<and> a_pc t = relocated_at start cs (Suc j))"
proof -
  obtain w b off where w: "cs ! j = ([w, ldr17, br17], [(1, cur + off)])"
    and u: "a64_exec i (s\<lparr>a_pc := cur\<rparr>) = Some (branch_if b off (s\<lparr>a_pc := cur\<rparr>))"
    and inv: "a64_exec w s = Some (branch_if (\<not> b) 12 s)"
    using cond_branch_pair[OF assms(4), of cur s] assms(3) by auto
  note pl = assms(1)[unfolded cs_split[OF assms(2), of ts]]
  have step: "a64_step s = Some (branch_if (\<not> b) 12 s)"
    using chunk_plain[OF pl, of 0] assms(5) w inv by (simp add: relocated_at_def)
  show ?thesis
  proof (cases b)
    case False
    have "a64_steps 1 s = Some (branch_if True 12 s)"
      using step False by simp
    then show ?thesis
      using u False assms(5) relocated_at_Suc[OF assms(2), of start] w
      by (intro exI[of _ 1]) (auto simp: same_except_def branch_if_def)
  next
    case True
    let ?s = "branch_if False 12 s"
    have "a64_steps 2 ?s = a64_exec br17 ((x_set 17 (cur + off) ?s)\<lparr>a_pc := a_pc ?s + 4\<rparr>)"
      using long_jump_runs[of ?s start "take j cs" "cs ! j" "drop (Suc j) cs @ ts" 1 "cur + off"] pl w assms(5)
      by (simp add: branch_if_def relocated_at_def algebra_simps)
    then have "a64_steps 3 s = Some ((x_set 17 (cur + off) ?s)\<lparr>a_pc := cur + off\<rparr>)"
      using step True by (simp add: br17_exec x_set_def)
    then show ?thesis
      using u True by (intro exI[of _ 3]) (auto simp: same_except_def branch_if_def x_set_def)
  qed
qed

lemma cond_branch_not_data:
  assumes "cond_branch i"
  shows "\<not> adr_like i \<and> \<not> ldr_x_literal i"
proof -
  consider "i AND 0xFF000010 = 0x54000000" | "i AND 0x7E000000 = 0x34000000" | "i AND 0x7E000000 = 0x36000000"
    using assms by (auto simp: cond_branch_def)
  then show ?thesis
  proof cases
    case 1
    then show ?thesis by (simp add: adr_like_def ldr_x_literal_def mask_excl[OF 1])
  next
    case 2
    then show ?thesis by (simp add: adr_like_def ldr_x_literal_def mask_excl[OF 2])
  next
    case 3
    then show ?thesis by (simp add: adr_like_def ldr_x_literal_def mask_excl[OF 3])
  qed
qed

lemma simulates_cond_branch:
  assumes "placed (a_mem s) start (cs @ ts)" and "j < length cs" and "chunk cur i = Inr (cs ! j)"
    and "cond_branch i" and "a_pc s = relocated_at start cs j"
  shows "simulates cur (relocated_at start cs (Suc j)) i s"
proof -
  have "\<not> adr_like i" "\<not> ldr_x_literal i"
    using assms(4) by (simp_all add: cond_branch_not_data)
  moreover obtain n t u where "a64_steps n s = Some t" "a64_exec i (s\<lparr>a_pc := cur\<rparr>) = Some u" "same_except {17} t u"
    "a_pc t = a_pc u \<or> a_pc u = cur + 4 \<and> a_pc t = relocated_at start cs (Suc j)"
    using sim_cond_branch[OF assms] by blast
  ultimately show ?thesis
    unfolding simulates_def
    by (intro exI[of _ n] exI[of _ t] exI[of _ u]) (auto simp: same_except_def corr_def)
qed

lemma ifield_reg: "ifield i 0 5 = unat (take_bit 5 i)"
  by (simp add: ifield_def)

lemma adrp_page:
  "arm64_trunc_page (cur + push_bit 12 off) = (cur AND NOT (mask 12)) + push_bit 12 off"
proof -
  let ?x = "drop_bit 12 cur + off"
  have "cur + push_bit 12 off = push_bit 12 ?x + take_bit 12 cur"
    using bits_ident[of 12 cur] by (simp add: push_bit_add algebra_simps)
  also have "\<dots> = push_bit 12 ?x OR take_bit 12 cur"
    by (rule disjunctive_add) (auto simp: bit_push_bit_iff bit_take_bit_iff)
  finally have "(cur + push_bit 12 off) AND NOT (mask 12) = push_bit 12 ?x"
    by (simp only:) (rule bit_word_eqI, auto simp: bit_simps)
  moreover have "arm64_trunc_page x = x AND NOT (mask 12)" for x
    by (simp add: arm64_trunc_page_def mask_eq_exp_minus_1)
  ultimately show ?thesis
    by (simp add: and_not_mask push_bit_add)
qed

lemma sim_adr:
  assumes "placed (a_mem s) start (cs @ ts)" and "j < length cs" and "chunk cur i = Inr (cs ! j)"
    and "adr_like i" and "a_pc s = relocated_at start cs j"
  shows "simulates cur (relocated_at start cs (Suc j)) i s"
proof -
  obtain d where c: "cs ! j = (mov_words (take_bit 5 i) d, [])"
    and u: "a64_exec i (s\<lparr>a_pc := cur\<rparr>) = Some (next_pc (x_set (ifield i 0 5) d (s\<lparr>a_pc := cur\<rparr>)))"
  proof (cases "i AND 0x9F000000 = 0x10000000")
    case True
    with assms(3) show ?thesis
      by (intro that[of "cur + adr_imm i"]) (simp_all add: chunk_adr exec_adr)
  next
    case False
    with assms(3,4) show ?thesis
      by (intro that[of "arm64_trunc_page (cur + push_bit 12 (adr_imm i))"])
        (simp_all add: adr_like_def chunk_adrp exec_adrp adrp_page)
  qed
  note pl = assms(1)[unfolded cs_split[OF assms(2), of ts]]
  have run: "a64_steps 4 s = Some ((x_set (ifield i 0 5) d s)\<lparr>a_pc := a_pc s + 16\<rparr>)"
    unfolding ifield_reg using c assms(5) by (intro mov_runs[OF pl]) (simp_all add: relocated_at_def)
  have nxt: "relocated_at start cs (Suc j) = a_pc s + 16"
    using relocated_at_Suc[OF assms(2), of start] c assms(5) by simp
  show ?thesis
    unfolding simulates_def using run u nxt
    by (intro exI[of _ 4]) (auto simp: same_except_def corr_def x_set_def next_pc_def simp del: a64_steps_numeral)
qed

lemma sim_ldr:
  assumes "placed (a_mem s) start (cs @ ts)" and "j < length cs" and "chunk cur i = Inr (cs ! j)"
    and "ldr_x_literal i" and "a_pc s = relocated_at start cs j"
  shows "simulates cur (relocated_at start cs (Suc j)) i s"
proof -
  let ?d = "cur + simm i 5 19 2" and ?w = "0xF9400220 OR take_bit 5 i"
  have i: "i AND 0xFF000000 = 0x58000000"
    using assms(4) by (simp add: ldr_x_literal_def)
  have c: "cs ! j = (mov_words 17 ?d @ [?w], [])"
    using assms(3) chunk_ldr[OF i, of cur] by simp
  note pl = assms(1)[unfolded cs_split[OF assms(2), of ts]]
  let ?t = "(x_set 17 ?d s)\<lparr>a_pc := a_pc s + 16\<rparr>"
  have run: "a64_steps 4 s = Some ?t"
    using mov_runs[OF pl, of 17 ?d "[?w]"] c assms(5) by (simp add: relocated_at_def del: a64_steps_numeral)
  have w: "?w AND 0xFFC00000 = 0xF9400000" "ifield ?w 0 5 = ifield i 0 5" "ifield ?w 5 5 = 17" "ifield ?w 10 12 = 0"
    by (simp_all add: ifield_def bit.conj_disj_distrib2 low_field_and_mask low_field_outside)
  have "a64_step ?t = a64_exec ?w ?t"
    using chunk_plain[of ?t start "take j cs" "cs ! j" "drop (Suc j) cs @ ts" 4] pl c assms(5)
    by (simp add: nth_append relocated_at_def algebra_simps)
  then have "a64_steps (4 + 1) s = Some (next_pc (x_set (ifield i 0 5) (load64 s ?d) ?t))"
    unfolding a64_steps_add run using w by (simp add: exec_ldr xsp_get_def x_set_def load64_def)
  moreover have "a64_exec i (s\<lparr>a_pc := cur\<rparr>) = Some (next_pc (x_set (ifield i 0 5) (load64 s ?d) (s\<lparr>a_pc := cur\<rparr>)))"
    by (simp add: exec_ldr_literal[OF i] load64_def)
  moreover have "relocated_at start cs (Suc j) = a_pc s + 20"
    using relocated_at_Suc[OF assms(2), of start] c assms(5) by simp
  ultimately show ?thesis
    unfolding simulates_def
    by (intro exI[of _ "4 + 1"]) (auto simp: same_except_def corr_def x_set_def next_pc_def simp del: a64_steps_numeral)
qed

text \<open>Every other instruction is copied.\<close>

definition position_free :: "u32 \<Rightarrow> bool" where
  "position_free i \<longleftrightarrow> \<not> (inst_is_b_bl i \<or> inst_is_ldr_literal i \<or> inst_is_adr i \<or> inst_is_adrp i
     \<or> inst_is_b_cond i \<or> inst_is_compare_b i \<or> inst_is_test_b i)"

lemma sim_copied:
  assumes "placed (a_mem s) start (cs @ ts)" and "j < length cs" and "chunk cur i = Inr (cs ! j)"
    and "position_free i" and "a_pc s = relocated_at start cs j"
  shows "a64_step s = a64_exec i s" and "relocated_at start cs (Suc j) = a_pc s + 4"
proof -
  have c: "cs ! j = ([i], [])"
    using assms(3,4) by (simp add: chunk_def position_free_def)
  note pl = assms(1)[unfolded cs_split[OF assms(2), of ts]]
  show "a64_step s = a64_exec i s"
    using chunk_plain[OF pl, of 0] c assms(5) by (simp add: relocated_at_def)
  show "relocated_at start cs (Suc j) = a_pc s + 4"
    using relocated_at_Suc[OF assms(2), of start] c assms(5) by simp
qed

lemma sim_return:
  assumes "placed (a_mem s) start (cs @ tail_chunk True d)" and "a_pc s = relocated_at start cs (length cs)"
  shows "\<exists>t. a64_steps 2 s = Some t \<and> a_pc t = d \<and> same_except {17} t s"
proof -
  have pl: "placed (a_mem s) start (cs @ ([ldr17, br17], [(0, d)]) # [])"
    using assms(1) by (simp add: tail_chunk_def)
  have "a64_steps 2 s = a64_exec br17 ((x_set 17 d s)\<lparr>a_pc := a_pc s + 4\<rparr>)"
    using long_jump_runs[OF pl, of 0 d] assms(2) by (simp add: relocated_at_def)
  then show ?thesis
    by (simp add: br17_exec x_set_def same_except_def)
qed

lemma two_bits:
  fixes y :: u32
  assumes "take_bit 2 y = y"
  shows "y = 0 \<or> y = 1 \<longleftrightarrow> \<not> bit y 1"
proof
  assume "\<not> bit y 1"
  then have "take_bit (Suc 0) y = take_bit 2 y"
    by (intro bit_word_eqI) (auto simp: bit_take_bit_iff less_2_cases_iff bit_0)
  then have "y mod 2 = y"
    using assms by (simp add: take_bit_eq_mod)
  then have "y = of_bool (odd y)"
    using mod_2_eq_odd[of y] by (rule trans[OF sym])
  then show "y = 0 \<or> y = 1" by (cases "odd y") simp_all
qed (auto simp: bit_1_iff)

lemma opc_refused:
  "take_bit 2 (drop_bit 30 (i :: u32)) = 0 \<or> take_bit 2 (drop_bit 30 i) = 1 \<longleftrightarrow> \<not> bit i 31"
  by (subst two_bits) (simp_all add: bit_simps)

lemma chunk_errors:
  "inst_is_ldr_literal i \<Longrightarrow> bit i 31 \<Longrightarrow> chunk cur i = Inl Unimplemented"
  "\<not> (inst_is_ldr_literal i \<and> bit i 31) \<Longrightarrow> \<exists>c. chunk cur i = Inr c"
proof -
  have "\<not> inst_is_b_bl i" if "inst_is_ldr_literal i"
    using that mask_excl[of i "0x3B000000" "0x18000000" "0x7C000000" "0x14000000"] by (simp add: class_defs)
  then show "inst_is_ldr_literal i \<Longrightarrow> bit i 31 \<Longrightarrow> chunk cur i = Inl Unimplemented"
    "\<not> (inst_is_ldr_literal i \<and> bit i 31) \<Longrightarrow> \<exists>c. chunk cur i = Inr c"
    by (simp_all add: chunk_def opc_refused)
qed

lemma chunks_errors:
  "if \<exists>i \<in> set is. inst_is_ldr_literal i \<and> bit i 31 then chunks cur is = Inl Unimplemented
   else \<exists>cs. chunks cur is = Inr cs"
proof (induction "is" arbitrary: cur)
  case (Cons i "is")
  show ?case
    using chunk_errors[of i cur] Cons.IH[of "cur + 4"]
    by (cases "inst_is_ldr_literal i \<and> bit i 31") (auto split: if_splits)
qed simp

lemma relocation_simulates:
  assumes "relocate_arm64_code m origin branch = Some (Inr (origin', code))"
    and "unat (ucast (rsize origin) :: u32) \<le> 2 ^ 26" and "length code < 2 ^ 20"
    and "n = inst_count (ucast (rsize origin))"
  shows "range_addr origin' = range_addr origin \<and> rsize origin' = of_nat (4 * n)
    \<and> (\<exists>entry. entry 0 = start
        \<and> (\<forall>s j. bytes_at (a_mem s) start code \<and> j < n \<and> a_pc s = entry j \<longrightarrow>
             (let cur = range_addr origin + of_nat (4 * j); i = le_word (mem_read m cur 4)
              in (branch_like i \<or> adr_like i \<or> ldr_x_literal i \<longrightarrow> simulates cur (entry (Suc j)) i s)
                 \<and> (position_free i \<longrightarrow> a64_step s = a64_exec i s \<and> entry (Suc j) = a_pc s + 4)))
        \<and> (\<forall>s. bytes_at (a_mem s) start code \<and> branch \<and> a_pc s = entry n \<longrightarrow>
             (\<exists>t. a64_steps 2 s = Some t \<and> a_pc t = range_addr origin + of_nat (4 * n) \<and> same_except {17} t s)))"
proof -
  let ?o = "range_addr origin"
  obtain cs where cs: "chunks ?o (insts_at m ?o n) = Inr cs"
    using relocate_code_error[OF assms(2) _ assms(4)] assms(1) by (cases "chunks ?o (insts_at m ?o n)") auto
  let ?ts = "tail_chunk branch (?o + of_nat (4 * n))" and ?e = "relocated_at start cs"
  have res: "origin' = range_resize origin (of_nat (4 * n))" "code = finished (cs @ ?ts)"
    using relocate_code_chunks[OF assms(2) cs assms(4), of branch] assms(1) by auto
  have pl: "placed mm start (cs @ ?ts)" if "bytes_at mm start code" for mm
    using that res(2) assms(3) chunks_ok[OF cs] by (simp add: placed_def)
  have len: "length cs = n"
    using chunks_nth[OF cs] by (simp add: insts_at_def)
  have ch: "chunk (?o + of_nat (4 * j)) (le_word (mem_read m (?o + of_nat (4 * j)) 4)) = Inr (cs ! j)" if "j < n" for j
    using chunks_nth[OF cs] that by (simp add: insts_at_def)
  have sim: "(branch_like i \<or> adr_like i \<or> ldr_x_literal i \<longrightarrow> simulates cur (?e (Suc j)) i s)
      \<and> (position_free i \<longrightarrow> a64_step s = a64_exec i s \<and> ?e (Suc j) = a_pc s + 4)"
    if "bytes_at (a_mem s) start code" "j < n" "a_pc s = ?e j" "cur = ?o + of_nat (4 * j)"
      "i = le_word (mem_read m cur 4)" for s j cur i
  proof -
    note f = pl[OF that(1)] that(2)[folded len] ch[OF that(2), folded that(4), folded that(5)]
    show ?thesis
      using sim_b_bl[OF f _ that(3)] simulates_cond_branch[OF f _ that(3)] sim_adr[OF f _ that(3)]
        sim_ldr[OF f _ that(3)] sim_copied[OF f _ that(3)] unfolding branch_like_def by blast
  qed
  have ret: "\<exists>t. a64_steps 2 s = Some t \<and> a_pc t = ?o + of_nat (4 * n) \<and> same_except {17} t s"
    if "bytes_at (a_mem s) start code" "branch" "a_pc s = ?e n" for s
    using sim_return[of s start cs] pl[OF that(1)] that(2,3) len by (simp add: del: a64_steps_numeral)
  have e0: "?e 0 = start"
    by (simp add: relocated_at_def)
  show ?thesis
    unfolding Let_def using res(1) e0 sim[OF _ _ _ refl refl] ret
    by (intro conjI exI[of _ ?e]) (simp, simp, blast, blast, blast)
qed

section \<open>The properties\<close>

text \<open>
  C5. Relocated A64 code does what the original did.  Take any relocation that succeeds, with its code
  placed at \<open>start\<close>.  There are entry points, the first at \<open>start\<close>, one for each instruction of the
  origin block and one behind them, such that from the entry point of the \<open>j\<close>-th instruction the
  relocated code has the effect of that instruction at its original address: it branches to the original
  target or goes on at the next entry point, with every register but the scratch register x17 equal
  (a call's return address is the next entry point).  This holds for B, BL, B.cond with a proper
  condition, CBZ, CBNZ, TBZ, TBNZ, ADR, ADRP and the 64-bit LDR (literal); position-independent
  instructions are executed unchanged; and the last entry point jumps to the first instruction that
  was not relocated.
\<close>

theorem arm64_relocation_simulates:
  assumes "relocate_arm64_code m origin branch = Some (Inr (origin', code))"
    and "unat (ucast (rsize origin) :: u32) \<le> 2 ^ 26" and "length code < 2 ^ 20"
    and "n = inst_count (ucast (rsize origin))"
  shows "range_addr origin' = range_addr origin \<and> rsize origin' = of_nat (4 * n)
    \<and> (\<exists>entry. entry 0 = start
        \<and> (\<forall>s j. bytes_at (a_mem s) start code \<and> j < n \<and> a_pc s = entry j \<longrightarrow>
             (let cur = range_addr origin + of_nat (4 * j); i = le_word (mem_read m cur 4)
              in (branch_like i \<or> adr_like i \<or> ldr_x_literal i \<longrightarrow> simulates cur (entry (Suc j)) i s)
                 \<and> (position_free i \<longrightarrow> a64_step s = a64_exec i s \<and> entry (Suc j) = a_pc s + 4)))
        \<and> (\<forall>s. bytes_at (a_mem s) start code \<and> branch \<and> a_pc s = entry n \<longrightarrow>
             (\<exists>t. a64_steps 2 s = Some t \<and> a_pc t = range_addr origin + of_nat (4 * n) \<and> same_except {17} t s)))"
  by (rule relocation_simulates[OF assms])

theorem arm64_relocation_simulates_witness:
  "\<exists>origin' code entry. relocate_arm64_code (mem_write (\<lambda>_. 0) 0x1000 (wcode [0x14000040, 0xD503201F]))
       (MemRange_new 0x1000 8) True = Some (Inr (origin', code))
     \<and> length code = 36 \<and> rsize origin' = 8 \<and> entry (0 :: nat) = (0x7000 :: u64)
     \<and> (\<forall>s. bytes_at (a_mem s) 0x7000 code \<and> a_pc s = entry 0 \<longrightarrow> simulates 0x1000 (entry 1) 0x14000040 s)"
proof -
  let ?m = "mem_write (\<lambda>_. 0) 0x1000 (wcode [0x14000040, 0xD503201F]) :: 64 mem"
  let ?o = "MemRange_new 0x1000 8"
  let ?cs = "[([ldr17, br17], [(0, 0x1100)]), ([0xD503201F], [])] :: (u32 list \<times> (nat \<times> u64) list) list"
  have n: "inst_count (ucast (rsize ?o)) = 2"
    by (simp add: inst_count_def)
  have cs: "chunks (range_addr ?o) (insts_at ?m (range_addr ?o) 2) = Inr ?cs"
    by code_simp
  have r: "relocate_arm64_code ?m ?o True = Some (Inr (range_resize ?o 8, finished (?cs @ tail_chunk True 0x1008)))"
    using relocate_code_chunks[OF _ cs n[symmetric], of True] by simp
  have l: "length (finished (?cs @ tail_chunk True 0x1008)) = 36"
    by (simp add: finished_def tail_chunk_def)
  have i: "le_word (mem_read ?m 0x1000 4) = (0x14000040 :: u32)"
    by code_simp
  have br: "branch_like 0x14000040"
    by (simp add: branch_like_def)
  obtain entry where e: "entry 0 = (0x7000 :: u64)" "\<forall>s j. bytes_at (a_mem s) 0x7000 (finished (?cs @ tail_chunk True 0x1008))
      \<and> j < 2 \<and> a_pc s = entry j \<longrightarrow>
      (let cur = range_addr ?o + of_nat (4 * j); i = le_word (mem_read ?m cur 4)
       in (branch_like i \<or> adr_like i \<or> ldr_x_literal i \<longrightarrow> simulates cur (entry (Suc j)) i s)
          \<and> (position_free i \<longrightarrow> a64_step s = a64_exec i s \<and> entry (Suc j) = a_pc s + 4))"
    using arm64_relocation_simulates[OF r _ _ n[symmetric], of "0x7000"] l by auto
  then have "\<forall>s. bytes_at (a_mem s) 0x7000 (finished (?cs @ tail_chunk True 0x1008)) \<and> a_pc s = entry 0 \<longrightarrow>
      simulates 0x1000 (entry 1) 0x14000040 s"
    using i br e(2)[rule_format, of _ 0] by (simp add: Let_def del: mem_read.simps)
  then show ?thesis
    using r l e(1) by (intro exI[of _ "range_resize ?o 8"] exI[of _ "finished (?cs @ tail_chunk True 0x1008)"] exI[of _ entry]) simp
qed



text \<open>
  C26. The only error of an A64 relocation is the refusal of a literal load whose
  \<^verbatim>\<open>opc\<close> is neither 0 nor 1 (LDRSW, PRFM and the 128-bit SIMD load): a relocation succeeds
  exactly when the block holds none, and otherwise stops as unimplemented.
\<close>

theorem arm64_relocation_errors:
  assumes "unat (ucast (rsize origin) :: u32) \<le> 2 ^ 26" and "n = inst_count (ucast (rsize origin))"
  shows "if \<exists>j < n. let i = le_word (mem_read m (range_addr origin + of_nat (4 * j)) 4) :: u32
                    in inst_is_ldr_literal i \<and> bit i 31
         then relocate_arm64_code m origin branch = Some (Inl Unimplemented)
         else \<exists>res. relocate_arm64_code m origin branch = Some (Inr res)"
proof -
  let ?is = "insts_at m (range_addr origin) n"
  have bad: "(\<exists>j < n. let i = le_word (mem_read m (range_addr origin + of_nat (4 * j)) 4) :: u32
      in inst_is_ldr_literal i \<and> bit i 31) \<longleftrightarrow> (\<exists>i \<in> set ?is. inst_is_ldr_literal i \<and> bit i 31)"
    by (auto simp: insts_at_def Let_def)
  show ?thesis
    unfolding bad using chunks_errors[of ?is "range_addr origin"]
      relocate_code_error[OF assms(1) _ assms(2)] relocate_code_chunks[OF assms(1) _ assms(2)]
    by (auto split: if_splits)
qed

theorem arm64_relocation_errors_witness:
  "relocate_arm64_code (mem_write (\<lambda>_. 0) 0x1000 (wcode [0x98000040])) (MemRange_new 0x1000 4) False
     = Some (Inl Unimplemented)
   \<and> (\<exists>res. relocate_arm64_code (mem_write (\<lambda>_. 0) 0x1000 (wcode [0x58000040])) (MemRange_new 0x1000 4) False
     = Some (Inr res))"
proof -
  have i: "le_word (mem_read (mem_write (\<lambda>_. 0) (0x1000 :: u64) (wcode [0x98000040])) 0x1000 4) = (0x98000040 :: u32)"
    "le_word (mem_read (mem_write (\<lambda>_. 0) (0x1000 :: u64) (wcode [0x58000040])) 0x1000 4) = (0x58000040 :: u32)"
    by code_simp+
  have b: "bit (0x98000040 :: u32) 31" "\<not> bit (0x58000040 :: u32) 31" "inst_is_ldr_literal 0x98000040"
    by code_simp+
  show ?thesis
    using arm64_relocation_errors[of "MemRange_new 0x1000 4" 1 "mem_write (\<lambda>_. 0) 0x1000 (wcode [0x98000040])" False]
      arm64_relocation_errors[of "MemRange_new 0x1000 4" 1 "mem_write (\<lambda>_. 0) 0x1000 (wcode [0x58000040])" False] i b
    by (simp add: inst_count_def Let_def del: mem_read.simps wcode_simps mem_write.simps)
qed






text \<open>
  \<^verbatim>\<open>TurboAssembler::Mov\<close> materialises any 64-bit constant: executing the sixteen bytes it
  emits leaves the constant in the register, and changes nothing else but the program counter.
\<close>

lemma arm64_mov_materialises:
  assumes "take_bit 5 r = r" and "asm_code (asm_Mov (reg_X r) imm a) = asm_code a @ bs"
    and "bytes_at (a_mem s) (a_pc s) bs"
  shows "a64_steps 4 s = Some ((x_set (unat r) imm s)\<lparr>a_pc := a_pc s + 16\<rparr>)"
proof -
  have "bs = finished [(mov_words r imm, [])]"
    using assms(2) by (simp add: mov_emits finished_def)
  then have "placed (a_mem s) (a_pc s) ([] @ (mov_words r imm, []) # [])"
    using assms(3) by (simp add: placed_def length_finished chunk_ok_def)
  from mov_runs[OF this _ _ assms(1)] show ?thesis by simp
qed

end
