(* ===== verification/Linear_Allocator.thy ===== *)
theory Linear_Allocator
  imports Dobby_Prelude
begin

text \<open>
  \<^verbatim>\<open>simple_linear_allocator_t\<close> of \<^verbatim>\<open>common/linear_allocator.h\<close>, the bump allocator
  both page allocators place blocks with.  Sizes are 32-bit; an allocation that does not fit returns
  the null pointer, after the alignment gap has been consumed.
\<close>

record simple_linear_allocator_t =
  sla_buffer :: u64
  sla_size :: u32
  sla_capacity :: u32
  sla_alignment :: u32

definition sla_init :: "u64 \<Rightarrow> u32 \<Rightarrow> u32 \<Rightarrow> simple_linear_allocator_t" where
  "sla_init in_buffer in_capacity in_alignment =
     \<lparr>sla_buffer = in_buffer, sla_size = 0, sla_capacity = in_capacity,
      sla_alignment = (if in_alignment = 0 then 1 else in_alignment)\<rparr>"

definition sla_cursor :: "simple_linear_allocator_t \<Rightarrow> u64" where
  "sla_cursor a = sla_buffer a + ucast (sla_size a)"

definition sla_alloc :: "u32 \<Rightarrow> u32 \<Rightarrow> simple_linear_allocator_t \<Rightarrow> u64 \<times> simple_linear_allocator_t" where
  "sla_alloc in_size in_alignment a =
     (let alignment = (if in_alignment \<noteq> 0 then in_alignment else sla_alignment a);
          gap_size = (ucast (ALIGN_CEIL (sla_cursor a) (ucast alignment) - sla_cursor a) :: u32);
          a = a\<lparr>sla_size := sla_size a + gap_size\<rparr>
      in if sla_size a + in_size > sla_capacity a then (0, a)
         else (sla_cursor a, a\<lparr>sla_size := sla_size a + in_size\<rparr>))"

section \<open>Alignment\<close>

text \<open>How far an offset is from the next multiple of \<open>n\<close>.\<close>

definition pad :: "nat \<Rightarrow> nat \<Rightarrow> nat" where
  "pad n x = (n - x mod n) mod n"

lemma pad_dvd: "0 < n \<Longrightarrow> n dvd x + pad n x"
proof -
  assume n: "0 < n"
  show ?thesis
  proof (cases "x mod n = 0")
    case True
    then show ?thesis by (simp add: pad_def dvd_eq_mod_eq_0)
  next
    case False
    then have "pad n x = n - x mod n"
      using n by (simp add: pad_def)
    then have "x + pad n x = x div n * n + n"
      using n mod_less_divisor[of n x] div_mult_mod_eq[of x n] by linarith
    then show ?thesis by simp
  qed
qed

lemma pad_less: "0 < n \<Longrightarrow> pad n x < n"
  by (simp add: pad_def)

lemma pad_least: "0 < n \<Longrightarrow> n dvd c \<Longrightarrow> x \<le> c \<Longrightarrow> x + pad n x \<le> c"
proof -
  assume n: "0 < n" "n dvd c" "x \<le> c"
  obtain k where k: "c = n * k" using n(2) by blast
  obtain l where l: "x + pad n x = n * l" using pad_dvd[OF n(1), of x] by blast
  have "n * l < n * k + n"
    using l pad_less[OF n(1), of x] n(3) k by linarith
  then have "l < Suc k"
    by (metis mult_Suc_right nat_mult_less_cancel1 n(1) add.commute)
  then show ?thesis
    using l k by simp
qed

lemma ceil_pad: "0 < n \<Longrightarrow> (x + n - 1) div n * n = x + pad n x"
proof -
  assume n: "0 < n"
  obtain l where l: "x + pad n x = n * l" using pad_dvd[OF n, of x] by blast
  have "(x + n - 1) div n = l"
    using l pad_less[OF n, of x] n
    by (intro div_nat_eqI) (simp_all add: algebra_simps)
  then show ?thesis
    using l by simp
qed

lemma ALIGN_CEIL_unat:
  assumes "k < 64" and "unat (x :: u64) + 2 ^ k \<le> 2 ^ 64"
  shows "unat (ALIGN_CEIL x (2 ^ k)) = unat x + pad (2 ^ k) (unat x)"
proof -
  have e: "(2 ^ k :: u64) - 1 = of_nat (2 ^ k - 1)"
    by (simp add: of_nat_diff)
  have p: "unat ((2 ^ k :: u64) - 1) = 2 ^ k - 1"
    unfolding e using assms(1) power_strict_increasing[of k 64 "2 :: nat"] by (intro unat_of_nat_small) simp
  have "unat (x + (2 ^ k - 1)) = unat x + (2 ^ k - 1)"
    using assms(2) p by (subst unat_add_lem[THEN iffD1]) simp_all
  moreover have "ALIGN_CEIL x (2 ^ k) = ALIGN_FLOOR (x + (2 ^ k - 1)) (2 ^ k)"
    by (simp add: ALIGN_CEIL_def ALIGN_FLOOR_def algebra_simps)
  ultimately have "unat (ALIGN_CEIL x (2 ^ k)) = (unat x + 2 ^ k - 1) div 2 ^ k * 2 ^ k"
    using ALIGN_FLOOR_unat[of k "x + (2 ^ k - 1)"] assms(1) by simp
  then show ?thesis
    using ceil_pad[of "2 ^ k" "unat x"] by simp
qed

lemma ALIGN_CEIL_gap:
  assumes "k < 64" and "unat (x :: u64) + 2 ^ k \<le> 2 ^ 64"
  shows "unat (ALIGN_CEIL x (2 ^ k) - x) = pad (2 ^ k) (unat x)"
proof -
  have "x \<le> ALIGN_CEIL x (2 ^ k)"
    unfolding word_le_nat_alt using ALIGN_CEIL_unat[OF assms] by simp
  then show ?thesis
    using ALIGN_CEIL_unat[OF assms] by (simp add: unat_sub)
qed

section \<open>Allocation\<close>

text \<open>
  The state of a bump allocator on an aligned buffer: a power-of-two alignment that divides the
  buffer's address and its capacity, no address of the buffer wrapping around.
\<close>

definition sla_ok :: "simple_linear_allocator_t \<Rightarrow> bool" where
  "sla_ok a \<longleftrightarrow> sla_size a \<le> sla_capacity a \<and> sla_alignment a = 8
     \<and> 8 dvd unat (sla_buffer a) \<and> 8 dvd unat (sla_capacity a) \<and> unat (sla_capacity a) \<le> 2 ^ 30
     \<and> 0 < unat (sla_buffer a) \<and> unat (sla_buffer a) + unat (sla_capacity a) < 2 ^ 64"

text \<open>Where the next block goes.\<close>

definition sla_next :: "simple_linear_allocator_t \<Rightarrow> nat" where
  "sla_next a = unat (sla_size a) + pad 8 (unat (sla_size a))"

lemma pad_shift: "0 < n \<Longrightarrow> n dvd b \<Longrightarrow> pad n (b + x) = pad n x"
  by (auto simp: pad_def elim!: dvdE)

lemma sla_cursor_unat:
  assumes "sla_ok a"
  shows "unat (sla_cursor a) = unat (sla_buffer a) + unat (sla_size a)"
  unfolding sla_cursor_def using assms
  by (subst unat_add_small) (auto simp: sla_ok_def word_le_nat_alt unat_ucast_up)

lemma sla_next_bounds:
  assumes "sla_ok a"
  shows "unat (sla_size a) \<le> sla_next a" "sla_next a \<le> unat (sla_capacity a)" "8 dvd sla_next a"
  using assms pad_least[of 8 "unat (sla_capacity a)" "unat (sla_size a)"] pad_dvd[of 8 "unat (sla_size a)"]
  by (auto simp: sla_ok_def sla_next_def word_le_nat_alt)

lemma sla_gap:
  assumes "sla_ok a"
  shows "unat (sla_size a + ucast (ALIGN_CEIL (sla_cursor a) (ucast (sla_alignment a)) - sla_cursor a)) = sla_next a"
proof -
  let ?g = "ALIGN_CEIL (sla_cursor a) 8 - sla_cursor a"
  have "unat (sla_cursor a) + 2 ^ 3 \<le> 2 ^ 64"
  proof -
    have "8 dvd unat (sla_buffer a) + unat (sla_capacity a)"
      using assms by (simp add: sla_ok_def)
    then obtain q where q: "unat (sla_buffer a) + unat (sla_capacity a) = 8 * q"
      by (rule dvdE)
    then have "q + 1 \<le> 2 ^ 61"
      using assms by (simp add: sla_ok_def)
    then show ?thesis
      using q sla_cursor_unat[OF assms] assms by (simp add: sla_ok_def word_le_nat_alt)
  qed
  then have g: "unat ?g = pad 8 (unat (sla_size a))"
    using ALIGN_CEIL_gap[of 3 "sla_cursor a"] sla_cursor_unat[OF assms] assms
    by (simp add: pad_shift sla_ok_def)
  have "pad 8 (unat (sla_size a)) < 8"
    by (simp add: pad_less)
  then have "unat (ucast ?g :: u32) = pad 8 (unat (sla_size a))"
    using g by (subst unat_ucast_small) simp_all
  moreover have "unat (sla_size a) + 8 < 2 ^ 32"
    using assms by (simp add: sla_ok_def word_le_nat_alt)
  ultimately show ?thesis
    using assms \<open>pad 8 (unat (sla_size a)) < 8\<close> by (subst unat_add_small) (simp_all add: sla_ok_def sla_next_def)
qed

text \<open>What an allocation with the built-in alignment does.\<close>

lemma sla_alloc_spec:
  assumes "sla_ok a" and "0 < unat in_size" and "unat in_size \<le> 2 ^ 30"
  obtains (full) a' where "sla_alloc in_size 0 a = (0, a')" "sla_ok a'" "unat (sla_size a') = sla_next a"
      "unat (sla_capacity a) < sla_next a + unat in_size" "sla_buffer a' = sla_buffer a" "sla_capacity a' = sla_capacity a"
  | (fits) a' r where "sla_alloc in_size 0 a = (r, a')" "sla_ok a'" "unat (sla_size a') = sla_next a + unat in_size"
      "sla_next a + unat in_size \<le> unat (sla_capacity a)" "unat r = unat (sla_buffer a) + sla_next a" "r \<noteq> 0"
      "sla_buffer a' = sla_buffer a" "sla_capacity a' = sla_capacity a"
proof -
  let ?b = "a\<lparr>sla_size := sla_size a + ucast (ALIGN_CEIL (sla_cursor a) (ucast (sla_alignment a)) - sla_cursor a)\<rparr>"
  have sz: "unat (sla_size ?b) = sla_next a"
    using sla_gap[OF assms(1)] by simp
  have ok: "sla_ok ?b"
    using assms(1) sz sla_next_bounds[OF assms(1)] by (simp add: sla_ok_def word_le_nat_alt)
  have sum: "unat (sla_size ?b + in_size) = sla_next a + unat in_size"
    using sz sla_next_bounds(2)[OF assms(1)] assms by (subst unat_add_small) (simp_all add: sla_ok_def)
  have al: "sla_alloc in_size 0 a =
      (if sla_size ?b + in_size > sla_capacity a then (0, ?b) else (sla_cursor ?b, ?b\<lparr>sla_size := sla_size ?b + in_size\<rparr>))"
    by (simp add: sla_alloc_def Let_def)
  show thesis
  proof (cases "sla_size ?b + in_size > sla_capacity a")
    case True
    then show ?thesis
      using full[of ?b] al ok sz sum by (simp add: word_less_nat_alt)
  next
    case False
    have "unat (sla_cursor ?b) = unat (sla_buffer a) + sla_next a"
      using sla_cursor_unat[OF ok] sz by simp
    moreover have "sla_cursor ?b \<noteq> 0"
      using calculation assms(1) by (auto simp: sla_ok_def)
    moreover have "sla_ok (?b\<lparr>sla_size := sla_size ?b + in_size\<rparr>)"
      using False assms(1) by (simp add: sla_ok_def)
    ultimately show ?thesis
      using fits[of "sla_cursor ?b" "?b\<lparr>sla_size := sla_size ?b + in_size\<rparr>"] al False sum
      by (simp add: word_less_nat_alt not_less)
  qed
qed

end
