(* ===== verification/Memory_Allocator.thy ===== *)
theory Memory_Allocator
  imports Mem_Range Linear_Allocator
begin

text \<open>
  \<^verbatim>\<open>MemoryAllocator\<close> of \<^verbatim>\<open>source/MemoryAllocator/MemoryAllocator.h\<close>: blocks are carved
  out of pages by one bump allocator per page; a freed block is reused, and a page whose blocks are all
  free goes back to the system.  The bump allocators are heap objects shared between the two allocator
  lists and the page records, so they live in a store and are referred to by number.  What the system
  answers is an argument of the operations: the page \<^verbatim>\<open>OSMemory::Allocate\<close> would return and
  whether \<^verbatim>\<open>OSMemory::SetPermission\<close> succeeds; the pages given back with
  \<^verbatim>\<open>OSMemory::Free\<close> are returned.
\<close>

record PageRecord =
  pr_allocator :: nat
  pr_page :: addr_t
  pr_is_exec :: bool

record AllocationRecord =
  ar_addr :: addr_t
  ar_size :: size_t
  ar_page :: addr_t
  ar_is_exec :: bool
  ar_is_free :: bool

record MemoryAllocator =
  ma_store :: "nat \<Rightarrow> simple_linear_allocator_t"
  ma_next :: nat
  code_page_allocators :: "nat list"
  data_page_allocators :: "nat list"
  page_records :: "PageRecord list"
  allocation_records :: "AllocationRecord list"

definition MemoryAllocator_new :: MemoryAllocator where
  "MemoryAllocator_new =
     \<lparr>ma_store = (\<lambda>_. sla_init 0 0 8), ma_next = 0, code_page_allocators = [], data_page_allocators = [],
      page_records = [], allocation_records = []\<rparr>"

text \<open>The first free record that is large enough is taken.\<close>

fun reuse_record :: "size_t \<Rightarrow> bool \<Rightarrow> AllocationRecord list \<Rightarrow> (addr_t \<times> AllocationRecord list) option" where
  "reuse_record in_size is_exec [] = None"
| "reuse_record in_size is_exec (record # records) =
     (if ar_is_free record \<and> ar_is_exec record = is_exec \<and> ar_size record \<ge> in_size
      then Some (ar_addr record, record\<lparr>ar_is_free := False\<rparr> # records)
      else case reuse_record in_size is_exec records of
             None \<Rightarrow> None
           | Some (addr, records) \<Rightarrow> Some (addr, record # records))"

text \<open>The loop over the page allocators; each failed attempt still moves its allocator's cursor.\<close>

fun alloc_from ::
  "nat list \<Rightarrow> u32 \<Rightarrow> (nat \<Rightarrow> simple_linear_allocator_t) \<Rightarrow> addr_t \<times> (nat \<Rightarrow> simple_linear_allocator_t)" where
  "alloc_from [] in_size store = (0, store)"
| "alloc_from (allocator # allocators) in_size store =
     (let (result, a) = sla_alloc in_size 0 (store allocator);
          store = store(allocator := a)
      in if result \<noteq> 0 then (result, store) else alloc_from allocators in_size store)"

definition add_record :: "u64 \<Rightarrow> addr_t \<Rightarrow> size_t \<Rightarrow> bool \<Rightarrow> MemoryAllocator \<Rightarrow> MemoryAllocator" where
  "add_record page_size result in_size is_exec a =
     a\<lparr>allocation_records := allocation_records a @
         [\<lparr>ar_addr = result, ar_size = in_size, ar_page = ALIGN_FLOOR result page_size,
           ar_is_exec = is_exec, ar_is_free = False\<rparr>]\<rparr>"

definition add_page :: "u64 \<Rightarrow> addr_t \<Rightarrow> bool \<Rightarrow> MemoryAllocator \<Rightarrow> MemoryAllocator" where
  "add_page page_size page is_exec a =
     (let i = ma_next a;
          a = a\<lparr>ma_store := (ma_store a)(i := sla_init page (ucast page_size) 8), ma_next := Suc i\<rparr>;
          a = (if is_exec then a\<lparr>code_page_allocators := code_page_allocators a @ [i]\<rparr>
               else a\<lparr>data_page_allocators := data_page_allocators a @ [i]\<rparr>)
      in a\<lparr>page_records := page_records a @ [\<lparr>pr_allocator = i, pr_page = page, pr_is_exec = is_exec\<rparr>]\<rparr>)"

definition allocMemBlockLocked ::
  "u64 \<Rightarrow> addr_t \<Rightarrow> bool \<Rightarrow> size_t \<Rightarrow> bool \<Rightarrow> MemoryAllocator \<Rightarrow> MemRange \<times> MemoryAllocator" where
  "allocMemBlockLocked page_size page perm_ok in_size is_exec a =
     (if in_size = 0 \<or> in_size > page_size then (MemRange_empty, a)
      else case reuse_record in_size is_exec (allocation_records a) of
        Some (addr, records) \<Rightarrow> (MemRange_new addr in_size, a\<lparr>allocation_records := records\<rparr>)
      | None \<Rightarrow>
          (let allocators = (if is_exec then code_page_allocators a else data_page_allocators a);
               (result, store) = alloc_from allocators (ucast in_size) (ma_store a);
               a = a\<lparr>ma_store := store\<rparr>
           in if result \<noteq> 0
              then (MemRange_new result in_size, add_record page_size result in_size is_exec a)
              else if page = 0 then (MemRange_empty, a)
              else if \<not> perm_ok then (MemRange_empty, a)
              else let i = ma_next a;
                       a = add_page page_size page is_exec a;
                       (result, pa) = sla_alloc (ucast in_size) 0 (ma_store a i);
                       a = a\<lparr>ma_store := (ma_store a)(i := pa)\<rparr>
                   in if result = 0 then (MemRange_empty, a)
                      else (MemRange_new result in_size, add_record page_size result in_size is_exec a)))"

fun mark_free :: "addr_t \<Rightarrow> bool \<Rightarrow> AllocationRecord list \<Rightarrow> AllocationRecord list option" where
  "mark_free addr is_exec [] = None"
| "mark_free addr is_exec (record # records) =
     (if ar_addr record = addr \<and> ar_is_exec record = is_exec
      then Some (record\<lparr>ar_is_free := True\<rparr> # records)
      else map_option ((#) record) (mark_free addr is_exec records))"

fun take_page :: "addr_t \<Rightarrow> bool \<Rightarrow> PageRecord list \<Rightarrow> nat option \<times> PageRecord list" where
  "take_page page is_exec [] = (None, [])"
| "take_page page is_exec (record # records) =
     (if pr_page record = page \<and> pr_is_exec record = is_exec then (Some (pr_allocator record), records)
      else case take_page page is_exec records of (i, records) \<Rightarrow> (i, record # records))"

definition freeMemBlockLocked ::
  "u64 \<Rightarrow> MemRange \<Rightarrow> bool \<Rightarrow> MemoryAllocator \<Rightarrow> addr_t option \<times> MemoryAllocator" where
  "freeMemBlockLocked page_size block is_exec a =
     (if range_addr block = 0 \<or> rsize block = 0 then (None, a)
      else let page = ALIGN_FLOOR (range_addr block) page_size
           in case mark_free (range_addr block) is_exec (allocation_records a) of
                None \<Rightarrow> (None, a)
              | Some records \<Rightarrow>
                  let a = a\<lparr>allocation_records := records\<rparr>
                  in if \<exists>r \<in> set records. ar_page r = page \<and> ar_is_exec r = is_exec \<and> \<not> ar_is_free r
                     then (None, a)
                     else let (page_allocator, prs) = take_page page is_exec (page_records a);
                              a = a\<lparr>page_records := prs\<rparr>;
                              a = (case page_allocator of None \<Rightarrow> a
                                   | Some i \<Rightarrow>
                                       if is_exec then a\<lparr>code_page_allocators := remove1 i (code_page_allocators a)\<rparr>
                                       else a\<lparr>data_page_allocators := remove1 i (data_page_allocators a)\<rparr>);
                              a = a\<lparr>allocation_records :=
                                    filter (\<lambda>r. \<not> (ar_page r = page \<and> ar_is_exec r = is_exec)) (allocation_records a)\<rparr>
                          in (map_option (\<lambda>_. page) page_allocator, a))"

definition allocExecBlock :: "u64 \<Rightarrow> addr_t \<Rightarrow> bool \<Rightarrow> size_t \<Rightarrow> MemoryAllocator \<Rightarrow> MemRange \<times> MemoryAllocator" where
  "allocExecBlock page_size page perm_ok n a = allocMemBlockLocked page_size page perm_ok n True a"

definition allocDataBlock :: "u64 \<Rightarrow> addr_t \<Rightarrow> bool \<Rightarrow> size_t \<Rightarrow> MemoryAllocator \<Rightarrow> MemRange \<times> MemoryAllocator" where
  "allocDataBlock page_size page perm_ok n a = allocMemBlockLocked page_size page perm_ok n False a"

definition freeExecBlock :: "u64 \<Rightarrow> MemRange \<Rightarrow> MemoryAllocator \<Rightarrow> addr_t option \<times> MemoryAllocator" where
  "freeExecBlock page_size block a = freeMemBlockLocked page_size block True a"

definition freeDataBlock :: "u64 \<Rightarrow> MemRange \<Rightarrow> MemoryAllocator \<Rightarrow> addr_t option \<times> MemoryAllocator" where
  "freeDataBlock page_size block a = freeMemBlockLocked page_size block False a"

section \<open>The allocator and the system as a state machine\<close>

text \<open>
  A run of the allocator: any sequence of allocations and frees, with the set of pages the process has
  mapped for it.  The system may refuse a page; a page it gives is aligned, not the null page, does not
  reach the end of the address space, and is not one that is mapped already.
\<close>

definition page_fresh :: "u64 \<Rightarrow> addr_t set \<Rightarrow> addr_t \<Rightarrow> bool" where
  "page_fresh page_size mapped page \<longleftrightarrow>
     page \<noteq> 0 \<and> unat page_size dvd unat page \<and> unat page + unat page_size < 2 ^ 64 \<and> page \<notin> mapped"

definition page_size_ok :: "u64 \<Rightarrow> bool" where
  "page_size_ok page_size \<longleftrightarrow> (\<exists>k. 3 \<le> k \<and> k \<le> 30 \<and> page_size = 2 ^ k)"

inductive ma_step :: "u64 \<Rightarrow> MemoryAllocator \<times> addr_t set \<Rightarrow> MemoryAllocator \<times> addr_t set \<Rightarrow> bool" for page_size where
  alloc: "\<lbrakk>page = 0 \<or> page_fresh page_size mapped page;
           allocMemBlockLocked page_size page perm_ok in_size is_exec a = (blk, a');
           mapped' = (if length (page_records a') > length (page_records a) then insert page mapped else mapped)\<rbrakk>
          \<Longrightarrow> ma_step page_size (a, mapped) (a', mapped')"
| free: "\<lbrakk>freeMemBlockLocked page_size blk is_exec a = (freed, a');
          mapped' = (case freed of None \<Rightarrow> mapped | Some page \<Rightarrow> mapped - {page})\<rbrakk>
         \<Longrightarrow> ma_step page_size (a, mapped) (a', mapped')"

inductive ma_reachable :: "u64 \<Rightarrow> MemoryAllocator \<times> addr_t set \<Rightarrow> bool" for page_size where
  init: "ma_reachable page_size (MemoryAllocator_new, {})"
| step: "ma_reachable page_size s \<Longrightarrow> ma_step page_size s s' \<Longrightarrow> ma_reachable page_size s'"

inductive_cases ma_step_cases: "ma_step page_size (a, mapped) (a', mapped')"

end
