(* ===== verification/Memory_Allocator_Proofs.thy ===== *)
theory Memory_Allocator_Proofs
  imports Memory_Allocator
begin

text \<open>
  The invariant of the memory allocator: blocks lie in pages the process has mapped, below the cursor
  of the page's bump allocator, and do not overlap.  Every operation keeps it, so it holds of every
  reachable state.
\<close>

section \<open>The invariant\<close>

text \<open>A record without its free flag, which the invariant does not depend on.\<close>

definition core :: "AllocationRecord \<Rightarrow> AllocationRecord" where
  "core r = r\<lparr>ar_is_free := False\<rparr>"

definition apart :: "AllocationRecord \<Rightarrow> AllocationRecord \<Rightarrow> bool" where
  "apart r s \<longleftrightarrow> unat (ar_addr r) + unat (ar_size r) \<le> unat (ar_addr s)
     \<or> unat (ar_addr s) + unat (ar_size s) \<le> unat (ar_addr r)"

definition page_ok :: "u64 \<Rightarrow> addr_t set \<Rightarrow> (nat \<Rightarrow> simple_linear_allocator_t) \<Rightarrow> PageRecord \<Rightarrow> bool" where
  "page_ok page_size mapped store pr \<longleftrightarrow>
     pr_page pr \<in> mapped \<and> pr_page pr \<noteq> 0 \<and> unat page_size dvd unat (pr_page pr)
     \<and> unat (pr_page pr) + unat page_size < 2 ^ 64
     \<and> sla_ok (store (pr_allocator pr)) \<and> sla_buffer (store (pr_allocator pr)) = pr_page pr
     \<and> unat (sla_capacity (store (pr_allocator pr))) = unat page_size"

definition record_ok :: "(nat \<Rightarrow> simple_linear_allocator_t) \<Rightarrow> PageRecord list \<Rightarrow> AllocationRecord \<Rightarrow> bool" where
  "record_ok store prs r \<longleftrightarrow> 0 < unat (ar_size r) \<and> 8 dvd unat (ar_addr r)
     \<and> (\<exists>pr \<in> set prs. pr_page pr = ar_page r \<and> pr_is_exec pr = ar_is_exec r
          \<and> unat (ar_page r) \<le> unat (ar_addr r)
          \<and> unat (ar_addr r) + unat (ar_size r) \<le> unat (ar_page r) + unat (sla_size (store (pr_allocator pr))))"

definition ma_inv :: "u64 \<Rightarrow> addr_t set \<Rightarrow> MemoryAllocator \<Rightarrow> bool" where
  "ma_inv page_size mapped a \<longleftrightarrow>
     list_all (page_ok page_size mapped (ma_store a)) (page_records a)
     \<and> distinct (map pr_page (page_records a)) \<and> distinct (map pr_allocator (page_records a))
     \<and> list_all (\<lambda>pr. pr_allocator pr < ma_next a) (page_records a)
     \<and> code_page_allocators a = map pr_allocator (filter pr_is_exec (page_records a))
     \<and> data_page_allocators a = map pr_allocator (filter (\<lambda>pr. \<not> pr_is_exec pr) (page_records a))
     \<and> list_all (record_ok (ma_store a) (page_records a)) (allocation_records a)
     \<and> sorted_wrt apart (allocation_records a)"

lemma core_simps [simp]:
  "record_ok store prs (core r) = record_ok store prs r" "apart (core r) (core s) = apart r s"
  "ar_addr (core r) = ar_addr r" "ar_size (core r) = ar_size r" "ar_page (core r) = ar_page r"
  "ar_is_exec (core r) = ar_is_exec r"
  by (simp_all add: core_def record_ok_def apart_def)

lemma same_cores:
  assumes "map core rs = map core rs'"
  shows "list_all (record_ok store prs) rs = list_all (record_ok store prs) rs'"
    and "sorted_wrt apart rs = sorted_wrt apart rs'"
proof -
  have "list_all (record_ok store prs) rs = list_all (record_ok store prs) (map core rs)" for rs
    by (simp add: list_all_iff)
  then show "list_all (record_ok store prs) rs = list_all (record_ok store prs) rs'"
    using assms by metis
  have "sorted_wrt apart rs = sorted_wrt apart (map core rs)" for rs
    by (simp add: sorted_wrt_map)
  then show "sorted_wrt apart rs = sorted_wrt apart rs'"
    using assms by metis
qed

lemma ma_inv_cores:
  "map core rs = map core (allocation_records a) \<Longrightarrow>
     ma_inv page_size mapped (a\<lparr>allocation_records := rs\<rparr>) = ma_inv page_size mapped a"
  using same_cores[of rs "allocation_records a"] by (simp add: ma_inv_def)

section \<open>Taking and releasing records\<close>

lemma reuse_record_spec:
  "reuse_record in_size is_exec rs = Some (addr, rs') \<Longrightarrow>
     map core rs' = map core rs
     \<and> (\<exists>i < length rs. ar_addr (rs ! i) = addr \<and> ar_is_free (rs ! i) \<and> ar_is_exec (rs ! i) = is_exec
          \<and> in_size \<le> ar_size (rs ! i) \<and> rs' = rs[i := (rs ! i)\<lparr>ar_is_free := False\<rparr>])"
proof (induction rs arbitrary: rs')
  case (Cons r rs)
  show ?case
  proof (cases "ar_is_free r \<and> ar_is_exec r = is_exec \<and> ar_size r \<ge> in_size")
    case True
    then show ?thesis
      using Cons.prems by (auto simp: core_def intro!: exI[of _ 0])
  next
    case False
    then obtain rs'' where rs'': "reuse_record in_size is_exec rs = Some (addr, rs'')" "rs' = r # rs''"
      using Cons.prems by (auto split: option.splits)
    from Cons.IH[OF rs''(1)] rs''(2) show ?thesis
      by (fastforce intro!: exI[of _ "Suc _"])
  qed
qed simp

lemma mark_free_spec:
  "mark_free addr is_exec rs = Some rs' \<Longrightarrow>
     map core rs' = map core rs
     \<and> (\<exists>i < length rs. ar_addr (rs ! i) = addr \<and> ar_is_exec (rs ! i) = is_exec
          \<and> rs' = rs[i := (rs ! i)\<lparr>ar_is_free := True\<rparr>])"
proof (induction rs arbitrary: rs')
  case (Cons r rs)
  show ?case
  proof (cases "ar_addr r = addr \<and> ar_is_exec r = is_exec")
    case True
    then show ?thesis
      using Cons.prems by (auto simp: core_def intro!: exI[of _ 0])
  next
    case False
    then obtain rs'' where rs'': "mark_free addr is_exec rs = Some rs''" "rs' = r # rs''"
      using Cons.prems by auto
    from Cons.IH[OF rs''(1)] rs''(2) show ?thesis
      by (fastforce intro!: exI[of _ "Suc _"])
  qed
qed simp

section \<open>Carving a block out of a page\<close>

text \<open>The allocators only move forward.\<close>

definition advanced :: "(nat \<Rightarrow> simple_linear_allocator_t) \<Rightarrow> (nat \<Rightarrow> simple_linear_allocator_t) \<Rightarrow> nat \<Rightarrow> bool" where
  "advanced store store' i \<longleftrightarrow> sla_buffer (store' i) = sla_buffer (store i)
     \<and> sla_capacity (store' i) = sla_capacity (store i) \<and> unat (sla_size (store i)) \<le> unat (sla_size (store' i))
     \<and> (sla_ok (store i) \<longrightarrow> sla_ok (store' i))"

lemma advanced_refl [simp]: "advanced store store i"
  by (simp add: advanced_def)

lemma advanced_trans: "advanced s t i \<Longrightarrow> advanced t u i \<Longrightarrow> advanced s u i"
  by (auto simp: advanced_def)

text \<open>A block of \<open>n\<close> bytes at \<open>addr\<close> newly cut from the allocator \<open>i\<close>.\<close>

definition carved :: "(nat \<Rightarrow> simple_linear_allocator_t) \<Rightarrow> (nat \<Rightarrow> simple_linear_allocator_t) \<Rightarrow> nat \<Rightarrow> addr_t \<Rightarrow> nat \<Rightarrow> bool" where
  "carved store store' i addr n \<longleftrightarrow>
     unat (sla_buffer (store i)) + unat (sla_size (store i)) \<le> unat addr
     \<and> unat addr + n \<le> unat (sla_buffer (store i)) + unat (sla_size (store' i)) \<and> 8 dvd unat addr"

lemma sla_alloc_carves:
  assumes "sla_ok (store i)" and "0 < unat n" and "unat n \<le> 2 ^ 30" and "sla_alloc n 0 (store i) = (r, a)"
  shows "advanced store (store(i := a)) j"
    and "r \<noteq> 0 \<Longrightarrow> carved store (store(i := a)) i r (unat n)"
    and "r = 0 \<Longrightarrow> unat (sla_capacity (store i)) < sla_next (store i) + unat n"
proof -
  note b = sla_next_bounds[OF assms(1)]
  have "8 dvd unat (sla_buffer (store i))"
    using assms(1) by (simp add: sla_ok_def)
  then show "advanced store (store(i := a)) j" "r \<noteq> 0 \<Longrightarrow> carved store (store(i := a)) i r (unat n)"
    "r = 0 \<Longrightarrow> unat (sla_capacity (store i)) < sla_next (store i) + unat n"
    using assms(4) b by (auto intro: sla_alloc_spec[OF assms(1-3)] simp: advanced_def carved_def elim: sla_alloc_spec[OF assms(1-3)])
qed

lemma alloc_from_spec:
  "\<lbrakk>\<forall>i \<in> set is. sla_ok (store i); 0 < unat n; unat n \<le> 2 ^ 30; alloc_from is n store = (r, store')\<rbrakk> \<Longrightarrow>
     (\<forall>j. advanced store store' j) \<and> (r \<noteq> 0 \<longrightarrow> (\<exists>i \<in> set is. carved store store' i r (unat n)))"
proof (induction "is" arbitrary: store)
  case (Cons i "is")
  obtain r0 a where a: "sla_alloc n 0 (store i) = (r0, a)" by (cases "sla_alloc n 0 (store i)")
  let ?s = "store(i := a)"
  have ok: "sla_ok (store i)" using Cons.prems(1) by simp
  note c = sla_alloc_carves[of store i, OF ok Cons.prems(2,3) a]
  have oks: "\<forall>i \<in> set is. sla_ok (?s i)"
    using Cons.prems(1) c(1) ok unfolding advanced_def by (metis list.set_intros(2))
  show ?case
  proof (cases "r0 = 0")
    case True
    then have "alloc_from is n ?s = (r, store')"
      using Cons.prems(4) a by simp
    from Cons.IH[OF oks Cons.prems(2,3) this]
    have IH: "\<forall>j. advanced ?s store' j" "r \<noteq> 0 \<Longrightarrow> \<exists>i \<in> set is. carved ?s store' i r (unat n)"
      by blast+
    have "carved store store' j r (unat n)" if "carved ?s store' j r (unat n)" for j
      using that c(1)[of j] by (auto simp: carved_def advanced_def)
    with IH c(1) show ?thesis
      by (metis advanced_trans list.set_intros(2))
  next
    case False
    then show ?thesis
      using Cons.prems(4) a c(1,2) by auto
  qed
qed auto

section \<open>Keeping the invariant\<close>

lemma record_ok_advanced:
  assumes "\<forall>j. advanced store store' j" and "record_ok store prs r"
  shows "record_ok store' prs r"
  using assms unfolding record_ok_def advanced_def by (meson add_left_mono order_trans)

lemma page_ok_advanced:
  assumes "\<forall>j. advanced store store' j" and "page_ok page_size mapped store pr"
  shows "page_ok page_size mapped store' pr"
  using assms unfolding page_ok_def advanced_def by metis

lemma ma_inv_advanced:
  assumes "ma_inv page_size mapped a" and "\<forall>j. advanced (ma_store a) store' j"
  shows "ma_inv page_size mapped (a\<lparr>ma_store := store'\<rparr>)"
  using assms by (auto simp: ma_inv_def list_all_iff intro: record_ok_advanced page_ok_advanced)

text \<open>Blocks of different pages do not overlap.\<close>

lemma pages_apart:
  assumes "unat P dvd unat p" and "unat P dvd unat q" and "p \<noteq> (q :: u64)" and "0 < unat P"
  shows "unat p + unat P \<le> unat q \<or> unat q + unat P \<le> unat p"
proof -
  obtain a b where ab: "unat p = unat P * a" "unat q = unat P * b"
    using assms(1,2) by (auto elim!: dvdE)
  then have "a \<noteq> b"
    using assms(3) by (metis word_unat_eq_iff)
  then consider "a + 1 \<le> b" | "b + 1 \<le> a" by linarith
  then show ?thesis
  proof cases
    case 1
    then have "unat P * (a + 1) \<le> unat P * b" by (rule mult_le_mono2)
    then show ?thesis using ab by (simp add: algebra_simps)
  next
    case 2
    then have "unat P * (b + 1) \<le> unat P * a" by (rule mult_le_mono2)
    then show ?thesis using ab by (simp add: algebra_simps)
  qed
qed

lemma ALIGN_FLOOR_page:
  assumes "page_size_ok P" and "unat P dvd unat p" and "unat p \<le> unat r" and "unat r < unat p + unat P"
  shows "ALIGN_FLOOR r P = p"
proof -
  obtain k where k: "3 \<le> k" "k \<le> 30" "P = 2 ^ k"
    using assms(1) by (auto simp: page_size_ok_def)
  have P: "unat P = 2 ^ k"
    using k by (simp add: unat_two_power)
  obtain q where q: "unat p = 2 ^ k * q"
    using assms(2) P by (auto elim!: dvdE)
  have "unat r div 2 ^ k = q"
    using assms(3,4) P q by (intro div_nat_eqI) (simp_all add: algebra_simps)
  then have "unat (ALIGN_FLOOR r (2 ^ k)) = unat p"
    using ALIGN_FLOOR_unat[of k r] k q by simp
  then show ?thesis
    unfolding k(3) by (simp add: word_unat_eq_iff)
qed

lemma page_size_unat:
  assumes "page_size_ok P"
  shows "0 < unat P" "8 dvd unat P" "unat P \<le> 2 ^ 30"
proof -
  obtain k where k: "3 \<le> k" "k \<le> 30" "P = 2 ^ k"
    using assms by (auto simp: page_size_ok_def)
  have P: "unat P = 2 ^ k"
    using k by (simp add: unat_two_power)
  show "0 < unat P" using P by simp
  show "8 dvd unat P" using P le_imp_power_dvd[OF k(1), of "2 :: nat"] by simp
  show "unat P \<le> 2 ^ 30" using P power_increasing[OF k(2), of "2 :: nat"] by simp
qed

text \<open>Every record's block lies inside its page.\<close>

lemma record_in_page:
  assumes "ma_inv P mapped a" and "r \<in> set (allocation_records a)"
  shows "unat (ar_page r) \<le> unat (ar_addr r)" "unat (ar_addr r) + unat (ar_size r) \<le> unat (ar_page r) + unat P"
    "ar_page r \<in> mapped" "unat P dvd unat (ar_page r)" "8 dvd unat (ar_addr r)" "0 < unat (ar_size r)"
    "ar_page r \<noteq> 0"
proof -
  have ok: "record_ok (ma_store a) (page_records a) r"
    using assms by (simp add: ma_inv_def list_all_iff)
  then obtain pr where pr: "pr \<in> set (page_records a)" "pr_page pr = ar_page r"
    "unat (ar_page r) \<le> unat (ar_addr r)"
    "unat (ar_addr r) + unat (ar_size r) \<le> unat (ar_page r) + unat (sla_size (ma_store a (pr_allocator pr)))"
    by (auto simp: record_ok_def)
  moreover have "page_ok P mapped (ma_store a) pr"
    using assms pr(1) by (simp add: ma_inv_def list_all_iff)
  ultimately show "unat (ar_page r) \<le> unat (ar_addr r)" "unat (ar_addr r) + unat (ar_size r) \<le> unat (ar_page r) + unat P"
    "ar_page r \<in> mapped" "unat P dvd unat (ar_page r)" "8 dvd unat (ar_addr r)" "0 < unat (ar_size r)" "ar_page r \<noteq> 0"
    using ok by (auto simp: page_ok_def record_ok_def sla_ok_def word_le_nat_alt)
qed

lemma carve_inv:
  assumes P: "page_size_ok P" and inv: "ma_inv P mapped a" and adv: "\<forall>j. advanced (ma_store a) store' j"
    and pr: "pr \<in> set (page_records a)" "pr_is_exec pr = is_exec"
    and c: "carved (ma_store a) store' (pr_allocator pr) r (unat n)" and n: "0 < unat n"
  shows "ma_inv P mapped (add_record P r n is_exec (a\<lparr>ma_store := store'\<rparr>))"
    and "ALIGN_FLOOR r P = pr_page pr" and "\<forall>s \<in> set (allocation_records a).
      unat (ar_addr s) + unat (ar_size s) \<le> unat r \<or> unat r + unat n \<le> unat (ar_addr s)"
proof -
  let ?i = "pr_allocator pr" and ?new = "\<lparr>ar_addr = r, ar_size = n, ar_page = ALIGN_FLOOR r P, ar_is_exec = is_exec, ar_is_free = False\<rparr>"
  have page: "page_ok P mapped (ma_store a) pr"
    using inv pr(1) by (simp add: ma_inv_def list_all_iff)
  have adv_i: "advanced (ma_store a) store' ?i" using adv by blast
  have lo: "unat (pr_page pr) + unat (sla_size (ma_store a ?i)) \<le> unat r" and al: "8 dvd unat r"
    and hi: "unat r + unat n \<le> unat (pr_page pr) + unat (sla_size (store' ?i))"
    using c page by (simp_all add: carved_def page_ok_def)
  have cap: "unat (sla_size (store' ?i)) \<le> unat P"
    using adv_i page by (auto simp: advanced_def page_ok_def sla_ok_def word_le_nat_alt)
  show fl: "ALIGN_FLOOR r P = pr_page pr"
    using page lo hi cap n by (intro ALIGN_FLOOR_page[OF P]) (simp_all add: page_ok_def)
  have new: "record_ok store' (page_records a) ?new"
    using pr n al lo hi fl by (auto simp: record_ok_def intro!: bexI[of _ pr])
  show ap: "\<forall>s \<in> set (allocation_records a). unat (ar_addr s) + unat (ar_size s) \<le> unat r \<or> unat r + unat n \<le> unat (ar_addr s)"
  proof
    fix s
    assume s: "s \<in> set (allocation_records a)"
    note ip = record_in_page[OF inv s]
    show "unat (ar_addr s) + unat (ar_size s) \<le> unat r \<or> unat r + unat n \<le> unat (ar_addr s)"
    proof (cases "ar_page s = pr_page pr")
      case True
      obtain pr' where pr': "pr' \<in> set (page_records a)" "pr_page pr' = ar_page s"
        "unat (ar_addr s) + unat (ar_size s) \<le> unat (ar_page s) + unat (sla_size (ma_store a (pr_allocator pr')))"
        using inv s by (auto simp: ma_inv_def list_all_iff record_ok_def)
      moreover have "pr' = pr"
        using pr'(1,2) pr(1) True inv by (auto simp: ma_inv_def distinct_map dest: inj_onD)
      ultimately show ?thesis using lo True by simp
    next
      case False
      have "unat P dvd unat (pr_page pr)" using page by (simp add: page_ok_def)
      from pages_apart[OF ip(4) this False page_size_unat(1)[OF P]] show ?thesis
        using ip(1,2) lo hi cap by linarith
    qed
  qed
  show "ma_inv P mapped (add_record P r n is_exec (a\<lparr>ma_store := store'\<rparr>))"
    using ma_inv_advanced[OF inv adv] new ap
    by (auto simp: ma_inv_def add_record_def sorted_wrt_append apart_def)
qed

lemma sla_init_ok:
  assumes "page_size_ok P" and "page_fresh P mapped page"
  shows "sla_ok (sla_init page (ucast P) 8)" "unat (ucast P :: u32) = unat P"
proof -
  note P = page_size_unat[OF assms(1)]
  show c: "unat (ucast P :: u32) = unat P"
    using P by (intro unat_ucast_small) simp
  have "0 < unat page"
    using assms(2) by (simp add: page_fresh_def unat_gt_0)
  then show "sla_ok (sla_init page (ucast P) 8)"
    using assms(2) P c dvd_trans[OF P(2), of "unat page"]
    by (simp add: sla_init_def sla_ok_def page_fresh_def word_le_nat_alt)
qed

lemma add_page_inv:
  assumes P: "page_size_ok P" and inv: "ma_inv P mapped a" and fresh: "page_fresh P mapped page"
  shows "ma_inv P (insert page mapped) (add_page P page is_exec a)"
proof -
  let ?s = "(ma_store a)(ma_next a := sla_init page (ucast P) 8)"
  note i = sla_init_ok[OF P fresh]
  have same: "?s (pr_allocator pr) = ma_store a (pr_allocator pr)" if "pr \<in> set (page_records a)" for pr
    using inv that by (auto simp: ma_inv_def list_all_iff)
  have pages: "page_ok P (insert page mapped) ?s pr" if "pr \<in> set (page_records a)" for pr
    using inv that same[OF that] by (auto simp: ma_inv_def list_all_iff page_ok_def)
  have "page_ok P (insert page mapped) ?s \<lparr>pr_allocator = ma_next a, pr_page = page, pr_is_exec = is_exec\<rparr>"
    using fresh i by (simp add: page_ok_def page_fresh_def sla_init_def)
  moreover have "page \<notin> pr_page ` set (page_records a)" "ma_next a \<notin> pr_allocator ` set (page_records a)"
    using inv fresh by (auto simp: ma_inv_def list_all_iff page_ok_def page_fresh_def)
  moreover have "record_ok ?s (page_records a @ prs) r" if "r \<in> set (allocation_records a)" for r prs
  proof -
    have "record_ok (ma_store a) (page_records a) r"
      using inv that by (simp add: ma_inv_def list_all_iff)
    then show ?thesis
      using same by (fastforce simp: record_ok_def)
  qed
  ultimately show ?thesis
    using inv pages by (auto simp: ma_inv_def add_page_def Let_def list_all_iff)
qed

text \<open>A page fresh from the system has room for any block the allocator accepts.\<close>

lemma fresh_page_fits:
  assumes "page_size_ok P" and "page_fresh P mapped page" and "0 < unat n" and "unat n \<le> unat P"
  obtains pa where "sla_alloc (ucast n) 0 (sla_init page (ucast P) 8) = (page, pa)" "unat (ucast n :: u32) = unat n"
proof -
  note P = page_size_unat[OF assms(1)] and i = sla_init_ok[OF assms(1,2)]
  have n: "unat (ucast n :: u32) = unat n"
    using P assms(4) by (intro unat_ucast_small) simp
  then have n': "0 < unat (ucast n :: u32)" "unat (ucast n :: u32) \<le> 2 ^ 30"
    using assms(3,4) P(3) by simp_all
  have nx: "sla_next (sla_init page (ucast P) 8) = 0"
    by (simp add: sla_next_def sla_init_def pad_def)
  show thesis
  proof (rule sla_alloc_spec[OF i(1) n'])
    fix a'
    assume "unat (sla_capacity (sla_init page (ucast P) 8)) < sla_next (sla_init page (ucast P) 8) + unat (ucast n :: u32)"
    then show thesis
      using nx n i(2) assms(4) by (simp add: sla_init_def)
  next
    fix a' r
    assume "sla_alloc (ucast n) 0 (sla_init page (ucast P) 8) = (r, a')"
      "unat r = unat (sla_buffer (sla_init page (ucast P) 8)) + sla_next (sla_init page (ucast P) 8)"
    then show thesis
      using that n nx by (simp add: sla_init_def word_unat_eq_iff)
  qed
qed

text \<open>The five ways an allocation can go.\<close>

lemma alloc_cases:
  assumes P: "page_size_ok P" and inv: "ma_inv P mapped a" and page: "page = 0 \<or> page_fresh P mapped page"
    and al: "allocMemBlockLocked P page perm_ok n is_exec a = (blk, a')"
  obtains (refused) "blk = MemRange_empty" "a' = a" "n = 0 \<or> n > P"
  | (exhausted) store' where "blk = MemRange_empty" "a' = a\<lparr>ma_store := store'\<rparr>" "\<forall>j. advanced (ma_store a) store' j"
      "page = 0 \<or> \<not> perm_ok"
  | (reused) i where "i < length (allocation_records a)" "ar_is_free (allocation_records a ! i)"
      "ar_is_exec (allocation_records a ! i) = is_exec" "n \<le> ar_size (allocation_records a ! i)" "0 < unat n"
      "blk = MemRange_new (ar_addr (allocation_records a ! i)) n"
      "a' = a\<lparr>allocation_records := (allocation_records a)[i := (allocation_records a ! i)\<lparr>ar_is_free := False\<rparr>]\<rparr>"
      "map core (allocation_records a') = map core (allocation_records a)"
  | (carved) b pr store' r where "b = a \<or> (\<exists>store1. page_fresh P mapped page \<and> (\<forall>j. advanced (ma_store a) store1 j)
        \<and> b = add_page P page is_exec (a\<lparr>ma_store := store1\<rparr>) \<and> pr = last (page_records b))"
      "pr \<in> set (page_records b)" "pr_is_exec pr = is_exec" "\<forall>j. advanced (ma_store b) store' j"
      "carved (ma_store b) store' (pr_allocator pr) r (unat n)" "0 < unat n" "r \<noteq> 0" "n \<le> P"
      "blk = MemRange_new r n" "a' = add_record P r n is_exec (b\<lparr>ma_store := store'\<rparr>)"
proof (cases "n = 0 \<or> n > P")
  case True
  then show ?thesis using al refused by (simp add: allocMemBlockLocked_def)
next
  case False
  then have n: "0 < unat n" "unat n \<le> unat P" "n \<le> P"
    by (simp_all add: unat_gt_0 word_le_nat_alt not_less)
  have n32: "unat (ucast n :: u32) = unat n"
    using n page_size_unat(3)[OF P] by (intro unat_ucast_small) simp
  have n': "0 < unat (ucast n :: u32)" "unat (ucast n :: u32) \<le> 2 ^ 30"
    using n n32 page_size_unat(3)[OF P] by simp_all
  let ?is = "if is_exec then code_page_allocators a else data_page_allocators a"
  obtain r store' where af: "alloc_from ?is (ucast n) (ma_store a) = (r, store')"
    by (cases "alloc_from ?is (ucast n) (ma_store a)")
  have is_pr: "i \<in> set ?is \<longleftrightarrow> (\<exists>pr \<in> set (page_records a). pr_is_exec pr = is_exec \<and> i = pr_allocator pr)" for i
    using inv by (auto simp: ma_inv_def)
  have "\<forall>i \<in> set ?is. sla_ok (ma_store a i)"
    using inv is_pr by (auto simp: ma_inv_def list_all_iff page_ok_def)
  from alloc_from_spec[OF this n' af] have adv: "\<forall>j. advanced (ma_store a) store' j"
    and cv: "r \<noteq> 0 \<Longrightarrow> \<exists>i \<in> set ?is. carved (ma_store a) store' i r (unat n)"
    using n32 by auto
  consider (re) addr rs where "reuse_record n is_exec (allocation_records a) = Some (addr, rs)"
    | (old) "reuse_record n is_exec (allocation_records a) = None" "r \<noteq> 0"
    | (none) "reuse_record n is_exec (allocation_records a) = None" "r = 0" "page = 0 \<or> \<not> perm_ok"
    | (new) "reuse_record n is_exec (allocation_records a) = None" "r = 0" "page \<noteq> 0" "perm_ok"
    by (cases "reuse_record n is_exec (allocation_records a)") auto
  then show ?thesis
  proof cases
    case re
    then show ?thesis
      using reuse_record_spec[OF re] al False n reused by (auto simp: allocMemBlockLocked_def)
  next
    case old
    obtain i where i: "i \<in> set ?is" "carved (ma_store a) store' i r (unat n)"
      using cv[OF old(2)] by (rule bexE)
    obtain pr where "pr \<in> set (page_records a)" "pr_is_exec pr = is_exec" "i = pr_allocator pr"
      using i(1)[unfolded is_pr] by (elim bexE conjE)
    then show ?thesis
      using carved[of a pr store' r] i(2) adv old n al False af by (simp add: allocMemBlockLocked_def)
  next
    case none
    then have "blk = MemRange_empty" "a' = a\<lparr>ma_store := store'\<rparr>"
      using al False af by (auto simp: allocMemBlockLocked_def Let_def split: if_splits)
    then show ?thesis
      by (rule exhausted) (use adv none in blast)+
  next
    case new
    let ?b = "add_page P page is_exec (a\<lparr>ma_store := store'\<rparr>)" and ?i = "ma_next a"
    have fresh: "page_fresh P mapped page" using new page by simp
    obtain pa where pa: "sla_alloc (ucast n) 0 (sla_init page (ucast P) 8) = (page, pa)"
      using fresh_page_fits[OF P fresh n(1,2)] by blast
    have b: "ma_store ?b ?i = sla_init page (ucast P) 8" "pr_allocator (last (page_records ?b)) = ?i"
      "pr_is_exec (last (page_records ?b)) = is_exec" "last (page_records ?b) \<in> set (page_records ?b)"
      by (simp_all add: add_page_def Let_def)
    note c = sla_alloc_carves[of "ma_store ?b" ?i "ucast n" page pa, unfolded b(1) n32, OF sla_init_ok(1)[OF P fresh] n'[unfolded n32] pa]
    have "allocMemBlockLocked P page perm_ok n is_exec a =
        (MemRange_new page n, add_record P page n is_exec (?b\<lparr>ma_store := (ma_store ?b)(?i := pa)\<rparr>))"
      using new False af pa b(1) by (simp add: allocMemBlockLocked_def Let_def)
    then have res: "blk = MemRange_new page n" "a' = add_record P page n is_exec (?b\<lparr>ma_store := (ma_store ?b)(?i := pa)\<rparr>)"
      using al by simp_all
    have "carved (ma_store ?b) ((ma_store ?b)(?i := pa)) (pr_allocator (last (page_records ?b))) page (unat n)"
      using c(2)[OF new(3)] b(2) by simp
    moreover have "\<forall>j. advanced (ma_store ?b) ((ma_store ?b)(?i := pa)) j"
      using c(1) by blast
    ultimately show ?thesis
      using carved[of ?b "last (page_records ?b)", OF disjI2 b(4,3) _ _ n(1) new(3) n(3) res] fresh adv by blast
  qed
qed

lemma ma_inv_mapped_mono: "ma_inv P mapped a \<Longrightarrow> mapped \<subseteq> mapped' \<Longrightarrow> ma_inv P mapped' a"
  by (auto simp: ma_inv_def list_all_iff page_ok_def)

text \<open>The pages that are mapped after an allocation.\<close>

abbreviation mapped_after :: "MemoryAllocator \<Rightarrow> MemoryAllocator \<Rightarrow> addr_t \<Rightarrow> addr_t set \<Rightarrow> addr_t set" where
  "mapped_after a a' page mapped \<equiv>
     (if length (page_records a') > length (page_records a) then insert page mapped else mapped)"

lemma add_simps [simp]:
  "page_records (add_record P r n is_exec a) = page_records a"
  "allocation_records (add_page P page is_exec a) = allocation_records a"
  "page_records (add_page P page is_exec a) =
     page_records a @ [\<lparr>pr_allocator = ma_next a, pr_page = page, pr_is_exec = is_exec\<rparr>]"
  by (simp_all add: add_record_def add_page_def Let_def)

lemma alloc_inv:
  assumes P: "page_size_ok P" and inv: "ma_inv P mapped a" and page: "page = 0 \<or> page_fresh P mapped page"
    and al: "allocMemBlockLocked P page perm_ok n is_exec a = (blk, a')"
  shows "ma_inv P (mapped_after a a' page mapped) a'"
proof (rule alloc_cases[OF assms])
  fix store'
  assume "a' = a\<lparr>ma_store := store'\<rparr>" "\<forall>j. advanced (ma_store a) store' j"
  then show ?thesis using ma_inv_advanced[OF inv] by simp
next
  fix i
  let ?rs = "(allocation_records a)[i := (allocation_records a ! i)\<lparr>ar_is_free := False\<rparr>]"
  assume "a' = a\<lparr>allocation_records := ?rs\<rparr>" "map core (allocation_records a') = map core (allocation_records a)"
  then show ?thesis using inv ma_inv_cores[of ?rs a] by simp
next
  fix b pr store' r
  assume b: "b = a \<or> (\<exists>store1. page_fresh P mapped page \<and> (\<forall>j. advanced (ma_store a) store1 j)
        \<and> b = add_page P page is_exec (a\<lparr>ma_store := store1\<rparr>) \<and> pr = last (page_records b))"
    and rest: "pr \<in> set (page_records b)" "pr_is_exec pr = is_exec" "\<forall>j. advanced (ma_store b) store' j"
      "carved (ma_store b) store' (pr_allocator pr) r (unat n)" "0 < unat n"
    and a': "a' = add_record P r n is_exec (b\<lparr>ma_store := store'\<rparr>)"
  have "ma_inv P (mapped_after a b page mapped) b"
    using b inv by (auto intro: add_page_inv[OF P] ma_inv_advanced)
  from carve_inv(1)[OF P this rest(3,1,2,4,5)] show ?thesis
    using a' by simp
qed (use inv in simp)

section \<open>Freeing\<close>

lemma take_page_spec:
  "take_page page is_exec prs = (i, prs') \<Longrightarrow>
     (case i of None \<Rightarrow> prs' = prs \<and> (\<forall>pr \<in> set prs. \<not> (pr_page pr = page \<and> pr_is_exec pr = is_exec))
      | Some j \<Rightarrow> \<exists>ys pr zs. prs = ys @ pr # zs \<and> prs' = ys @ zs \<and> pr_page pr = page
                   \<and> pr_is_exec pr = is_exec \<and> pr_allocator pr = j)"
proof (induction prs arbitrary: prs')
  case (Cons pr prs)
  show ?case
  proof (cases "pr_page pr = page \<and> pr_is_exec pr = is_exec")
    case True
    then have "i = Some (pr_allocator pr)" "prs' = prs" using Cons.prems by auto
    with True show ?thesis by (auto intro!: exI[of _ "[]"])
  next
    case False
    then obtain rest where rest: "take_page page is_exec prs = (i, rest)" "prs' = pr # rest"
      using Cons.prems by (auto split: prod.splits)
    from Cons.IH[OF rest(1)] rest(2) False show ?thesis
      by (cases i) (auto intro: Cons_eq_appendI)
  qed
qed simp

text \<open>The three ways a free can go; in the last one the page goes back to the system.\<close>

lemma free_cases:
  assumes fr: "freeMemBlockLocked P block is_exec a = (freed, a')"
  obtains (ignored) "freed = None" "a' = a"
      "range_addr block = 0 \<or> rsize block = 0 \<or> mark_free (range_addr block) is_exec (allocation_records a) = None"
  | (kept) rs where "mark_free (range_addr block) is_exec (allocation_records a) = Some rs" "freed = None"
      "a' = a\<lparr>allocation_records := rs\<rparr>"
      "\<exists>r \<in> set rs. ar_page r = ALIGN_FLOOR (range_addr block) P \<and> ar_is_exec r = is_exec \<and> \<not> ar_is_free r"
  | (dropped) rs i prs where "mark_free (range_addr block) is_exec (allocation_records a) = Some rs"
      "take_page (ALIGN_FLOOR (range_addr block) P) is_exec (page_records a) = (i, prs)"
      "freed = map_option (\<lambda>_. ALIGN_FLOOR (range_addr block) P) i"
      "\<forall>r \<in> set rs. ar_page r = ALIGN_FLOOR (range_addr block) P \<and> ar_is_exec r = is_exec \<longrightarrow> ar_is_free r"
      "a' = a\<lparr>page_records := prs,
              code_page_allocators := (case i of Some j \<Rightarrow> if is_exec then remove1 j (code_page_allocators a)
                 else code_page_allocators a | None \<Rightarrow> code_page_allocators a),
              data_page_allocators := (case i of Some j \<Rightarrow> if is_exec then data_page_allocators a
                 else remove1 j (data_page_allocators a) | None \<Rightarrow> data_page_allocators a),
              allocation_records := filter (\<lambda>r. \<not> (ar_page r = ALIGN_FLOOR (range_addr block) P \<and> ar_is_exec r = is_exec)) rs\<rparr>"
proof (cases "range_addr block = 0 \<or> rsize block = 0 \<or> mark_free (range_addr block) is_exec (allocation_records a) = None")
  case True
  then have "freed = None" "a' = a"
    using fr by (auto simp: freeMemBlockLocked_def Let_def split: if_splits)
  then show ?thesis using True by (rule ignored)
next
  case False
  then obtain rs where rs: "mark_free (range_addr block) is_exec (allocation_records a) = Some rs"
    by auto
  obtain i prs where tp: "take_page (ALIGN_FLOOR (range_addr block) P) is_exec (page_records a) = (i, prs)"
    by (cases "take_page (ALIGN_FLOOR (range_addr block) P) is_exec (page_records a)")
  show ?thesis
  proof (cases "\<exists>r \<in> set rs. ar_page r = ALIGN_FLOOR (range_addr block) P \<and> ar_is_exec r = is_exec \<and> \<not> ar_is_free r")
    case True
    then show ?thesis using kept[OF rs] False rs fr by (simp add: freeMemBlockLocked_def Let_def)
  next
    case nolive: False
    then have no: "(\<exists>r \<in> set rs. ar_page r = ALIGN_FLOOR (range_addr block) P \<and> ar_is_exec r = is_exec \<and> \<not> ar_is_free r) = False"
      by blast
    have live: "\<forall>r \<in> set rs. ar_page r = ALIGN_FLOOR (range_addr block) P \<and> ar_is_exec r = is_exec \<longrightarrow> ar_is_free r"
      using nolive by blast
    show ?thesis
      by (rule dropped[OF rs tp _ live])
        (use False rs tp fr in \<open>auto simp: freeMemBlockLocked_def Let_def no simp del: range_addr_def split: option.splits\<close>)
  qed
qed

lemma record_floor:
  assumes "page_size_ok P" and "ma_inv P mapped a" and "r \<in> set (allocation_records a)"
  shows "ALIGN_FLOOR (ar_addr r) P = ar_page r"
  using record_in_page[OF assms(2,3)] by (intro ALIGN_FLOOR_page[OF assms(1)]) auto

abbreviation freed_at :: "nat \<Rightarrow> AllocationRecord list \<Rightarrow> AllocationRecord list" where
  "freed_at k rs \<equiv> rs[k := (rs ! k)\<lparr>ar_is_free := True\<rparr>]"

text \<open>Under the invariant the page of a tracked block is always found.\<close>

lemma free_inv_cases:
  assumes P: "page_size_ok P" and inv: "ma_inv P mapped a" and fr: "freeMemBlockLocked P block is_exec a = (freed, a')"
  obtains (ignored) "freed = None" "a' = a"
      "range_addr block = 0 \<or> rsize block = 0 \<or> mark_free (range_addr block) is_exec (allocation_records a) = None"
  | (kept) k where "k < length (allocation_records a)" "ar_addr (allocation_records a ! k) = range_addr block"
      "ar_is_exec (allocation_records a ! k) = is_exec" "freed = None"
      "a' = a\<lparr>allocation_records := freed_at k (allocation_records a)\<rparr>"
      "\<exists>r \<in> set (freed_at k (allocation_records a)).
         ar_page r = ar_page (allocation_records a ! k) \<and> ar_is_exec r = is_exec \<and> \<not> ar_is_free r"
  | (dropped) k ys pr zs where "k < length (allocation_records a)" "ar_addr (allocation_records a ! k) = range_addr block"
      "ar_is_exec (allocation_records a ! k) = is_exec" "freed = Some (pr_page pr)"
      "page_records a = ys @ pr # zs" "pr_page pr = ar_page (allocation_records a ! k)" "pr_is_exec pr = is_exec"
      "\<forall>r \<in> set (freed_at k (allocation_records a)). ar_page r = pr_page pr \<and> ar_is_exec r = is_exec \<longrightarrow> ar_is_free r"
      "a' = a\<lparr>page_records := ys @ zs,
              code_page_allocators := (if is_exec then remove1 (pr_allocator pr) (code_page_allocators a)
                 else code_page_allocators a),
              data_page_allocators := (if is_exec then data_page_allocators a
                 else remove1 (pr_allocator pr) (data_page_allocators a)),
              allocation_records := filter (\<lambda>r. \<not> (ar_page r = pr_page pr \<and> ar_is_exec r = is_exec))
                 (freed_at k (allocation_records a))\<rparr>"
proof (cases rule: free_cases[OF fr])
  case 1
  then show ?thesis by (rule ignored)
next
  case (2 rs)
  from mark_free_spec[OF 2(1)] obtain k where k: "k < length (allocation_records a)"
    "ar_addr (allocation_records a ! k) = range_addr block" "ar_is_exec (allocation_records a ! k) = is_exec"
    "rs = freed_at k (allocation_records a)" by blast
  show ?thesis
    using kept[OF k(1-3)] k(4) 2(2-4) record_floor[OF P inv nth_mem[OF k(1)]] k(2) by simp
next
  case (3 rs i prs)
  from mark_free_spec[OF 3(1)] obtain k where k: "k < length (allocation_records a)"
    "ar_addr (allocation_records a ! k) = range_addr block" "ar_is_exec (allocation_records a ! k) = is_exec"
    "rs = freed_at k (allocation_records a)" by blast
  let ?r = "allocation_records a ! k"
  have fl: "ALIGN_FLOOR (range_addr block) P = ar_page ?r"
    using record_floor[OF P inv nth_mem[OF k(1)]] k(2) by simp
  have "\<exists>pr \<in> set (page_records a). pr_page pr = ar_page ?r \<and> pr_is_exec pr = is_exec"
    using inv nth_mem[OF k(1)] k(3) by (auto simp: ma_inv_def list_all_iff record_ok_def)
  then obtain j where i: "i = Some j"
    using take_page_spec[OF 3(2)] fl by (cases i) auto
  then obtain ys pr zs where pr: "page_records a = ys @ pr # zs" "prs = ys @ zs" "pr_page pr = ar_page ?r"
    "pr_is_exec pr = is_exec" "pr_allocator pr = j"
    using take_page_spec[OF 3(2)] fl by auto
  show ?thesis
    using dropped[OF k(1-3) _ pr(1,3,4)] 3(3-5) pr k(4) i fl by simp
qed

lemma free_inv:
  assumes P: "page_size_ok P" and inv: "ma_inv P mapped a" and fr: "freeMemBlockLocked P block is_exec a = (freed, a')"
  shows "ma_inv P (case freed of None \<Rightarrow> mapped | Some page \<Rightarrow> mapped - {page}) a'"
proof (cases rule: free_inv_cases[OF assms])
  case 1
  then show ?thesis using inv by simp
next
  case (2 k)
  have "map core (freed_at k (allocation_records a)) = map core (allocation_records a)"
    using 2(1) by (simp add: map_update core_def list_update_same_conv)
  then show ?thesis using 2(4,5) inv by (simp add: ma_inv_cores)
next
  case (3 k ys pr zs)
  let ?rs = "freed_at k (allocation_records a)"
  have "map core ?rs = map core (allocation_records a)"
    using 3(1) by (simp add: map_update core_def list_update_same_conv)
  then have inv': "ma_inv P mapped (a\<lparr>allocation_records := ?rs\<rparr>)"
    using inv by (simp add: ma_inv_cores)
  have dist: "pr_page q \<noteq> pr_page pr" "pr_allocator q \<noteq> pr_allocator pr" if "q \<in> set (ys @ zs)" for q
    using inv 3(5) that unfolding ma_inv_def by (auto simp: image_iff)
  have pages: "page_ok P (mapped - {pr_page pr}) (ma_store a) q" if "q \<in> set (ys @ zs)" for q
    using inv 3(5) that dist[OF that] by (auto simp: ma_inv_def list_all_iff page_ok_def)
  have recs: "record_ok (ma_store a) (ys @ zs) r"
    if "r \<in> set ?rs" "\<not> (ar_page r = pr_page pr \<and> ar_is_exec r = is_exec)" for r
    using inv' 3(5,7) that by (auto simp: ma_inv_def list_all_iff record_ok_def)
  have al: "(if is_exec then remove1 (pr_allocator pr) (code_page_allocators a) else code_page_allocators a)
        = map pr_allocator (filter pr_is_exec (ys @ zs))"
      "(if is_exec then data_page_allocators a else remove1 (pr_allocator pr) (data_page_allocators a))
        = map pr_allocator (filter (\<lambda>pr. \<not> pr_is_exec pr) (ys @ zs))"
    using inv 3(5,7) dist by (auto simp: ma_inv_def remove1_append)
  show ?thesis
    using inv' pages recs al 3(4,5,9) by (auto simp: ma_inv_def list_all_iff sorted_wrt_filter)
qed

lemma ma_reachable_inv:
  assumes "ma_reachable P s" and "page_size_ok P"
  shows "ma_inv P (snd s) (fst s)"
  using assms
proof (induction rule: ma_reachable.induct)
  case init
  show ?case by (simp add: ma_inv_def MemoryAllocator_new_def)
next
  case (step s s')
  obtain a mapped a' mapped' where s: "s = (a, mapped)" "s' = (a', mapped')" by (cases s; cases s')
  then have inv: "ma_inv P mapped a" using step by simp
  from step(2) show ?case unfolding s
    by (elim ma_step_cases) (simp only: fst_conv snd_conv, rule alloc_inv[OF \<open>page_size_ok P\<close> inv]
        free_inv[OF \<open>page_size_ok P\<close> inv], assumption+)+
qed

section \<open>No page is lost\<close>






section \<open>The allocator as a pool of blocks\<close>

text \<open>
  What the allocator promises: it manages a set of blocks in use, each an address, the room reserved for
  it and its kind.  Taking a block adds one that overlaps none in use; giving one back removes it.
\<close>

type_synonym block = "nat \<times> nat \<times> bool"

definition pool_take :: "nat \<Rightarrow> bool \<Rightarrow> block set \<Rightarrow> nat \<Rightarrow> block set \<Rightarrow> bool" where
  "pool_take n is_exec L addr L' \<longleftrightarrow> addr \<noteq> 0 \<and> 8 dvd addr
     \<and> (\<exists>room \<ge> n. (\<forall>(b, m, _) \<in> L. addr + room \<le> b \<or> b + m \<le> addr) \<and> L' = insert (addr, room, is_exec) L)"

definition pool_give :: "nat \<Rightarrow> bool \<Rightarrow> block set \<Rightarrow> block set" where
  "pool_give addr is_exec L = {(b, m, e) \<in> L. \<not> (b = addr \<and> e = is_exec)}"

definition block_of :: "AllocationRecord \<Rightarrow> block" where
  "block_of r = (unat (ar_addr r), unat (ar_size r), ar_is_exec r)"

definition live :: "MemoryAllocator \<Rightarrow> block set" where
  "live a = block_of ` {r \<in> set (allocation_records a). \<not> ar_is_free r}"

lemma live_simps [simp]:
  "live (a\<lparr>ma_store := st\<rparr>) = live a" "live (a\<lparr>page_records := prs\<rparr>) = live a"
  "live (add_record P r n is_exec a) = insert (unat r, unat n, is_exec) (live a)"
  "live (add_page P page is_exec a) = live a"
proof -
  have "{r \<in> set (rs @ [x]). \<not> ar_is_free r} = insert x {r \<in> set rs. \<not> ar_is_free r}" if "\<not> ar_is_free x" for rs and x :: AllocationRecord
    using that by auto
  then show "live (add_record P r n is_exec a) = insert (unat r, unat n, is_exec) (live a)"
    by (simp add: live_def add_record_def block_of_def del: set_append)
qed (simp_all add: live_def)

lemma records_apart:
  assumes "ma_inv P mapped a" and "i < length (allocation_records a)" "j < length (allocation_records a)" "i \<noteq> j"
  shows "apart (allocation_records a ! i) (allocation_records a ! j)"
proof -
  have "sorted_wrt apart (allocation_records a)" using assms(1) by (simp add: ma_inv_def)
  with assms(2-4) show ?thesis
    using sorted_wrt_nth_less[of apart "allocation_records a" i j] sorted_wrt_nth_less[of apart "allocation_records a" j i]
    by (cases "i < j") (auto simp: apart_def)
qed

lemma live_update:
  assumes "k < length (allocation_records a)"
  shows "live (a\<lparr>allocation_records := (allocation_records a)[k := (allocation_records a ! k)\<lparr>ar_is_free := b\<rparr>]\<rparr>)
    = (if b then {} else {block_of (allocation_records a ! k)})
      \<union> (\<lambda>j. block_of (allocation_records a ! j)) `
          {j. j < length (allocation_records a) \<and> j \<noteq> k \<and> \<not> ar_is_free (allocation_records a ! j)}"
proof -
  let ?rs = "allocation_records a"
  have "set (?rs[k := x]) = insert x {?rs ! j | j. j < length ?rs \<and> j \<noteq> k}" for x
    using assms by (auto simp: set_conv_nth nth_list_update)
  then have "{r \<in> set (?rs[k := (?rs ! k)\<lparr>ar_is_free := b\<rparr>]). \<not> ar_is_free r} =
      (if b then {} else {(?rs ! k)\<lparr>ar_is_free := b\<rparr>}) \<union> (!) ?rs ` {j. j < length ?rs \<and> j \<noteq> k \<and> \<not> ar_is_free (?rs ! j)}"
    by auto
  then show ?thesis
    by (simp add: live_def image_Un image_image block_of_def)
qed

lemma live_nth:
  "live a = (\<lambda>j. block_of (allocation_records a ! j)) `
     {j. j < length (allocation_records a) \<and> \<not> ar_is_free (allocation_records a ! j)}"
  by (auto simp: live_def set_conv_nth)

lemma mark_free_None: "mark_free addr is_exec rs = None \<Longrightarrow> r \<in> set rs \<Longrightarrow> \<not> (ar_addr r = addr \<and> ar_is_exec r = is_exec)"
  by (induction rs) (auto split: if_splits)

lemma image_filter: "{x \<in> f ` A. Q x} = f ` {y \<in> A. Q (f y)}"
  by auto

lemma live_freed:
  assumes "ma_inv P mapped a" and k: "k < length (allocation_records a)"
  shows "live (a\<lparr>allocation_records := freed_at k (allocation_records a)\<rparr>) =
    pool_give (unat (ar_addr (allocation_records a ! k))) (ar_is_exec (allocation_records a ! k)) (live a)"
proof -
  let ?rs = "allocation_records a"
  let ?hit = "\<lambda>(b, m, e). b = unat (ar_addr (?rs ! k)) \<and> e = ar_is_exec (?rs ! k)"
  have "ar_addr (?rs ! j) \<noteq> ar_addr (?rs ! k)" if "j < length ?rs" "j \<noteq> k" for j
    using records_apart[OF assms(1) that(1) k that(2)] record_in_page(6)[OF assms(1) nth_mem[OF k]]
      record_in_page(6)[OF assms(1) nth_mem[OF that(1)]] by (auto simp: apart_def)
  then have hit: "?hit (block_of (?rs ! j)) \<longleftrightarrow> j = k" if "j < length ?rs" for j
    using that by (auto simp: block_of_def word_unat_eq_iff)
  have "pool_give (unat (ar_addr (?rs ! k))) (ar_is_exec (?rs ! k)) (live a) = {x \<in> live a. \<not> ?hit x}"
    by (auto simp: pool_give_def)
  also have "\<dots> = (\<lambda>j. block_of (?rs ! j)) `
      {j \<in> {j. j < length ?rs \<and> \<not> ar_is_free (?rs ! j)}. \<not> ?hit (block_of (?rs ! j))}"
    by (simp only: live_nth image_filter)
  also have "{j \<in> {j. j < length ?rs \<and> \<not> ar_is_free (?rs ! j)}. \<not> ?hit (block_of (?rs ! j))}
      = {j. j < length ?rs \<and> j \<noteq> k \<and> \<not> ar_is_free (?rs ! j)}"
  proof (rule Collect_cong)
    fix j
    show "(j \<in> {j. j < length ?rs \<and> \<not> ar_is_free (?rs ! j)} \<and> \<not> ?hit (block_of (?rs ! j)))
        = (j < length ?rs \<and> j \<noteq> k \<and> \<not> ar_is_free (?rs ! j))"
    proof (cases "j < length ?rs")
      case True
      show ?thesis unfolding hit[OF True] mem_Collect_eq by blast
    qed simp
  qed
  finally show ?thesis
    using live_update[OF k, of True] by simp
qed

lemma alloc_takes:
  assumes P: "page_size_ok P" and inv: "ma_inv P mapped a" and page: "page = 0 \<or> page_fresh P mapped page"
    and al: "allocMemBlockLocked P page perm_ok n is_exec a = (blk, a')"
  shows "if rsize blk = 0 then blk = MemRange_empty \<and> live a' = live a
         else rsize blk = n \<and> pool_take (unat n) is_exec (live a) (unat (range_addr blk)) (live a')"
proof (cases rule: alloc_cases[OF assms])
  case (3 i)
  let ?rs = "allocation_records a"
  note r = record_in_page[OF inv nth_mem[OF 3(1)]]
  have ap: "unat (ar_addr (?rs ! i)) + unat (ar_size (?rs ! i)) \<le> unat (ar_addr (?rs ! j))
      \<or> unat (ar_addr (?rs ! j)) + unat (ar_size (?rs ! j)) \<le> unat (ar_addr (?rs ! i))"
    if "j < length ?rs" "\<not> ar_is_free (?rs ! j)" for j
  proof -
    have "i \<noteq> j" using 3(2) that(2) by auto
    from records_apart[OF inv 3(1) that(1) this] show ?thesis by (simp add: apart_def)
  qed
  have "{j. j < length ?rs \<and> j \<noteq> i \<and> \<not> ar_is_free (?rs ! j)} = {j. j < length ?rs \<and> \<not> ar_is_free (?rs ! j)}"
    using 3(2) by auto
  then have "live a' = insert (block_of (?rs ! i)) (live a)"
    using live_update[OF 3(1), of False] 3(7) by (simp add: live_nth)
  moreover have "ar_addr (?rs ! i) \<noteq> 0"
    using r(1,7) by (metis le_zero_eq unat_eq_zero)
  ultimately show ?thesis
    using 3(3-6) r(5) ap by (auto simp: pool_take_def live_nth block_of_def word_le_nat_alt unat_eq_zero intro!: exI[of _ "unat (ar_size (?rs ! i))"])
next
  case (4 b pr store' r)
  have b: "ma_inv P (mapped_after a b page mapped) b" "live b = live a" "allocation_records b = allocation_records a"
    using 4(1) inv by (auto intro: add_page_inv[OF P] ma_inv_advanced)
  have "\<forall>(c, m, _) \<in> live a. unat r + unat n \<le> c \<or> c + m \<le> unat r"
    using carve_inv(3)[OF P b(1) 4(4,2,3,5,6)] b(3) by (auto simp: live_def block_of_def)
  then show ?thesis
    using 4(5-7,9,10) b(2) by (auto simp: pool_take_def carved_def unat_eq_zero)
qed simp_all

lemma free_gives:
  assumes P: "page_size_ok P" and inv: "ma_inv P mapped a" and fr: "freeMemBlockLocked P block is_exec a = (freed, a')"
  shows "live a' = (if range_addr block = 0 \<or> rsize block = 0 then live a
                    else pool_give (unat (range_addr block)) is_exec (live a))"
proof (cases "range_addr block = 0 \<or> rsize block = 0")
  case True
  then show ?thesis using fr by (auto simp: freeMemBlockLocked_def)
next
  case False
  show ?thesis
  proof (cases rule: free_inv_cases[OF assms])
    case 1
    then have "\<not> (ar_addr r = range_addr block \<and> ar_is_exec r = is_exec)" if "r \<in> set (allocation_records a)" for r
      using False that mark_free_None by blast
    then have "live a = pool_give (unat (range_addr block)) is_exec (live a)"
      by (auto simp: pool_give_def live_def block_of_def word_unat_eq_iff)
    then show ?thesis using 1(2) False by simp
  next
    case (2 k)
    then show ?thesis using live_freed[OF inv 2(1)] False by simp
  next
    case (3 k ys pr zs)
    have "live a' = live (a\<lparr>allocation_records := freed_at k (allocation_records a)\<rparr>)"
      using 3(8,9) by (auto simp: live_def)
    then show ?thesis using live_freed[OF inv 3(1)] False 3(2,3) by simp
  qed
qed

lemma alloc_succeeds:
  assumes "page_size_ok P" and "ma_inv P mapped a" and "page_fresh P mapped page"
    and "allocMemBlockLocked P page True n is_exec a = (blk, a')" and "n \<noteq> 0" and "n \<le> P"
  shows "rsize blk = n"
  by (cases rule: alloc_cases[OF assms(1,2) _ assms(4)]) (use assms in \<open>auto simp: page_fresh_def\<close>)

section \<open>Properties\<close>

text \<open>A first allocation, on which the properties are exercised.\<close>

definition one_block :: MemoryAllocator where
  "one_block = snd (allocMemBlockLocked 0x1000 0x10000 True 16 True MemoryAllocator_new)"

lemma demo_page: "page_size_ok 0x1000" "page_fresh 0x1000 {} 0x10000" "page_fresh 0x1000 {0x10000} 0x20000"
proof -
  show "page_size_ok 0x1000"
    unfolding page_size_ok_def by (rule exI[of _ 12]) simp
qed (simp_all add: page_fresh_def)

lemma one_block_alloc:
  "allocMemBlockLocked 0x1000 0x10000 True 16 True MemoryAllocator_new = (MemRange_new 0x10000 16, one_block)"
  by (simp add: one_block_def allocMemBlockLocked_def MemoryAllocator_new_def add_page_def add_record_def
      sla_alloc_def sla_init_def sla_cursor_def ALIGN_CEIL_def Let_def)

lemma one_block_fields:
  "allocation_records one_block = [\<lparr>ar_addr = 0x10000, ar_size = 16, ar_page = 0x10000, ar_is_exec = True, ar_is_free = False\<rparr>]"
  "page_records one_block = [\<lparr>pr_allocator = 0, pr_page = 0x10000, pr_is_exec = True\<rparr>]"
  by (simp_all add: one_block_def allocMemBlockLocked_def MemoryAllocator_new_def add_page_def add_record_def
      sla_alloc_def sla_init_def sla_cursor_def ALIGN_CEIL_def ALIGN_FLOOR_def Let_def)

lemma one_block_reachable: "ma_reachable 0x1000 (one_block, {0x10000})"
proof (rule ma_reachable.step[OF ma_reachable.init])
  show "ma_step 0x1000 (MemoryAllocator_new, {}) (one_block, {0x10000})"
    by (rule ma_step.alloc[OF disjI2[OF demo_page(2)] one_block_alloc])
      (simp add: one_block_fields MemoryAllocator_new_def)
qed

text \<open>
  C10.  In every state the allocator can reach, the blocks it keeps records of, in use or free, do not
  overlap, and each of them lies inside a page that is mapped, starts on an 8-byte boundary and is not empty.
\<close>

theorem allocator_blocks_disjoint:
  assumes "page_size_ok P" and "ma_reachable P (a, mapped)"
  shows "sorted_wrt apart (allocation_records a)
    \<and> (\<forall>r \<in> set (allocation_records a). ar_page r \<in> mapped \<and> unat P dvd unat (ar_page r)
         \<and> unat (ar_page r) \<le> unat (ar_addr r) \<and> unat (ar_addr r) + unat (ar_size r) \<le> unat (ar_page r) + unat P
         \<and> 8 dvd unat (ar_addr r) \<and> 0 < unat (ar_size r))"
proof -
  have inv: "ma_inv P mapped a" using ma_reachable_inv[OF assms(2,1)] by simp
  then show ?thesis using record_in_page[OF inv] by (auto simp: ma_inv_def)
qed

theorem allocator_blocks_disjoint_witness:
  "sorted_wrt apart (allocation_records one_block) \<and> ar_page (hd (allocation_records one_block)) \<in> {0x10000}
     \<and> 8 dvd unat (ar_addr (hd (allocation_records one_block)))"
  using allocator_blocks_disjoint[OF demo_page(1) one_block_reachable] by (simp add: one_block_fields)



text \<open>
  C29.  Allocating refines taking a block from the pool: the answer is empty and the blocks in use are
  unchanged, or it has the size asked for and its address is that of one block added to those in use,
  8-byte aligned, with room for the size asked for, overlapping no block in use.  This covers a reused
  record, a block carved from a page already there, and one carved from a new page.
\<close>

theorem allocMemBlock_refines_take:
  assumes "page_size_ok P" and "ma_reachable P (a, mapped)" and "page = 0 \<or> page_fresh P mapped page"
    and "allocMemBlockLocked P page perm_ok n is_exec a = (blk, a')"
  shows "if rsize blk = 0 then blk = MemRange_empty \<and> live a' = live a
         else rsize blk = n \<and> pool_take (unat n) is_exec (live a) (unat (range_addr blk)) (live a')"
  using ma_reachable_inv[OF assms(2,1)] by (intro alloc_takes[OF assms(1) _ assms(3,4)]) simp

theorem allocMemBlock_refines_take_witness:
  "pool_take 16 True (live MemoryAllocator_new) 0x10000 (live one_block)"
  using allocMemBlock_refines_take[OF demo_page(1) ma_reachable.init disjI2[OF demo_page(2)] one_block_alloc] by simp

text \<open>
  C30.  Freeing refines giving a block back: the block in use at that address and of that kind, if there
  is one, is no longer in use, and no other block is affected, whether or not the page goes back to the
  system.  An empty block is ignored.
\<close>

theorem freeMemBlock_refines_give:
  assumes "page_size_ok P" and "ma_reachable P (a, mapped)"
  shows "live (snd (freeMemBlockLocked P block is_exec a)) =
     (if range_addr block = 0 \<or> rsize block = 0 then live a
      else pool_give (unat (range_addr block)) is_exec (live a))"
  using ma_reachable_inv[OF assms(2,1)] free_gives[OF assms(1) _ surjective_pairing] by simp

theorem freeMemBlock_refines_give_witness:
  "live (snd (freeMemBlockLocked 0x1000 (MemRange_new 0x10000 16) True one_block)) =
     pool_give 0x10000 True (live one_block)"
  using freeMemBlock_refines_give[OF demo_page(1) one_block_reachable, of "MemRange_new 0x10000 16" True] by simp

text \<open>
  C32.  An allocation succeeds whenever the size is between one byte and a page and the system gives a
  page and lets its protection be set.
\<close>

theorem allocMemBlock_succeeds:
  assumes "page_size_ok P" and "ma_reachable P (a, mapped)" and "page_fresh P mapped page" and "n \<noteq> 0" and "n \<le> P"
  shows "\<exists>addr a'. allocMemBlockLocked P page True n is_exec a = (MemRange_new addr n, a') \<and> addr \<noteq> 0"
proof -
  obtain blk a' where al: "allocMemBlockLocked P page True n is_exec a = (blk, a')"
    by (cases "allocMemBlockLocked P page True n is_exec a")
  have inv: "ma_inv P mapped a" using ma_reachable_inv[OF assms(2,1)] by simp
  have "rsize blk = n" using alloc_succeeds[OF assms(1) inv assms(3) al assms(4,5)] .
  moreover have "range_addr blk \<noteq> 0"
    using alloc_takes[OF assms(1) inv disjI2[OF assms(3)] al] \<open>rsize blk = n\<close> assms(4)
    by (auto simp: pool_take_def)
  ultimately show ?thesis
    using al by (cases blk) auto
qed

theorem allocMemBlock_succeeds_witness:
  "\<exists>addr a'. allocMemBlockLocked 0x1000 0x20000 True 0x1000 False one_block = (MemRange_new addr 0x1000, a') \<and> addr \<noteq> 0"
  using allocMemBlock_succeeds[OF demo_page(1) one_block_reachable demo_page(3), of "0x1000" False] by simp

end
