(* ===== verification/Trampolines.thy ===== *)
theory Trampolines
  imports Code_Builder
begin

text \<open>
  The trampoline objects of \<^verbatim>\<open>source/TrampolineBridge/Trampoline/Trampoline.h\<close>: what a
  trampoline is made of, who owns its buffer, and what destroying it gives back.  A buffer on the
  heap belongs to its trampoline alone, so its bytes are kept with the trampoline; the other
  buffers are in the memory of the engine.
\<close>

datatype trampoline_type_t =
    TRAMPOLINE_UNKNOWN
  | TRAMPOLINE_ARM64_B_XXX
  | TRAMPOLINE_ARM64_B_XXX_AND_FORWARD_TRAMP
  | TRAMPOLINE_ARM64_ADRP_ADD_BR
  | TRAMPOLINE_ARM64_LDR_BR
  | TRAMPOLINE_ARM_LDR_PC
  | CLOSURE_TRAMPOLINE_ARM64
  | CLOSURE_TRAMPOLINE_ARM
  | FORWARD_TRAMPOLINE_ARM64
  | TRAMPOLINE_X64_JMP
  | CLOSEURE_TRAMPOLINE_X64

datatype trampoline_buffer_ownership_t =
    TRAMPOLINE_BUFFER_NONE
  | TRAMPOLINE_BUFFER_HEAP
  | TRAMPOLINE_BUFFER_EXEC_ALLOCATOR
  | TRAMPOLINE_BUFFER_NEAR_EXEC_ALLOCATOR
  | TRAMPOLINE_BUFFER_NEAR_DATA_ALLOCATOR

datatype Trampoline = Trampoline
  (tr_type: trampoline_type_t)
  (tr_buffer: MemRange)
  (tr_bytes: "u8 list")
  (tr_ownership: trampoline_buffer_ownership_t)
  (tr_forward: "Trampoline option")
  (tr_near_code: "MemRange list")
  (tr_near_data: "MemRange list")

text \<open>
  What trampolines need of the engine besides what the relocators need: near data blocks, giving
  near blocks back, the heap, and plain stores.
\<close>

record 's tramp_engine = "'s engine" +
  eng_near_data :: "'s \<Rightarrow> u32 \<Rightarrow> u64 \<Rightarrow> u64 \<Rightarrow> MemRange \<times> 's"
  eng_near_free :: "'s \<Rightarrow> MemRange \<Rightarrow> bool \<Rightarrow> 's"
  eng_new :: "'s \<Rightarrow> u64 \<Rightarrow> u64 \<times> 's"
  eng_delete :: "'s \<Rightarrow> u64 \<Rightarrow> 's"
  eng_store :: "'s \<Rightarrow> u64 \<Rightarrow> u8 list \<Rightarrow> 's"

text \<open>\<^verbatim>\<open>CodeMemBuffer::dup\<close> and the constructor with the default ownership: a copy on the heap.\<close>

definition heap_trampoline ::
  "'s tramp_engine \<Rightarrow> trampoline_type_t \<Rightarrow> u8 list \<Rightarrow> Trampoline option \<Rightarrow> 's \<Rightarrow> Trampoline \<times> 's" where
  "heap_trampoline eng type code forward env =
     (let (addr, env) = eng_new eng env (of_nat (length code))
      in (Trampoline type (MemRange_new addr (of_nat (length code))) code TRAMPOLINE_BUFFER_HEAP forward [] [], env))"

definition own_near_code_block :: "MemRange \<Rightarrow> Trampoline \<Rightarrow> Trampoline" where
  "own_near_code_block block t =
     (if range_addr block \<noteq> 0 \<and> rsize block \<noteq> 0
      then Trampoline (tr_type t) (tr_buffer t) (tr_bytes t) (tr_ownership t) (tr_forward t)
             (tr_near_code t @ [block]) (tr_near_data t)
      else t)"

definition own_near_data_block :: "MemRange \<Rightarrow> Trampoline \<Rightarrow> Trampoline" where
  "own_near_data_block block t =
     (if range_addr block \<noteq> 0 \<and> rsize block \<noteq> 0
      then Trampoline (tr_type t) (tr_buffer t) (tr_bytes t) (tr_ownership t) (tr_forward t)
             (tr_near_code t) (tr_near_data t @ [block])
      else t)"

definition tr_addr :: "Trampoline \<Rightarrow> u64" where
  "tr_addr t = range_addr (tr_buffer t)"

definition tr_size :: "Trampoline \<Rightarrow> u64" where
  "tr_size t = rsize (tr_buffer t)"

definition forward_addr :: "Trampoline \<Rightarrow> u64" where
  "forward_addr t = (case tr_forward t of None \<Rightarrow> 0 | Some f \<Rightarrow> tr_addr f)"

definition forward_size :: "Trampoline \<Rightarrow> u64" where
  "forward_size t = (case tr_forward t of None \<Rightarrow> 0 | Some f \<Rightarrow> tr_size f)"

definition release_buffer :: "'s tramp_engine \<Rightarrow> Trampoline \<Rightarrow> 's \<Rightarrow> 's" where
  "release_buffer eng t env =
     (if tr_addr t = 0 \<or> tr_size t = 0 then env
      else case tr_ownership t of
             TRAMPOLINE_BUFFER_HEAP \<Rightarrow> eng_delete eng env (tr_addr t)
           | TRAMPOLINE_BUFFER_EXEC_ALLOCATOR \<Rightarrow> eng_exec_free eng env (tr_buffer t)
           | TRAMPOLINE_BUFFER_NEAR_EXEC_ALLOCATOR \<Rightarrow> eng_near_free eng env (tr_buffer t) True
           | TRAMPOLINE_BUFFER_NEAR_DATA_ALLOCATOR \<Rightarrow> eng_near_free eng env (tr_buffer t) False
           | TRAMPOLINE_BUFFER_NONE \<Rightarrow> env)"

definition set_buffer ::
  "'s tramp_engine \<Rightarrow> MemRange \<Rightarrow> u8 list \<Rightarrow> trampoline_buffer_ownership_t \<Rightarrow> Trampoline \<Rightarrow> 's \<Rightarrow> Trampoline \<times> 's" where
  "set_buffer eng in_buffer bytes ownership t env =
     (Trampoline (tr_type t) in_buffer bytes ownership (tr_forward t) (tr_near_code t) (tr_near_data t),
      release_buffer eng t env)"

text \<open>The destructor: the forward trampoline, the buffer, then the blocks owned besides it.\<close>

fun delete_trampoline :: "'s tramp_engine \<Rightarrow> Trampoline \<Rightarrow> 's \<Rightarrow> 's" where
  "delete_trampoline eng (Trampoline type buffer bytes ownership forward near_code near_data) env =
     (let env = (case forward of None \<Rightarrow> env | Some f \<Rightarrow> delete_trampoline eng f env);
          env = release_buffer eng (Trampoline type buffer bytes ownership None near_code near_data) env;
          env = fold (\<lambda>block env. eng_near_free eng env block True) near_code env
      in fold (\<lambda>block env. eng_near_free eng env block False) near_data env)"

section \<open>What destroying a trampoline gives back\<close>

text \<open>The blocks a trampoline owns, with how each is to be given back.\<close>

datatype release = Heap u64 | Exec MemRange | NearCode MemRange | NearData MemRange

definition owned_buffer :: "Trampoline \<Rightarrow> release list" where
  "owned_buffer t =
     (if tr_addr t = 0 \<or> tr_size t = 0 then []
      else case tr_ownership t of
             TRAMPOLINE_BUFFER_HEAP \<Rightarrow> [Heap (tr_addr t)]
           | TRAMPOLINE_BUFFER_EXEC_ALLOCATOR \<Rightarrow> [Exec (tr_buffer t)]
           | TRAMPOLINE_BUFFER_NEAR_EXEC_ALLOCATOR \<Rightarrow> [NearCode (tr_buffer t)]
           | TRAMPOLINE_BUFFER_NEAR_DATA_ALLOCATOR \<Rightarrow> [NearData (tr_buffer t)]
           | TRAMPOLINE_BUFFER_NONE \<Rightarrow> [])"

fun owned :: "Trampoline \<Rightarrow> release list" where
  "owned (Trampoline type buffer bytes ownership forward near_code near_data) =
     (case forward of None \<Rightarrow> [] | Some f \<Rightarrow> owned f)
     @ owned_buffer (Trampoline type buffer bytes ownership None near_code near_data)
     @ map NearCode near_code @ map NearData near_data"

fun give_back :: "'s tramp_engine \<Rightarrow> release \<Rightarrow> 's \<Rightarrow> 's" where
  "give_back eng (Heap a) env = eng_delete eng env a"
| "give_back eng (Exec b) env = eng_exec_free eng env b"
| "give_back eng (NearCode b) env = eng_near_free eng env b True"
| "give_back eng (NearData b) env = eng_near_free eng env b False"

lemma release_buffer_owned: "release_buffer eng t env = fold (give_back eng) (owned_buffer t) env"
  by (simp add: release_buffer_def owned_buffer_def split: trampoline_buffer_ownership_t.split)

lemma near_gives:
  "(\<lambda>b. give_back eng (NearCode b)) = (\<lambda>b env. eng_near_free eng env b True)"
  "(\<lambda>b. give_back eng (NearData b)) = (\<lambda>b env. eng_near_free eng env b False)"
  by (intro ext; simp)+

lemma delete_trampoline_owned: "delete_trampoline eng t env = fold (give_back eng) (owned t) env"
proof (induction eng t env rule: delete_trampoline.induct)
  case (1 eng type buffer bytes ownership forward near_code near_data env)
  then show ?case
    by (cases forward) (simp_all add: release_buffer_owned fold_map comp_def near_gives)
qed

end
