(* ===== verification/Arm64_Trampoline.thy ===== *)
theory Arm64_Trampoline
  imports Trampolines Arm64_Relocation_Proofs
begin

text \<open>
  The trampolines that are written over the hooked function in the 64-bit ARM build:
  \<^verbatim>\<open>source/TrampolineBridge/Trampoline/trampoline_arm64.cc\<close> and
  \<^verbatim>\<open>source/InterceptRouting/NearBranchTrampoline/near_trampoline_arm64.cc\<close>.  Execution of each
  trampoline in the reference semantics reaches the replacement function with only the scratch
  register x17 changed, except in one case at the edge of the range of ADRP.
\<close>

section \<open>Generators\<close>

definition llabs :: "u64 \<Rightarrow> u64" where
  "llabs x = (if sint x < 0 then - x else x)"

definition normal_trampoline_code :: "u64 \<Rightarrow> u64 \<Rightarrow> (trampoline_type_t \<times> u8 list) result" where
  "normal_trampoline_code from to =
     (let a = TurboAssembler_new from;
          distance = llabs (from - to);
          adrp_range = push_bit (2 + 19 + 12 - 1) 1;
          near = distance < adrp_range
      in sbind (if near then sbind (asm_AdrpAdd TMP_REG_0 from to a) (\<lambda>a. Inr (asm_br TMP_REG_0 a))
                else LiteralLdrBranch to a) (\<lambda>a.
           sbind (relocDataLabels a) (\<lambda>a.
             Inr (if near then TRAMPOLINE_ARM64_ADRP_ADD_BR else TRAMPOLINE_ARM64_LDR_BR, asm_code a))))"

definition GenerateNormalTrampolineBuffer_arm64 ::
  "'s tramp_engine \<Rightarrow> u64 \<Rightarrow> u64 \<Rightarrow> 's \<Rightarrow> (Trampoline \<times> 's) result" where
  "GenerateNormalTrampolineBuffer_arm64 eng from to env =
     sbind (normal_trampoline_code from to) (\<lambda>(type, code). Inr (heap_trampoline eng type code None env))"

definition ARM64_B_XXX_RANGE :: u64 where
  "ARM64_B_XXX_RANGE = push_bit 2 (push_bit 25 1)"

definition forward_trampoline_code :: "u64 \<Rightarrow> u8 list result" where
  "forward_trampoline_code dst =
     sbind (asm_ldr_literal TMP_REG_0 8 (TurboAssembler_new 0)) (\<lambda>a.
       Inr (asm_code (asm_EmitInt64 dst (asm_br TMP_REG_0 a))))"

text \<open>The assertion on the alignment of the block writes through a wild pointer when it fails.\<close>

definition GenerateFastForwardTrampoline ::
  "'s tramp_engine \<Rightarrow> u64 \<Rightarrow> u64 \<Rightarrow> 's \<Rightarrow> (Trampoline option \<times> 's) result" where
  "GenerateFastForwardTrampoline eng src dst env =
     (let (blk, env) = eng_near eng env (4 * 4) src ARM64_B_XXX_RANGE
      in if range_addr blk mod 4 \<noteq> 0 then Inl AssertFailed
         else if range_addr blk = 0 then Inr (None, env)
         else sbind (forward_trampoline_code dst) (\<lambda>code.
                let (block, env) = FinalizeFromTurboAssembler eng (range_addr blk) code env
                in Inr (Some (Trampoline FORWARD_TRAMPOLINE_ARM64 block [] TRAMPOLINE_BUFFER_NEAR_EXEC_ALLOCATOR None [] []), env)))"

definition GenerateNearTrampolineBuffer_arm64 ::
  "'s tramp_engine \<Rightarrow> u64 \<Rightarrow> u64 \<Rightarrow> 's \<Rightarrow> (Trampoline option \<times> 's) result" where
  "GenerateNearTrampolineBuffer_arm64 eng src dst env =
     (if llabs (dst - src) < ARM64_B_XXX_RANGE
      then let (t, env) = heap_trampoline eng TRAMPOLINE_ARM64_B_XXX (asm_code (asm_b (dst - src) (TurboAssembler_new src))) None env
           in Inr (Some t, env)
      else sbind (GenerateFastForwardTrampoline eng src dst env) (\<lambda>(forward, env).
             case forward of
               None \<Rightarrow> Inr (None, env)
             | Some f \<Rightarrow>
                 let (t, env) = heap_trampoline eng TRAMPOLINE_ARM64_B_XXX_AND_FORWARD_TRAMP
                                  (asm_code (asm_b (tr_addr f - src) (TurboAssembler_new src))) (Some f) env
                 in Inr (Some t, env)))"

section \<open>The instructions of the trampolines\<close>

definition adrp17 :: "u64 \<Rightarrow> u32" where
  "adrp17 off = 0x90000011 OR push_bit 29 (take_bit 2 (ucast (drop_bit 12 off)))
                OR push_bit 5 (take_bit 19 (ucast (drop_bit 14 off)))"

definition add17 :: "u64 \<Rightarrow> u32" where
  "add17 imm = 0x91000231 OR push_bit 10 (take_bit 12 (ucast imm))"

definition b_word :: "u64 \<Rightarrow> u32" where
  "b_word off = 0x14000000 OR take_bit 26 (ucast (drop_bit 2 off))"

lemma adrp17_emits: "asm_adrp TMP_REG_0 off a = asm_Emit (adrp17 off) a"
proof -
  have lo: "LeftShift (ucast (c_bits (signed_drop_bit 12 off) 0 1)) 2 29 = push_bit 29 (take_bit 2 (ucast (drop_bit 12 off) :: u32))"
    by (rule bit_word_eqI) (auto simp: LeftShift_eq c_bits_def submask_def bit_simps)
  have hi: "LeftShift (ucast (c_bits (signed_drop_bit 12 off) 2 20)) 19 5 = push_bit 5 (take_bit 19 (ucast (drop_bit 14 off) :: u32))"
    by (rule bit_word_eqI) (auto simp: LeftShift_eq c_bits_def submask_def bit_simps)
  show ?thesis
    unfolding asm_adrp_def Let_def lo hi
    by (simp add: adrp17_def TMP_REG_0_def reg_X_def f_Rd_def reg_code_def kRdShift_def PCRelAddressingFixed_def
        flip: or.assoc)
qed

lemma add17_emits: "asm_add TMP_REG_0 TMP_REG_0 imm a = Inr (asm_Emit (add17 imm) a)"
proof -
  have "ucast (LeftShift imm 12 10) = push_bit 10 (take_bit 12 (ucast imm) :: u32)"
    by (rule bit_word_eqI) (auto simp: LeftShift_eq bit_simps)
  moreover have "AddSubImmediateOp_value ADD_x = 0x91000000"
    by (simp add: AddSubImmediateOp_value_def AddSubOpSub_def AddSubImmediateFixed_def LeftShift_def)
  ultimately show ?thesis
    by (simp add: asm_add_def asm_AddSubImmediate_def Operand_imm_def IsImmediate_def Is64Bits_def TMP_REG_0_def
        reg_X_def f_Rd_def f_Rn_def reg_code_def kRdShift_def kRnShift_def add17_def Let_def
        InvalidRegister_def reg_Is_def flip: or.assoc)
qed

lemma b_emits: "asm_b off a = asm_Emit (b_word off) a"
proof -
  have "ucast (c_bits (signed_drop_bit 2 off) 0 25) = take_bit 26 (ucast (drop_bit 2 off) :: u32)"
    by (rule bit_word_eqI) (auto simp: c_bits_def submask_def bit_simps)
  then show ?thesis
    by (simp add: asm_b_def b_word_def UnconditionalBranchFixed_def)
qed

lemma field_above: "n \<le> p \<Longrightarrow> take_bit n (push_bit p (take_bit k x)) = (0 :: u32)"
  by (rule bit_word_eqI) (auto simp: bit_simps)

lemma ucast_field: "lo + n \<le> 32 \<Longrightarrow> take_bit n (drop_bit lo (ucast (i :: u32) :: u64)) = ucast (take_bit n (drop_bit lo i))"
  by (rule bit_word_eqI) (auto simp: bit_simps)

lemmas word_fields = bit.conj_disj_distrib2 field_and_mask field_outside field_above field_same take_bit_or drop_bit_or

lemma adrp17_class: "adrp17 off AND 0x9F000000 = 0x90000000" "ifield (adrp17 off) 0 5 = 17"
  by (simp_all add: adrp17_def ifield_def word_fields)

lemma add17_class: "add17 imm AND 0xFFC00000 = 0x91000000" "ifield (add17 imm) 0 5 = 17" "ifield (add17 imm) 5 5 = 17"
  "ifield (add17 imm) 10 12 = unat (take_bit 12 (ucast imm :: u32))"
  by (simp_all add: add17_def ifield_def word_fields)

lemma adr_imm_adrp17: "adr_imm (adrp17 off) = signed_take_bit 20 (drop_bit 12 off)"
proof -
  have "take_bit 2 (drop_bit 29 (adrp17 off)) = take_bit 2 (ucast (drop_bit 12 off))"
    "take_bit 19 (drop_bit 5 (adrp17 off)) = take_bit 19 (ucast (drop_bit 14 off))"
    by (simp_all add: adrp17_def word_fields)
  then have "take_bit 2 (drop_bit 29 (ucast (adrp17 off))) OR push_bit 2 (take_bit 19 (drop_bit 5 (ucast (adrp17 off))))
      = take_bit 21 (drop_bit 12 off)"
    by (simp add: ucast_field) (rule bit_word_eqI, auto simp: bit_simps Suc_Suc_diff)
  then have "adr_imm (adrp17 off) = signed_take_bit 20 (take_bit 21 (drop_bit 12 off))"
    by (simp add: adr_imm_def)
  also have "\<dots> = signed_take_bit 20 (drop_bit 12 off)"
    by (auto intro!: bit_word_eqI simp: bit_simps min_def)
  finally show ?thesis .
qed

lemma adrp17_exec:
  assumes "take_bit 12 off = 0"
  shows "a64_exec (adrp17 off) s = Some (next_pc (x_set 17 ((a_pc s AND NOT (mask 12)) + signed_take_bit 32 off) s))"
proof -
  have "push_bit 12 (signed_take_bit 20 (drop_bit 12 off)) = signed_take_bit 32 off"
  proof (rule bit_word_eqI)
    fix n
    have "\<not> bit off n" if "n < 12"
      using that bit_take_bit_iff[of 12 off n] assms by simp
    then show "bit (push_bit 12 (signed_take_bit 20 (drop_bit 12 off))) n = bit (signed_take_bit 32 off) n" if "n < LENGTH(64)"
      using that by (cases "n < 12") (auto simp: bit_simps min_def)
  qed
  then show ?thesis
    using exec_adrp[OF adrp17_class(1)] by (simp add: adrp17_class(2) adr_imm_adrp17)
qed

lemma add17_exec:
  "a64_exec (add17 imm) s = Some (next_pc (x_set 17 (a_gpr s 17 + take_bit 12 imm) s))"
proof -
  have "of_nat (unat (take_bit 12 (ucast imm :: u32))) = take_bit 12 imm"
    by (rule bit_word_eqI) (auto simp: bit_simps simp flip: ucast_eq)
  then show ?thesis
    using exec_add[OF add17_class(1)] by (simp add: add17_class xsp_set_def xsp_get_def x_set_def)
qed

lemma b_word_exec:
  assumes "fits 26 2 off"
  shows "a64_exec (b_word off) s = Some (s\<lparr>a_pc := a_pc s + off\<rparr>)"
proof -
  have c: "b_word off AND 0xFC000000 = 0x14000000"
    by (simp add: b_word_def bit.conj_disj_distrib2 low_field_and_mask)
  have tb: "take_bit 26 (b_word off) = take_bit 26 (ucast (drop_bit 2 off))"
    by (simp add: b_word_def take_bit_or)
  have "bit (b_word off) k = bit off (2 + k)" if "k < 26" for k
    using arg_cong[OF tb, of "\<lambda>w. bit w k"] that by (simp add: bit_simps)
  then have "simm (b_word off) 0 26 2 = off"
    using assms by (intro simm_cong) auto
  then show ?thesis
    using exec_b[OF c] by (simp add: branch_if_def)
qed

section \<open>The code of the trampolines\<close>

lemma reloc_no_labels: "asm_data_labels a = [] \<Longrightarrow> relocDataLabels a = Inr a"
  by (simp add: relocDataLabels_def)

definition adrp_words :: "u64 \<Rightarrow> u64 \<Rightarrow> u32 list" where
  "adrp_words from to = [adrp17 (ALIGN_FLOOR to 0x1000 - ALIGN_FLOOR from 0x1000), add17 (to mod 0x1000), br17]"

lemma literal_branch_code:
  obtains a where "LiteralLdrBranch to (TurboAssembler_new from) = Inr a"
    "\<exists>a'. relocDataLabels a = Inr a' \<and> asm_code a' = finished (tail_chunk True to)"
proof -
  have "asm_abs (TurboAssembler_new from) [] []"
    by (simp add: asm_abs_def TurboAssembler_new_def)
  from LiteralLdrBranch_adds[OF this, of to] obtain a where a: "LiteralLdrBranch to (TurboAssembler_new from) = Inr a"
    "asm_abs a [ldr17, br17] [(0, to)]"
    by (auto simp: adds_def)
  from finish_code[OF a(2)] that[OF a(1)] show ?thesis
    by (simp add: finished_def tail_chunk_def)
qed

lemma normal_trampoline_code_eq:
  "normal_trampoline_code from to = Inr (if llabs (from - to) < 0x100000000
     then (TRAMPOLINE_ARM64_ADRP_ADD_BR, wcode (adrp_words from to))
     else (TRAMPOLINE_ARM64_LDR_BR, finished (tail_chunk True to)))"
proof (cases "llabs (from - to) < 0x100000000")
  case True
  then show ?thesis
    by (simp add: normal_trampoline_code_def asm_AdrpAdd_def adrp17_emits add17_emits br17_emits asm_Emit_code
        reloc_no_labels TurboAssembler_new_def adrp_words_def)
next
  case False
  then show ?thesis
    by (rule_tac literal_branch_code[of to "from"]) (auto simp: normal_trampoline_code_def)
qed

lemma forward_trampoline_code_eq: "forward_trampoline_code dst = Inr (finished (tail_chunk True dst))"
proof -
  have "asm_ldr_literal TMP_REG_0 8 a = Inr (asm_Emit 0x58000051 a)" for a
    by (simp add: asm_ldr_literal_def TMP_REG_0_def reg_X_def EmitLoadRegLiteral_def f_Rt_def reg_code_def
        kRtShift_def LoadRegLiteralSub_def LoadRegLiteralFixed_def LeftShift_def)
  moreover have "encode_imm19_offset ldr17 8 = 0x58000051"
    by code_simp
  ultimately show ?thesis
    by (simp add: forward_trampoline_code_def br17_emits asm_Emit_code asm_EmitInt64_def emit_bytes_def
        TurboAssembler_new_def finished_def tail_chunk_def)
qed

section \<open>Running the trampolines\<close>

lemma long_jump_reaches:
  assumes "bytes_at (a_mem s) start (finished (tail_chunk True to))" and "a_pc s = start"
  shows "\<exists>t. a64_steps 2 s = Some t \<and> a_pc t = to \<and> same_except {17} t s"
proof -
  have "placed (a_mem s) start ([] @ tail_chunk True to)"
    using assms(1) by (simp add: placed_def length_finished tail_chunk_def chunk_ok_def)
  from sim_return[OF this] show ?thesis
    using assms(2) by (simp add: relocated_at_def)
qed

lemma wcode_step:
  assumes "bytes_at (a_mem s) start (wcode ws)" and "k < length ws" and "a_pc s = start + of_nat (4 * k)"
  shows "a64_step s = a64_exec (ws ! k) s"
proof -
  have "mem_read (a_mem s) (start + of_nat (4 * k)) 4 = take 4 (drop (4 * k) (wcode ws))"
    using assms by (intro bytes_at_read) auto
  then show ?thesis
    using wcode_nth[OF assms(2), of "[]"] assms(3) by (simp add: a64_step_def load32_def)
qed

lemma page_split:
  "ALIGN_FLOOR x 0x1000 = push_bit 12 (drop_bit 12 (x :: u64))" "x AND NOT (mask 12) = ALIGN_FLOOR x 0x1000"
  "x mod 0x1000 = take_bit 12 x" "ALIGN_FLOOR x 0x1000 + x mod 0x1000 = x"
proof -
  show a: "x AND NOT (mask 12) = ALIGN_FLOOR x 0x1000"
    by (simp add: ALIGN_FLOOR_def mask_eq_exp_minus_1)
  show b: "ALIGN_FLOOR x 0x1000 = push_bit 12 (drop_bit 12 x)"
    unfolding a[symmetric] by (rule and_not_mask)
  show c: "x mod 0x1000 = take_bit 12 x"
    by (simp add: take_bit_eq_mod)
  show "ALIGN_FLOOR x 0x1000 + x mod 0x1000 = x"
    unfolding b c by (rule bits_ident)
qed

lemma page_offset_clear: "take_bit 12 (ALIGN_FLOOR to 0x1000 - ALIGN_FLOOR from 0x1000) = (0 :: u64)"
proof -
  have "ALIGN_FLOOR to 0x1000 - ALIGN_FLOOR from 0x1000 = push_bit 12 (drop_bit 12 to - drop_bit 12 from :: u64)"
    unfolding page_split(1) by (simp add: push_bit_eq_mult right_diff_distrib)
  then show ?thesis by (simp only: take_bit_push_bit) simp
qed

lemma adrp_runs:
  assumes "bytes_at (a_mem s) from (wcode (adrp_words from to))" and "a_pc s = from"
  shows "\<exists>t. a64_steps 3 s = Some t \<and> same_except {17} t s
    \<and> a_pc t = ALIGN_FLOOR from 0x1000 + signed_take_bit 32 (ALIGN_FLOOR to 0x1000 - ALIGN_FLOOR from 0x1000) + to mod 0x1000"
proof -
  let ?d = "ALIGN_FLOOR to 0x1000 - ALIGN_FLOOR from 0x1000"
  let ?s1 = "next_pc (x_set 17 (ALIGN_FLOOR from 0x1000 + signed_take_bit 32 ?d) s)"
  let ?s2 = "next_pc (x_set 17 (ALIGN_FLOOR from 0x1000 + signed_take_bit 32 ?d + to mod 0x1000) ?s1)"
  have w: "adrp_words from to ! 0 = adrp17 ?d" "adrp_words from to ! 1 = add17 (to mod 0x1000)" "adrp_words from to ! 2 = br17"
    "length (adrp_words from to) = 3"
    by (simp_all add: adrp_words_def)
  have m: "a_mem ?s1 = a_mem s" "a_mem ?s2 = a_mem s" "a_pc ?s1 = from + of_nat (4 * 1)" "a_pc ?s2 = from + of_nat (4 * 2)"
    using assms(2) by (simp_all add: next_pc_def x_set_def)
  have "a64_step s = Some ?s1"
    using wcode_step[OF assms(1), of 0] w assms(2) adrp17_exec[OF page_offset_clear, of to "from" s] by (simp add: page_split(2))
  moreover have "a64_step ?s1 = Some ?s2"
    using wcode_step[of ?s1 "from" "adrp_words from to" 1, OF _ _ m(3)] w assms(1) m add17_exec[of "to mod 0x1000" ?s1]
    by (simp add: page_split(3)) (simp add: next_pc_def x_set_def)
  moreover have "a64_step ?s2 = Some (?s2\<lparr>a_pc := ALIGN_FLOOR from 0x1000 + signed_take_bit 32 ?d + to mod 0x1000\<rparr>)"
    using wcode_step[of ?s2 "from" "adrp_words from to" 2, OF _ _ m(4)] w assms(1) m by (simp add: br17_exec) (simp add: next_pc_def x_set_def)
  ultimately show ?thesis
    by (simp add: same_except_def next_pc_def x_set_def)
qed

text \<open>The page distance the instruction can express.\<close>

lemma uint_of_sint: "uint (word_of_int i :: u64) = take_bit 64 i"
  by (simp add: uint_word_of_int_eq)

lemma llabs_bound:
  assumes "llabs x < 2 ^ k" and "k < 63"
  shows "- (2 ^ k) < sint x" "sint x < 2 ^ k"
proof -
  have "unat (2 ^ k :: u64) = 2 ^ k"
    using assms(2) by (intro unat_two_power) simp
  then have k: "uint (2 ^ k :: u64) = 2 ^ k"
    by (metis of_nat_numeral of_nat_power of_nat_unat)
  have r: "- (2 ^ 63) \<le> sint x" "sint x < 2 ^ 63"
    using sint_ge[of x] sint_lt[of x] by simp_all
  have "uint (llabs x) = \<bar>sint x\<bar>"
  proof (cases "sint x < 0")
    case True
    have "uint (- x) = take_bit 64 (- sint x)"
      using uint_of_sint[of "- sint x"] by simp
    then show ?thesis
      using True r by (simp add: llabs_def take_bit_int_eq_self)
  next
    case False
    have "uint x = take_bit 64 (sint x)"
      using uint_of_sint[of "sint x"] by simp
    then show ?thesis
      using False r by (simp add: llabs_def take_bit_int_eq_self)
  qed
  then have "\<bar>sint x\<bar> < 2 ^ k"
    using assms(1) k by (simp add: word_less_def)
  then show "- (2 ^ k) < sint x" "sint x < 2 ^ k" by simp_all
qed

lemma near_page_distance:
  assumes "llabs (from - to) < 0x100000000"
  defines "d \<equiv> ALIGN_FLOOR to 0x1000 - ALIGN_FLOOR from (0x1000 :: u64)"
  shows "signed_take_bit 32 d = (if d = 0x100000000 then - 0x100000000 else d)"
proof -
  define e where "e = - sint (from - to) - (uint (to mod 0x1000) - uint (from mod 0x1000))"
  have b: "- (2 ^ 32) < sint (from - to)" "sint (from - to) < 2 ^ 32"
    using llabs_bound[of "from - to" 32] assms(1) by simp_all
  have m: "uint (x mod 0x1000) < 0x1000" for x :: u64
    by (simp add: uint_mod)
  have "(to - from) - (to mod 0x1000 - from mod 0x1000) = d"
    unfolding d_def using page_split(4)[of to] page_split(4)[of "from"] by (simp add: algebra_simps) 
  moreover have "of_int e = (to - from) - (to mod 0x1000 - from mod 0x1000)"
    by (simp add: e_def)
  ultimately have de: "d = of_int e" by simp
  have "of_int (take_bit 12 e) = (0 :: u64)"
    using page_offset_clear[of to "from"] unfolding d_def[symmetric] de by (simp add: take_bit_of_int)
  then have "take_bit 64 (take_bit 12 e) = 0"
    using uint_of_sint[of "take_bit 12 e"] by simp
  then have "e mod 0x1000 = 0"
    by (simp add: take_bit_eq_mod)
  then obtain q where q: "e = 0x1000 * q" by (auto elim!: dvdE)
  have "uint (to mod 0x1000) \<ge> 0" "uint (from mod 0x1000) \<ge> 0" by simp_all
  then have "- (2 ^ 32) - 0x1000 < e" "e < 2 ^ 32 + 0x1000"
    using b m[of to] m[of "from"] unfolding e_def by linarith+
  then have e: "- (2 ^ 32) \<le> e" "e \<le> 2 ^ 32"
    unfolding q by simp_all
  have "signed_take_bit 32 d = of_int (signed_take_bit 32 e)"
    unfolding de by (simp add: signed_take_bit_of_int)
  moreover have "signed_take_bit 32 e = (if e = 2 ^ 32 then - (2 ^ 32) else e)"
    using e by (cases "e = 2 ^ 32") (simp_all add: signed_take_bit_int_eq_self)
  moreover have "d = 0x100000000 \<longleftrightarrow> e = 2 ^ 32"
  proof
    assume "d = 0x100000000"
    then have "take_bit 64 (e - 2 ^ 32) = 0"
      using uint_of_sint[of "e - 2 ^ 32"] de by simp
    then show "e = 2 ^ 32"
      using e dvd_imp_le_int[of "e - 2 ^ 32" "2 ^ 64"] by (auto simp: take_bit_eq_0_iff)
  qed (simp add: de)
  ultimately show ?thesis using de by simp
qed

lemma near_branch_fits:
  assumes "llabs off < ARM64_B_XXX_RANGE" and "4 dvd sint off"
  shows "fits 26 2 off"
  using llabs_bound[of off 27] assms by (simp add: fits_def ARM64_B_XXX_RANGE_def)

lemma b_runs:
  assumes "bytes_at (a_mem s) src (asm_code (asm_b off (TurboAssembler_new src)))" and "a_pc s = src" and "fits 26 2 off"
  shows "a64_step s = Some (s\<lparr>a_pc := src + off\<rparr>)"
  using wcode_step[of s src "[b_word off]" 0] assms b_word_exec[OF assms(3), of s]
  by (simp add: b_emits asm_Emit_code TurboAssembler_new_def)

lemma sint_diff_dvd4:
  assumes "4 dvd uint x" and "4 dvd uint (y :: u64)"
  shows "4 dvd sint (x - y)"
proof -
  have "take_bit 64 (sint (x - y)) = take_bit 64 (uint x - uint y)"
    using uint_of_sint[of "sint (x - y)"] uint_of_sint[of "uint x - uint y"] by simp
  then have "2 ^ 64 dvd sint (x - y) - (uint x - uint y)"
    by (simp only: take_bit_eq_mod mod_eq_dvd_iff)
  then have "4 dvd sint (x - y) - (uint x - uint y)"
    by (rule dvd_trans[rotated]) simp
  from dvd_add[OF this dvd_diff[OF assms]] show ?thesis by simp
qed

lemma sint_diff_small:
  assumes "- (2 ^ 63) \<le> uint x - uint y" and "uint x - uint (y :: u64) < 2 ^ 63"
  shows "sint (x - y) = uint x - uint y"
proof -
  have "uint (x - y) = take_bit 64 (uint x - uint y)"
    using uint_of_sint[of "uint x - uint y"] by simp
  then have "sint (x - y) = signed_take_bit 63 (uint x - uint y)"
    by (simp add: sint_uint signed_take_bit_take_bit)
  then show ?thesis
    using assms by (simp add: signed_take_bit_int_eq_self)
qed

text \<open>The forward trampoline of a near trampoline is within reach of the branch to it.\<close>

lemma forward_in_reach:
  assumes gen: "GenerateNearTrampolineBuffer_arm64 eng src dst env = Inr (Some tr, env')"
    and far: "\<not> llabs (dst - src) < ARM64_B_XXX_RANGE"
    and src: "4 dvd uint src"
    and near: "\<forall>blk e. eng_near eng env 16 src ARM64_B_XXX_RANGE = (blk, e) \<and> range_addr blk \<noteq> 0 \<longrightarrow>
      uint src - uint ARM64_B_XXX_RANGE \<le> uint (range_addr blk) \<and> uint (range_addr blk) < uint src + uint ARM64_B_XXX_RANGE"
  shows "\<exists>f. tr_forward tr = Some f \<and> tr_bytes tr = asm_code (asm_b (tr_addr f - src) (TurboAssembler_new src))
    \<and> fits 26 2 (tr_addr f - src)"
proof -
  obtain blk e where blk: "eng_near eng env 16 src ARM64_B_XXX_RANGE = (blk, e)"
    by (cases "eng_near eng env 16 src ARM64_B_XXX_RANGE")
  have nz: "range_addr blk mod 4 = 0" "range_addr blk \<noteq> 0"
    using gen far blk by (auto simp: GenerateNearTrampolineBuffer_arm64_def GenerateFastForwardTrampoline_def Let_def split: if_splits)
  obtain f where f: "tr_forward tr = Some f" "tr_addr f = range_addr blk"
    "tr_bytes tr = asm_code (asm_b (tr_addr f - src) (TurboAssembler_new src))"
    using gen far blk nz
    by (auto simp: GenerateNearTrampolineBuffer_arm64_def GenerateFastForwardTrampoline_def heap_trampoline_def
        forward_trampoline_code_eq FinalizeFromTurboAssembler_def tr_addr_def Let_def split: if_splits prod.splits)
  let ?R = "0x8000000 :: int"
  have R: "uint ARM64_B_XXX_RANGE = ?R"
    by (simp add: ARM64_B_XXX_RANGE_def)
  have rng: "uint src - ?R \<le> uint (range_addr blk)" "uint (range_addr blk) < uint src + ?R"
    using near blk nz(2) R by simp_all
  have "uint (range_addr blk) mod 4 = 0"
    using arg_cong[OF nz(1), of uint] by (simp add: uint_mod)
  then have "4 dvd sint (range_addr blk - src)"
    using src by (intro sint_diff_dvd4) auto
  moreover have "sint (range_addr blk - src) = uint (range_addr blk) - uint src"
    using rng by (intro sint_diff_small) simp_all
  ultimately have "fits 26 2 (range_addr blk - src)"
    using rng by (simp add: fits_def)
  with f show ?thesis by auto
qed

lemma normal_trampoline_reaches:
  fixes "from" to :: u64
  assumes "ALIGN_FLOOR to 0x1000 - ALIGN_FLOOR from 0x1000 \<noteq> 0x100000000"
  shows "\<exists>type code addr env'. GenerateNormalTrampolineBuffer_arm64 eng from to env =
      Inr (Trampoline type (MemRange_new addr (of_nat (length code))) code TRAMPOLINE_BUFFER_HEAP None [] [], env')
    \<and> eng_new eng env (of_nat (length code)) = (addr, env') \<and> length code \<in> {12, 16}
    \<and> (\<forall>s. bytes_at (a_mem s) from code \<and> a_pc s = from \<longrightarrow>
         (\<exists>k t. k \<le> 3 \<and> a64_steps k s = Some t \<and> a_pc t = to \<and> same_except {17} t s))"
proof -
  obtain type code where c: "normal_trampoline_code from to = Inr (type, code)"
    using normal_trampoline_code_eq by (metis surj_pair)
  obtain addr env' where a: "eng_new eng env (of_nat (length code)) = (addr, env')"
    by (cases "eng_new eng env (of_nat (length code))")
  let ?tr = "Trampoline type (MemRange_new addr (of_nat (length code))) code TRAMPOLINE_BUFFER_HEAP None [] []"
  have g: "GenerateNormalTrampolineBuffer_arm64 eng from to env = Inr (?tr, env')"
    by (simp add: GenerateNormalTrampolineBuffer_arm64_def c heap_trampoline_def a)
  have l: "length code \<in> {12, 16}"
    using c by (auto simp: normal_trampoline_code_eq adrp_words_def finished_def tail_chunk_def split: if_splits)
  have "\<exists>k t. k \<le> 3 \<and> a64_steps k s = Some t \<and> a_pc t = to \<and> same_except {17} t s"
    if s: "bytes_at (a_mem s) from code" "a_pc s = from" for s
  proof (cases "llabs (from - to) < 0x100000000")
    case True
    then have "code = wcode (adrp_words from to)"
      using c by (simp add: normal_trampoline_code_eq)
    then obtain t where t: "a64_steps 3 s = Some t" "same_except {17} t s"
      "a_pc t = ALIGN_FLOOR from 0x1000 + signed_take_bit 32 (ALIGN_FLOOR to 0x1000 - ALIGN_FLOOR from 0x1000) + to mod 0x1000"
      using adrp_runs[of s "from" to] s by blast
    moreover have "a_pc t = to"
      unfolding t(3) using near_page_distance[OF True] assms page_split(4)[of to] by simp
    ultimately show ?thesis by (intro exI[of _ 3] exI[of _ t]) simp
  next
    case False
    then have "code = finished (tail_chunk True to)"
      using c by (simp add: normal_trampoline_code_eq)
    then obtain t where "a64_steps 2 s = Some t" "a_pc t = to" "same_except {17} t s"
      using long_jump_reaches[of s "from" to] s by blast
    then show ?thesis by (intro exI[of _ 2] exI[of _ t]) simp
  qed
  with g l a show ?thesis
    by (intro exI[of _ type] exI[of _ code] exI[of _ addr] exI[of _ env']) simp
qed

section \<open>Properties\<close>

text \<open>An engine whose state is the memory, and a processor about to run code, for the examples.\<close>

definition demo_engine :: "64 mem tramp_engine" where
  "demo_engine =
     \<lparr>eng_mem = (\<lambda>m. m), eng_near = (\<lambda>m n pos rng. (MemRange_new (pos + 0x1000) (ucast n), m)),
      eng_patch = (\<lambda>m a bs. (0, mem_write m a bs)), eng_exec_alloc = (\<lambda>m n. (MemRange_new 0x700000 n, m)),
      eng_exec_free = (\<lambda>m _. m), eng_near_data = (\<lambda>m n pos rng. (MemRange_new (pos + 0x2000) (ucast n), m)),
      eng_near_free = (\<lambda>m _ _. m), eng_new = (\<lambda>m _. (0x500000, m)), eng_delete = (\<lambda>m _. m),
      eng_store = (\<lambda>m a bs. mem_write m a bs)\<rparr>"

definition about_to_run :: "64 mem \<Rightarrow> u64 \<Rightarrow> a64" where
  "about_to_run m pc = \<lparr>a_gpr = (\<lambda>_. 0), a_sp = 0, a_pc = pc, a_nzcv = (False, False, False, False), a_mem = m\<rparr>"

text \<open>
  C11.  The trampoline written over a hooked function goes to the replacement.  For all addresses the
  generator returns a trampoline of 12 or 16 bytes; run at \<open>from\<close> it reaches \<open>to\<close> in two or three
  steps, with memory, stack pointer, flags and every register but x17 unchanged, unless the pages of the
  two addresses are exactly 4 GiB apart.
\<close>

theorem arm64_trampoline_reaches:
  fixes "from" to :: u64
  assumes "ALIGN_FLOOR to 0x1000 - ALIGN_FLOOR from 0x1000 \<noteq> 0x100000000"
  shows "\<exists>tr env'. GenerateNormalTrampolineBuffer_arm64 eng from to env = Inr (tr, env')
    \<and> length (tr_bytes tr) \<in> {12, 16} \<and> tr_size tr = of_nat (length (tr_bytes tr))
    \<and> (\<forall>s. bytes_at (a_mem s) from (tr_bytes tr) \<and> a_pc s = from \<longrightarrow>
         (\<exists>k t. k \<le> 3 \<and> a64_steps k s = Some t \<and> a_pc t = to \<and> same_except {17} t s))"
proof -
  from normal_trampoline_reaches[OF assms, of eng env] obtain type code addr env' where
    "GenerateNormalTrampolineBuffer_arm64 eng from to env =
      Inr (Trampoline type (MemRange_new addr (of_nat (length code))) code TRAMPOLINE_BUFFER_HEAP None [] [], env')"
    "length code \<in> {12, 16}" "\<forall>s. bytes_at (a_mem s) from code \<and> a_pc s = from \<longrightarrow>
         (\<exists>k t. k \<le> 3 \<and> a64_steps k s = Some t \<and> a_pc t = to \<and> same_except {17} t s)"
    by blast
  then show ?thesis
    by (simp add: tr_size_def)
qed

theorem arm64_trampoline_reaches_witness:
  "\<exists>tr env' s t k. GenerateNormalTrampolineBuffer_arm64 demo_engine 0x1000 0x5010 (\<lambda>_. 0) = Inr (tr, env')
     \<and> bytes_at (a_mem s) 0x1000 (tr_bytes tr) \<and> a64_steps k s = Some t \<and> a_pc t = 0x5010"
proof -
  have "ALIGN_FLOOR 0x5010 0x1000 - ALIGN_FLOOR 0x1000 0x1000 \<noteq> (0x100000000 :: u64)"
    by (simp add: ALIGN_FLOOR_def)
  from arm64_trampoline_reaches[OF this, of demo_engine "\<lambda>_. 0"] obtain tr env' where
    tr: "GenerateNormalTrampolineBuffer_arm64 demo_engine 0x1000 0x5010 (\<lambda>_. 0) = Inr (tr, env')" "length (tr_bytes tr) \<in> {12, 16}"
    "\<And>s. bytes_at (a_mem s) 0x1000 (tr_bytes tr) \<and> a_pc s = 0x1000 \<Longrightarrow> \<exists>k t. k \<le> 3 \<and> a64_steps k s = Some t \<and> a_pc t = 0x5010 \<and> same_except {17} t s"
    by blast
  let ?s = "about_to_run (mem_write (\<lambda>_. 0) 0x1000 (tr_bytes tr)) 0x1000"
  have "bytes_at (a_mem ?s) 0x1000 (tr_bytes tr)"
    using mem_write_bytes_at[of "tr_bytes tr" "\<lambda>_. 0" "0x1000 :: u64"] tr(2) by (auto simp: about_to_run_def)
  moreover have "a_pc ?s = 0x1000" by (simp add: about_to_run_def)
  ultimately show ?thesis using tr(1) tr(3)[of ?s] by blast
qed

text \<open>
  C33.  At the edge of the range of ADRP the trampoline misses its target: when the pages of the two
  addresses are exactly 4 GiB apart and the addresses are closer than that, the ADRP form is chosen and
  the trampoline jumps 8 GiB below the replacement.
\<close>

theorem arm64_trampoline_adrp_edge:
  fixes "from" to :: u64
  assumes "ALIGN_FLOOR to 0x1000 - ALIGN_FLOOR from 0x1000 = 0x100000000" and "llabs (from - to) < 0x100000000"
  shows "\<exists>tr env'. GenerateNormalTrampolineBuffer_arm64 eng from to env = Inr (tr, env')
    \<and> (\<forall>s. bytes_at (a_mem s) from (tr_bytes tr) \<and> a_pc s = from \<longrightarrow>
         (\<exists>t. a64_steps 3 s = Some t \<and> a_pc t = to - 0x200000000))"
proof -
  let ?code = "wcode (adrp_words from to)"
  obtain addr env' where a: "eng_new eng env (of_nat (length ?code)) = (addr, env')"
    by (cases "eng_new eng env (of_nat (length ?code))")
  have g: "GenerateNormalTrampolineBuffer_arm64 eng from to env =
      Inr (Trampoline TRAMPOLINE_ARM64_ADRP_ADD_BR (MemRange_new addr (of_nat (length ?code))) ?code TRAMPOLINE_BUFFER_HEAP None [] [], env')"
    using a assms(2) by (simp add: GenerateNormalTrampolineBuffer_arm64_def normal_trampoline_code_eq heap_trampoline_def)
  have "ALIGN_FLOOR from 0x1000 + - 0x100000000 + to mod 0x1000 = to - 0x200000000"
    using assms(1) page_split(4)[of to] by (simp add: algebra_simps)
  then have "\<exists>t. a64_steps 3 s = Some t \<and> a_pc t = to - 0x200000000" if "bytes_at (a_mem s) from ?code" "a_pc s = from" for s
    using adrp_runs[OF that] near_page_distance[OF assms(2)] assms(1) by auto
  with g show ?thesis by simp
qed

theorem arm64_trampoline_adrp_edge_witness:
  "\<exists>tr env' s t. GenerateNormalTrampolineBuffer_arm64 demo_engine 0x1FFC 0x100001000 (\<lambda>_. 0) = Inr (tr, env')
     \<and> bytes_at (a_mem s) 0x1FFC (tr_bytes tr) \<and> a64_steps 3 s = Some t \<and> a_pc t \<noteq> 0x100001000"
proof -
  have p: "ALIGN_FLOOR 0x100001000 0x1000 - ALIGN_FLOOR 0x1FFC 0x1000 = (0x100000000 :: u64)"
    by (simp add: ALIGN_FLOOR_def)
  have d: "llabs (0x1FFC - 0x100001000) < 0x100000000"
    by (simp add: llabs_def)
  let ?code = "wcode (adrp_words 0x1FFC 0x100001000)"
  let ?s = "about_to_run (mem_write (\<lambda>_. 0) 0x1FFC ?code) 0x1FFC"
  have "bytes_at (a_mem ?s) 0x1FFC ?code"
    using mem_write_bytes_at[of ?code "\<lambda>_. 0" "0x1FFC :: u64"] by (auto simp: about_to_run_def adrp_words_def)
  moreover from arm64_trampoline_adrp_edge[OF p d, of demo_engine "\<lambda>_. 0"] obtain tr env' where
    tr: "GenerateNormalTrampolineBuffer_arm64 demo_engine 0x1FFC 0x100001000 (\<lambda>_. 0) = Inr (tr, env')"
    "\<And>s. bytes_at (a_mem s) 0x1FFC (tr_bytes tr) \<and> a_pc s = 0x1FFC \<Longrightarrow> \<exists>t. a64_steps 3 s = Some t \<and> a_pc t = 0x100001000 - 0x200000000"
    by blast
  moreover have "tr_bytes tr = ?code"
    using tr(1) d by (auto simp: GenerateNormalTrampolineBuffer_arm64_def normal_trampoline_code_eq heap_trampoline_def demo_engine_def)
  moreover have "a_pc ?s = 0x1FFC" by (simp add: about_to_run_def)
  ultimately obtain t where "a64_steps 3 ?s = Some t" "a_pc t = 0x100001000 - 0x200000000" "bytes_at (a_mem ?s) 0x1FFC (tr_bytes tr)"
    using tr(2)[of ?s] by metis
  moreover have "(0x100001000 - 0x200000000 :: u64) \<noteq> 0x100001000" by simp
  ultimately show ?thesis using tr(1) by metis
qed

text \<open>
  C34.  The near trampoline, when it is enabled: whatever the generator returns is one branch that goes to
  the replacement, directly when that is within 128 MiB, or through a forward trampoline in a near block.
  The hypothesis on the near allocator is that a block it returns lies in the range it was asked for.
\<close>

theorem arm64_near_trampoline_reaches:
  assumes gen: "GenerateNearTrampolineBuffer_arm64 eng src dst env = Inr (Some tr, env')"
    and src: "4 dvd uint src"
    and dst: "4 dvd uint dst" and fwd: "forward_trampoline_code dst = Inr code"
    and near: "\<forall>blk e. eng_near eng env 16 src ARM64_B_XXX_RANGE = (blk, e) \<and> range_addr blk \<noteq> 0 \<longrightarrow>
      uint src - uint ARM64_B_XXX_RANGE \<le> uint (range_addr blk) \<and> uint (range_addr blk) < uint src + uint ARM64_B_XXX_RANGE"
  shows "length (tr_bytes tr) = 4 \<and> (\<forall>s. bytes_at (a_mem s) src (tr_bytes tr) \<and> a_pc s = src
      \<and> (\<forall>f. tr_forward tr = Some f \<longrightarrow> bytes_at (a_mem s) (tr_addr f) code) \<longrightarrow>
         (\<exists>k t. k \<le> 3 \<and> a64_steps k s = Some t \<and> a_pc t = dst \<and> same_except {17} t s))"
proof (cases "llabs (dst - src) < ARM64_B_XXX_RANGE")
  case True
  then have tr: "tr_bytes tr = asm_code (asm_b (dst - src) (TurboAssembler_new src))"
    using gen by (auto simp: GenerateNearTrampolineBuffer_arm64_def heap_trampoline_def split: prod.splits)
  have "fits 26 2 (dst - src)"
    using True sint_diff_dvd4[OF dst src] by (intro near_branch_fits)
  then have "\<exists>k t. k \<le> 3 \<and> a64_steps k s = Some t \<and> a_pc t = dst \<and> same_except {17} t s"
    if "bytes_at (a_mem s) src (tr_bytes tr)" "a_pc s = src" for s
    using b_runs[of s src "dst - src"] that tr
    by (intro exI[of _ 1] exI[of _ "s\<lparr>a_pc := dst\<rparr>"]) (simp add: same_except_def)
  then show ?thesis
    using tr by (simp add: b_emits asm_Emit_code TurboAssembler_new_def)
next
  case False
  then obtain f where f: "tr_forward tr = Some f" "tr_bytes tr = asm_code (asm_b (tr_addr f - src) (TurboAssembler_new src))"
    "fits 26 2 (tr_addr f - src)"
    using forward_in_reach[OF gen _ src near] by blast
  have "\<exists>k t. k \<le> 3 \<and> a64_steps k s = Some t \<and> a_pc t = dst \<and> same_except {17} t s"
    if s: "bytes_at (a_mem s) src (tr_bytes tr)" "a_pc s = src" "bytes_at (a_mem s) (tr_addr f) code" for s
  proof -
    let ?s = "s\<lparr>a_pc := tr_addr f\<rparr>"
    have "a64_step s = Some ?s"
      using b_runs[of s src "tr_addr f - src"] s f by simp
    moreover obtain t where "a64_steps 2 ?s = Some t" "a_pc t = dst" "same_except {17} t ?s"
      using long_jump_reaches[of ?s "tr_addr f" dst] s(3) fwd by (auto simp: forward_trampoline_code_eq)
    ultimately have "a64_steps 3 s = Some t" "same_except {17} t s"
      by (simp_all add: same_except_def)
    with \<open>a_pc t = dst\<close> show ?thesis by (intro exI[of _ 3] exI[of _ t]) simp
  qed
  then show ?thesis
    using f by (auto simp: b_emits asm_Emit_code TurboAssembler_new_def)
qed

theorem arm64_near_trampoline_reaches_witness:
  "\<exists>tr env' f. GenerateNearTrampolineBuffer_arm64 demo_engine 0x10000000 0x70000000 (\<lambda>_. 0) = Inr (Some tr, env')
     \<and> tr_forward tr = Some f \<and> tr_addr f = 0x10001000 \<and> length (tr_bytes tr) = 4"
proof -
  obtain tr env' where tr: "GenerateNearTrampolineBuffer_arm64 demo_engine 0x10000000 0x70000000 (\<lambda>_. 0) = Inr (Some tr, env')"
    "tr_forward tr \<noteq> None" "forward_addr tr = 0x10001000"
    by (simp add: GenerateNearTrampolineBuffer_arm64_def GenerateFastForwardTrampoline_def demo_engine_def llabs_def
        ARM64_B_XXX_RANGE_def forward_trampoline_code_eq FinalizeFromTurboAssembler_def heap_trampoline_def
        forward_addr_def tr_addr_def)
  have "length (tr_bytes tr) = 4"
    using arm64_near_trampoline_reaches[OF tr(1), of "finished (tail_chunk True 0x70000000)"]
    by (simp add: ARM64_B_XXX_RANGE_def demo_engine_def forward_trampoline_code_eq)
  then show ?thesis
    using tr by (auto simp: forward_addr_def split: option.splits)
qed

end
