(* ===== verification/Near_Allocator.thy ===== *)
theory Near_Allocator
  imports Mem_Range Linear_Allocator
begin

text \<open>
  \<^verbatim>\<open>NearMemoryAllocator\<close> of \<^verbatim>\<open>source/MemoryAllocator/NearMemoryAllocator.h\<close>: blocks
  within a distance of a given address, so that a short branch or a RIP-relative operand reaches them.  A
  block comes from a freed record, from a page the allocator already has in range, from a new page mapped
  in a hole between the regions of the process, or, for code, from a run of zero bytes inside an
  executable region.

  What the system does is a record of functions on a state \<open>'o\<close>: the memory layout
  (\<^verbatim>\<open>ProcessRuntime::getMemoryLayout\<close>), the bytes of memory, mapping a page at a fixed address, setting
  its protection, unmapping it, and the callback of the user, if one is registered.
\<close>

record NearPageRecord =
  npr_allocator :: nat
  npr_page :: addr_t
  npr_is_exec :: bool
  npr_owned_page :: bool

record NearAllocationRecord =
  nar_addr :: addr_t
  nar_size :: size_t
  nar_page :: addr_t
  nar_is_exec :: bool
  nar_is_free :: bool
  nar_owned_page :: bool

record NearMemoryAllocator =
  na_store :: "nat \<Rightarrow> simple_linear_allocator_t"
  na_next :: nat
  na_code_allocators :: "nat list"
  na_data_allocators :: "nat list"
  na_page_records :: "NearPageRecord list"
  na_records :: "NearAllocationRecord list"

type_synonym MemRegion = "MemRange \<times> u32"

record 'o near_os =
  os_layout :: "'o \<Rightarrow> MemRegion list"
  os_memory :: "'o \<Rightarrow> 64 mem"
  os_allocate_at :: "'o \<Rightarrow> addr_t \<Rightarrow> addr_t \<times> 'o"
  os_set_permission :: "'o \<Rightarrow> addr_t \<Rightarrow> bool \<Rightarrow> 'o"
  os_free :: "'o \<Rightarrow> addr_t \<Rightarrow> 'o"
  os_custom_near :: "(u32 \<Rightarrow> addr_t \<Rightarrow> size_t \<Rightarrow> 'o \<Rightarrow> addr_t \<times> 'o) option"

definition NearMemoryAllocator_new :: NearMemoryAllocator where
  "NearMemoryAllocator_new =
     \<lparr>na_store = (\<lambda>_. sla_init 0 0 8), na_next = 0, na_code_allocators = [], na_data_allocators = [],
      na_page_records = [], na_records = []\<rparr>"

section \<open>Searching for bytes\<close>

text \<open>
  The loop of \<^verbatim>\<open>memmem_impl\<close>: what is left of the needle, of the haystack, the index the match
  attempt began at and the current index.  The count \<^verbatim>\<open>l\<close> is the length of what is left of the needle.
\<close>

function memmem_loop :: "u8 list \<Rightarrow> u8 list \<Rightarrow> u8 list \<Rightarrow> nat \<Rightarrow> nat \<Rightarrow> nat option" where
  "memmem_loop needle n h r pos =
     (if n \<noteq> [] \<and> length n \<le> length h
      then if hd n \<noteq> hd h then memmem_loop needle needle (tl h) (Suc pos) (Suc pos)
           else memmem_loop needle (tl n) (tl h) r (Suc pos)
      else if n = [] then Some r else None)"
  by pat_completeness auto
termination
  by (relation "measure (\<lambda>(_, _, h, _, _). length h)") (auto intro: diff_less)

definition memmem_impl :: "u8 list \<Rightarrow> u8 list \<Rightarrow> nat option" where
  "memmem_impl haystack needle = memmem_loop needle needle haystack 0 0"

section \<open>Allocation\<close>

fun near_reuse ::
  "u32 \<Rightarrow> MemRange \<Rightarrow> bool \<Rightarrow> NearAllocationRecord list \<Rightarrow> (addr_t \<times> NearAllocationRecord list) option" where
  "near_reuse in_size search_range is_exec [] = None"
| "near_reuse in_size search_range is_exec (record # records) =
     (if nar_is_free record \<and> nar_is_exec record = is_exec \<and> nar_size record \<ge> ucast in_size
         \<and> contains search_range (nar_addr record) (ucast in_size)
      then Some (nar_addr record, record\<lparr>nar_is_free := False\<rparr> # records)
      else case near_reuse in_size search_range is_exec records of
             None \<Rightarrow> None
           | Some (addr, records) \<Rightarrow> Some (addr, record # records))"

text \<open>Step 1: the pages already there.\<close>

fun near_alloc_from ::
  "nat list \<Rightarrow> u32 \<Rightarrow> MemRange \<Rightarrow> (nat \<Rightarrow> simple_linear_allocator_t) \<Rightarrow> addr_t \<times> (nat \<Rightarrow> simple_linear_allocator_t)" where
  "near_alloc_from [] in_size search_range store = (0, store)"
| "near_alloc_from (i # is) in_size search_range store =
     (let cursor = sla_cursor (store i);
          unused_size = sla_capacity (store i) - sla_size (store i);
          unused_range = MemRange_new cursor (ucast unused_size);
          inter = intersect search_range unused_range
      in if rsize inter < ucast in_size then near_alloc_from is in_size search_range store
         else let gap_size = range_addr inter - cursor;
                  a = (if gap_size \<noteq> 0 then snd (sla_alloc (ucast gap_size) 0 (store i)) else store i);
                  (result, a) = sla_alloc in_size 0 a;
                  store = store(i := a)
              in if result = 0 then near_alloc_from is in_size search_range store else (result, store))"

text \<open>Step 2: the first hole between two neighbouring regions with room inside the search range.\<close>

fun unused_page_between :: "u64 \<Rightarrow> u32 \<Rightarrow> MemRange \<Rightarrow> MemRegion list \<Rightarrow> addr_t option" where
  "unused_page_between page_size in_size search_range (region # next_region # regions) =
     (let unused_region = MemRange_new (range_end (fst region)) (range_addr (fst next_region) - range_end (fst region));
          inter = intersect search_range unused_region
      in if rsize inter < ucast in_size
         then unused_page_between page_size in_size search_range (next_region # regions)
         else Some (ALIGN_FLOOR (range_addr inter) page_size))"
| "unused_page_between page_size in_size search_range _ = None"

text \<open>
  Step 3: zero bytes inside an executable region.  The needle is the first \<^verbatim>\<open>in_size + 3\<close> bytes of an
  array of 4096 zeroes.  A null search address finds nothing.
\<close>

fun code_gap :: "64 mem \<Rightarrow> u32 \<Rightarrow> MemRange \<Rightarrow> MemRegion list \<Rightarrow> addr_t option result" where
  "code_gap m in_size search_range [] = Inr None"
| "code_gap m in_size search_range ((region, perm) # regions) =
     (if perm AND 4 = 0 then code_gap m in_size search_range regions
      else let inter = intersect search_range region
           in if rsize inter < ucast in_size then code_gap m in_size search_range regions
              else if range_addr inter = 0 then code_gap m in_size search_range regions
              else if in_size + 3 > 0x1000 then Inl OutOfBounds
              else case memmem_impl (mem_read m (range_addr inter) (unat (rsize inter))) (replicate (unat (in_size + 3)) 0) of
                     None \<Rightarrow> code_gap m in_size search_range regions
                   | Some i \<Rightarrow> Inr (Some (ALIGN_CEIL (range_addr inter + of_nat i) 4)))"

definition near_record :: "u64 \<Rightarrow> addr_t \<Rightarrow> u32 \<Rightarrow> bool \<Rightarrow> bool \<Rightarrow> NearMemoryAllocator \<Rightarrow> NearMemoryAllocator" where
  "near_record page_size addr in_size is_exec owned a =
     a\<lparr>na_records := na_records a @
         [\<lparr>nar_addr = addr, nar_size = ucast in_size, nar_page = ALIGN_FLOOR addr page_size,
           nar_is_exec = is_exec, nar_is_free = False, nar_owned_page = owned\<rparr>]\<rparr>"

definition near_add_page :: "u64 \<Rightarrow> addr_t \<Rightarrow> bool \<Rightarrow> NearMemoryAllocator \<Rightarrow> NearMemoryAllocator" where
  "near_add_page page_size page is_exec a =
     (let i = na_next a;
          a = a\<lparr>na_store := (na_store a)(i := sla_init page (ucast page_size) 8), na_next := Suc i\<rparr>;
          a = (if is_exec then a\<lparr>na_code_allocators := na_code_allocators a @ [i]\<rparr>
               else a\<lparr>na_data_allocators := na_data_allocators a @ [i]\<rparr>)
      in a\<lparr>na_page_records := na_page_records a @
             [\<lparr>npr_allocator = i, npr_page = page, npr_is_exec = is_exec, npr_owned_page = True\<rparr>]\<rparr>)"

partial_function (option) allocNearBlockLocked ::
  "'o near_os \<Rightarrow> u64 \<Rightarrow> u32 \<Rightarrow> MemRange \<Rightarrow> bool \<Rightarrow> NearMemoryAllocator \<Rightarrow> 'o \<Rightarrow>
     (MemRange \<times> NearMemoryAllocator \<times> 'o) result option" where
  "allocNearBlockLocked os page_size in_size search_range is_exec a st =
     (case near_reuse in_size search_range is_exec (na_records a) of
        Some (addr, records) \<Rightarrow> Some (Inr (MemRange_new addr (ucast in_size), a\<lparr>na_records := records\<rparr>, st))
      | None \<Rightarrow>
          let (result, store) = near_alloc_from (if is_exec then na_code_allocators a else na_data_allocators a)
                                  in_size search_range (na_store a);
              a = a\<lparr>na_store := store\<rparr>
          in if result \<noteq> 0
             then Some (Inr (MemRange_new result (ucast in_size), near_record page_size result in_size is_exec True a, st))
             else case unused_page_between page_size in_size search_range (os_layout os st) of
                    Some unused_page \<Rightarrow>
                      let (page, st') = os_allocate_at os st unused_page
                      in if page \<noteq> unused_page then Some (Inl AssertFailed)
                         else allocNearBlockLocked os page_size in_size search_range is_exec
                                (near_add_page page_size unused_page is_exec a)
                                (os_set_permission os st' unused_page is_exec)
                  | None \<Rightarrow>
                      if \<not> is_exec then Some (Inr (MemRange_empty, a, st))
                      else case code_gap (os_memory os st) in_size search_range (os_layout os st) of
                             Inl e \<Rightarrow> Some (Inl e)
                           | Inr None \<Rightarrow> Some (Inr (MemRange_empty, a, st))
                           | Inr (Some gap) \<Rightarrow>
                               Some (Inr (MemRange_new gap (ucast in_size), near_record page_size gap in_size is_exec False a, st)))"

definition SIZE_MAX :: u64 where
  "SIZE_MAX = - 1"

definition allocNearCodeBlock ::
  "'o near_os \<Rightarrow> u64 \<Rightarrow> u32 \<Rightarrow> addr_t \<Rightarrow> size_t \<Rightarrow> NearMemoryAllocator \<Rightarrow> 'o \<Rightarrow>
     (MemRange \<times> NearMemoryAllocator \<times> 'o) result option" where
  "allocNearCodeBlock os page_size in_size pos rng a st =
     (if in_size = 0 \<or> pos < rng \<or> rng > SIZE_MAX div 2 then Some (Inr (MemRange_empty, a, st))
      else case os_custom_near os of
             Some handler \<Rightarrow>
               let (addr, st) = handler in_size pos rng st
               in if addr \<noteq> 0
                  then Some (Inr (MemRange_new addr (ucast in_size), near_record page_size addr in_size True False a, st))
                  else Some (Inr (MemRange_empty, a, st))
           | None \<Rightarrow> allocNearBlockLocked os page_size in_size (MemRange_new (pos - rng) (rng * 2)) True a st)"

definition allocNearDataBlock ::
  "'o near_os \<Rightarrow> u64 \<Rightarrow> u32 \<Rightarrow> addr_t \<Rightarrow> size_t \<Rightarrow> NearMemoryAllocator \<Rightarrow> 'o \<Rightarrow>
     (MemRange \<times> NearMemoryAllocator \<times> 'o) result option" where
  "allocNearDataBlock os page_size in_size pos rng a st =
     (if in_size = 0 \<or> pos < rng \<or> rng > SIZE_MAX div 2 then Some (Inr (MemRange_empty, a, st))
      else allocNearBlockLocked os page_size in_size (MemRange_new (pos - rng) (rng * 2)) False a st)"

section \<open>Freeing\<close>

text \<open>The record freed, with whether its page is owned.\<close>

fun near_mark_free :: "addr_t \<Rightarrow> bool \<Rightarrow> NearAllocationRecord list \<Rightarrow> (bool \<times> NearAllocationRecord list) option" where
  "near_mark_free addr is_exec [] = None"
| "near_mark_free addr is_exec (record # records) =
     (if nar_addr record = addr \<and> nar_is_exec record = is_exec
      then Some (nar_owned_page record, record\<lparr>nar_is_free := True\<rparr> # records)
      else map_option (apsnd ((#) record)) (near_mark_free addr is_exec records))"

fun near_take_page :: "addr_t \<Rightarrow> bool \<Rightarrow> NearPageRecord list \<Rightarrow> nat option \<times> NearPageRecord list" where
  "near_take_page page is_exec [] = (None, [])"
| "near_take_page page is_exec (record # records) =
     (if npr_page record = page \<and> npr_is_exec record = is_exec \<and> npr_owned_page record
      then (Some (npr_allocator record), records)
      else apsnd ((#) record) (near_take_page page is_exec records))"

definition freeNearBlockLocked ::
  "'o near_os \<Rightarrow> u64 \<Rightarrow> MemRange \<Rightarrow> bool \<Rightarrow> NearMemoryAllocator \<Rightarrow> 'o \<Rightarrow> NearMemoryAllocator \<times> 'o" where
  "freeNearBlockLocked os page_size block is_exec a st =
     (if range_addr block = 0 \<or> rsize block = 0 then (a, st)
      else let page = ALIGN_FLOOR (range_addr block) page_size
           in case near_mark_free (range_addr block) is_exec (na_records a) of
                None \<Rightarrow> (a, st)
              | Some (owned_page, records) \<Rightarrow>
                  let a = a\<lparr>na_records := records\<rparr>
                  in if \<not> owned_page then (a, st)
                     else if \<exists>r \<in> set records. nar_page r = page \<and> nar_is_exec r = is_exec \<and> \<not> nar_is_free r
                     then (a, st)
                     else let (page_allocator, prs) = near_take_page page is_exec (na_page_records a);
                              a = a\<lparr>na_page_records := prs\<rparr>;
                              a = (case page_allocator of None \<Rightarrow> a
                                   | Some i \<Rightarrow>
                                       if is_exec then a\<lparr>na_code_allocators := remove1 i (na_code_allocators a)\<rparr>
                                       else a\<lparr>na_data_allocators := remove1 i (na_data_allocators a)\<rparr>);
                              a = a\<lparr>na_records := filter (\<lambda>r. \<not> (nar_page r = page \<and> nar_is_exec r = is_exec \<and> nar_owned_page r))
                                    (na_records a)\<rparr>
                          in (a, case page_allocator of None \<Rightarrow> st | Some _ \<Rightarrow> os_free os st page))"

definition freeNearCodeBlock ::
  "'o near_os \<Rightarrow> u64 \<Rightarrow> MemRange \<Rightarrow> NearMemoryAllocator \<Rightarrow> 'o \<Rightarrow> NearMemoryAllocator \<times> 'o" where
  "freeNearCodeBlock os page_size block a st = freeNearBlockLocked os page_size block True a st"

definition freeNearDataBlock ::
  "'o near_os \<Rightarrow> u64 \<Rightarrow> MemRange \<Rightarrow> NearMemoryAllocator \<Rightarrow> 'o \<Rightarrow> NearMemoryAllocator \<times> 'o" where
  "freeNearDataBlock os page_size block a st = freeNearBlockLocked os page_size block False a st"

end
