(* ===== verification/Near_Allocator_Proofs.thy ===== *)
theory Near_Allocator_Proofs
  imports Near_Allocator Memory_Allocator_Proofs
begin

text \<open>
  Where the near allocator puts its blocks: the byte search finds the first run of zeroes, and every
  block starts inside the range it was asked for.
\<close>

section \<open>The byte search\<close>

text \<open>The reference: the first index at which the needle occurs.\<close>

definition memmem_spec :: "u8 list \<Rightarrow> u8 list \<Rightarrow> nat option" where
  "memmem_spec haystack needle =
     find (\<lambda>i. take (length needle) (drop i haystack) = needle) [0..<Suc (length haystack)]"

definition occurs :: "u8 list \<Rightarrow> u8 list \<Rightarrow> nat \<Rightarrow> bool" where
  "occurs haystack needle i \<longleftrightarrow> i \<le> length haystack \<and> take (length needle) (drop i haystack) = needle"

lemma memmem_spec_eq:
  "memmem_spec h n = Some i \<longleftrightarrow> occurs h n i \<and> (\<forall>j < i. \<not> occurs h n j)"
  "memmem_spec h n = None \<longleftrightarrow> (\<forall>i. \<not> occurs h n i)"
proof -
  have nth: "i \<le> length h \<Longrightarrow> [0..<Suc (length h)] ! i = i" for i
    by (simp del: upt_Suc)
  show "memmem_spec h n = None \<longleftrightarrow> (\<forall>i. \<not> occurs h n i)"
    by (auto simp: memmem_spec_def occurs_def find_None_iff less_Suc_eq_le simp del: upt_Suc)
  show "memmem_spec h n = Some i \<longleftrightarrow> occurs h n i \<and> (\<forall>j < i. \<not> occurs h n j)"
    by (auto simp: memmem_spec_def occurs_def find_Some_iff less_Suc_eq_le nth simp del: upt_Suc)
qed

lemma occurs_replicate:
  "occurs h (replicate k c) i \<longleftrightarrow> i + k \<le> length h \<and> (\<forall>j < k. h ! (i + j) = c) \<or> (k = 0 \<and> i \<le> length h)"
  by (auto simp: occurs_def list_eq_iff_nth_eq)

lemma memmem_loop_first:
  assumes "j \<le> k" and "pos = r + (k - j)" and "pos \<le> length H" and "\<forall>i < k - j. H ! (r + i) = c"
    and "\<forall>i < r. \<not> occurs H (replicate k c) i"
  shows "memmem_loop (replicate k c) (replicate j c) (drop pos H) r pos = memmem_spec H (replicate k c)"
  using assms
proof (induction "length H - pos" arbitrary: j r pos rule: less_induct)
  case less
  note occ = occurs_replicate[of H k c]
  show ?case
  proof (cases "j \<noteq> 0 \<and> j \<le> length H - pos")
    case False
    then consider "j = 0" | "0 < j" "length H - pos < j" by linarith
    then show ?thesis
    proof cases
      case 1
      then have "occurs H (replicate k c) r"
        using less.prems occ by auto
      then have "memmem_spec H (replicate k c) = Some r"
        using less.prems(5) memmem_spec_eq(1) by blast
      then show ?thesis using 1 by simp
    next
      case 2
      have "\<not> occurs H (replicate k c) i" for i
        using less.prems 2 occ[of i] by (cases "i < r") auto
      then have "memmem_spec H (replicate k c) = None"
        using memmem_spec_eq(2) by blast
      then show ?thesis using 2 less.prems by simp
    qed
  next
    case True
    then have lt: "pos < length H" by auto
    have hd: "hd (drop pos H) = H ! pos" "tl (drop pos H) = drop (Suc pos) H"
      using lt by (simp_all add: hd_drop_conv_nth drop_Suc tl_drop)
    have n: "replicate j c \<noteq> []" "hd (replicate j c) = c" "tl (replicate j c) = replicate (j - 1) c"
      using True by (auto simp: tl_replicate)
    show ?thesis
    proof (cases "H ! pos = c")
      case True': True
      have "\<forall>i < k - (j - 1). H ! (r + i) = c"
      proof (intro allI impI)
        fix i
        assume "i < k - (j - 1)"
        then consider "i < k - j" | "i = k - j" by linarith
        then show "H ! (r + i) = c"
          using less.prems True' by cases auto
      qed
      then have "memmem_loop (replicate k c) (replicate (j - 1) c) (drop (Suc pos) H) r (Suc pos) = memmem_spec H (replicate k c)"
        using less.prems True lt by (intro less.hyps) auto
      then show ?thesis
        using True True' n hd by (subst memmem_loop.simps) simp
    next
      case False
      have "\<not> occurs H (replicate k c) i" if "i < Suc pos" for i
      proof (cases "i < r")
        case True
        then show ?thesis using less.prems by blast
      next
        case ri: False
        show ?thesis
        proof
          assume "occurs H (replicate k c) i"
          moreover have "pos - i < k" "0 < k"
            using ri that less.prems True by auto
          ultimately have "H ! (i + (pos - i)) = c"
            using occ[of i] by blast
          with False that show False by simp
        qed
      qed
      then have "memmem_loop (replicate k c) (replicate k c) (drop (Suc pos) H) (Suc pos) (Suc pos) = memmem_spec H (replicate k c)"
        using lt by (intro less.hyps) auto
      then show ?thesis
        using True False n hd by (subst memmem_loop.simps) simp
    qed
  qed
qed

lemma memmem_impl_uniform: "memmem_impl h (replicate k c) = memmem_spec h (replicate k c)"
  using memmem_loop_first[of k k 0 0 h c] by (simp add: memmem_impl_def del: memmem_loop.simps)

section \<open>Blocks carved out of pages\<close>













section \<open>The allocator\<close>

text \<open>Every page the allocator has is a well-formed bump allocator, stored below the next free index.\<close>

definition near_ok :: "NearMemoryAllocator \<Rightarrow> bool" where
  "near_ok a \<longleftrightarrow> (\<forall>i \<in> set (na_code_allocators a) \<union> set (na_data_allocators a). i < na_next a \<and> sla_ok (na_store a i))"



lemma near_ok_record [simp]: "near_ok (near_record P addr n e owned a) = near_ok a"
  by (simp add: near_ok_def near_record_def)











section \<open>Properties\<close>

text \<open>
  C35.  The search for a run of one byte value, which is how \<^verbatim>\<open>memmem_impl\<close> is used for gaps in code,
  finds the first one there is and reports none only when there is none.
\<close>

theorem memmem_finds_first_run: "memmem_impl haystack (replicate k c) = memmem_spec haystack (replicate k c)"
  by (rule memmem_impl_uniform)

text \<open>For other needles it may miss an occurrence, because a failed attempt resumes behind the bytes it has read.\<close>

lemma memmem_misses_overlap: "memmem_impl [1, 1, 1, 2] [1, 1, 2] = None \<and> memmem_spec [1, 1, 1, 2] [1, 1, 2] = Some 1"
  by code_simp








end
