(* ===== verification/Hook_Routing.thy ===== *)
theory Hook_Routing
  imports Arm64_Trampoline Memory_Allocator_Proofs
begin

text \<open>
  Installing a hook in the 64-bit ARM build: the entries and the registry of \<^verbatim>\<open>source/Interceptor.h\<close>,
  the steps of \<^verbatim>\<open>source/InterceptRouting/InterceptRouting.h\<close>, and \<^verbatim>\<open>DobbyHookEx\<close> of
  \<^verbatim>\<open>source/InterceptRouting/InlineHookRouting.h\<close>.  They run on an engine, the record of operations the
  trampolines use.  Objects that are reached through one pointer only are values: the routing of an entry,
  and the copy of the original bytes with its heap address.  Handles are shared with the user, so they are
  kept in a list and referred to by position; an entry is referred to by its id.  The mutex makes
  \<^verbatim>\<open>DobbyHookEx\<close> one step.  Outside Apple systems signing and stripping pointers does nothing, and
  outside Android making memory readable does nothing.
\<close>

section \<open>Data\<close>

record InterceptRouting =
  ir_trampoline :: "Trampoline option"
  ir_near_trampoline :: "Trampoline option"
  ir_error :: bool

definition InterceptRouting_new :: InterceptRouting where
  "InterceptRouting_new = \<lparr>ir_trampoline = None, ir_near_trampoline = None, ir_error = False\<rparr>"

definition kDobbyHookHandleMagic :: u64 where
  "kDobbyHookHandleMagic = 0x444f42425948444c"

record DobbyHookHandle =
  hh_magic :: u64
  hh_id :: u32
  hh_target :: addr_t
  hh_origin :: addr_t
  hh_active :: bool
  hh_entry :: "u32 option"

record Entry =
  ent_id :: u32
  ent_fake_func_addr :: addr_t
  ent_addr :: addr_t
  ent_patched :: MemRange
  ent_relocated :: MemRange
  ent_routing :: "InterceptRouting option"
  ent_handle :: "nat option"
  ent_origin_code :: "(addr_t \<times> u8 list) option"

definition Entry_new :: "addr_t \<Rightarrow> Entry" where
  "Entry_new addr =
     \<lparr>ent_id = 0, ent_fake_func_addr = 0, ent_addr = addr, ent_patched = MemRange_empty, ent_relocated = MemRange_empty,
      ent_routing = None, ent_handle = None, ent_origin_code = None\<rparr>"

record HookRecord =
  hr_target :: addr_t
  hr_replace :: addr_t
  hr_backup :: addr_t
  hr_trampoline :: addr_t
  hr_enabled :: bool
  hr_patch_addr :: addr_t
  hr_patch_size :: size_t

text \<open>
  The state: that of the engine, the registry, the handles given out, and the records passed to
  \<^verbatim>\<open>HookRuntime::Upsert\<close>, in order.
\<close>

record 's hook_state =
  hk_env :: 's
  hk_next_entry_id :: u32
  hk_entries :: "Entry list"
  hk_handles :: "DobbyHookHandle list"
  hk_records :: "HookRecord list"

section \<open>Entries\<close>

definition arm_thumb_fix_addr :: "addr_t \<Rightarrow> addr_t" where
  "arm_thumb_fix_addr addr = addr AND NOT 1"

definition backup_orig_code :: "'s tramp_engine \<Rightarrow> Entry \<Rightarrow> 's \<Rightarrow> Entry \<times> 's" where
  "backup_orig_code eng e env =
     (let tramp_size = ucast (rsize (ent_patched e)) :: u32
      in if ent_addr e = 0 \<or> tramp_size = 0 then (e\<lparr>ent_origin_code := None\<rparr>, env)
         else let env = (case ent_origin_code e of None \<Rightarrow> env | Some (p, _) \<Rightarrow> eng_delete eng env p);
                  (p, env) = eng_new eng env (ucast tramp_size)
              in (e\<lparr>ent_origin_code := Some (p, mem_read (eng_mem eng env) (ent_addr e) (unat tramp_size))\<rparr>, env))"

definition restore_orig_code :: "'s tramp_engine \<Rightarrow> Entry \<Rightarrow> 's \<Rightarrow> Entry \<times> 's" where
  "restore_orig_code eng e env =
     (case ent_origin_code e of
        None \<Rightarrow> (e, env)
      | Some (p, bytes) \<Rightarrow>
          if rsize (ent_patched e) = 0 \<or> range_addr (ent_patched e) = 0 then (e, env)
          else (e\<lparr>ent_origin_code := None\<rparr>, eng_delete eng (snd (eng_patch eng env (range_addr (ent_patched e)) bytes)) p))"

definition release_relocated_code :: "'s tramp_engine \<Rightarrow> Entry \<Rightarrow> 's \<Rightarrow> Entry \<times> 's" where
  "release_relocated_code eng e env =
     (if range_addr (ent_relocated e) \<noteq> 0 \<and> rsize (ent_relocated e) \<noteq> 0
      then (e\<lparr>ent_relocated := MemRange_empty\<rparr>, eng_exec_free eng env (ent_relocated e))
      else (e, env))"

text \<open>The destructor of an entry: what remains are the handles and the engine's state.\<close>

definition delete_entry :: "'s tramp_engine \<Rightarrow> Entry \<Rightarrow> DobbyHookHandle list \<Rightarrow> 's \<Rightarrow> DobbyHookHandle list \<times> 's" where
  "delete_entry eng e handles env =
     (let (e, env) = (if ent_origin_code e \<noteq> None then restore_orig_code eng e env else (e, env));
          (e, env) = release_relocated_code eng e env
      in (case ent_handle e of
            None \<Rightarrow> handles
          | Some i \<Rightarrow> handles[i := (handles ! i)\<lparr>hh_active := False, hh_entry := None\<rparr>], env))"

section \<open>The registry\<close>

fun find_entry :: "addr_t \<Rightarrow> Entry list \<Rightarrow> Entry option" where
  "find_entry addr [] = None"
| "find_entry addr (e # es) = (if range_addr (ent_patched e) = addr then Some e else find_entry addr es)"

fun remove_entry :: "addr_t \<Rightarrow> Entry list \<Rightarrow> Entry option \<times> Entry list" where
  "remove_entry addr [] = (None, [])"
| "remove_entry addr (e # es) =
     (if range_addr (ent_patched e) = addr then (Some e, es)
      else case remove_entry addr es of (r, es) \<Rightarrow> (r, e # es))"

definition add_entry :: "Entry \<Rightarrow> Entry list \<Rightarrow> Entry list" where
  "add_entry e es = es @ [e]"

section \<open>Routing\<close>

definition trampoline_addr :: "InterceptRouting \<Rightarrow> addr_t" where
  "trampoline_addr r =
     (case ir_near_trampoline r of Some t \<Rightarrow> tr_addr t
      | None \<Rightarrow> case ir_trampoline r of Some t \<Rightarrow> tr_addr t | None \<Rightarrow> 0)"

definition trampoline_size :: "InterceptRouting \<Rightarrow> size_t" where
  "trampoline_size r =
     (case ir_near_trampoline r of Some t \<Rightarrow> tr_size t
      | None \<Rightarrow> case ir_trampoline r of Some t \<Rightarrow> tr_size t | None \<Rightarrow> 0)"

text \<open>The bytes at \<^verbatim>\<open>trampoline_addr()\<close>; both generators leave them on the heap.\<close>

definition trampoline_bytes :: "InterceptRouting \<Rightarrow> u8 list" where
  "trampoline_bytes r =
     (case ir_near_trampoline r of Some t \<Rightarrow> tr_bytes t
      | None \<Rightarrow> case ir_trampoline r of Some t \<Rightarrow> tr_bytes t | None \<Rightarrow> [])"

definition delete_routing :: "'s tramp_engine \<Rightarrow> InterceptRouting \<Rightarrow> 's \<Rightarrow> 's" where
  "delete_routing eng r env =
     (let env = (case ir_trampoline r of None \<Rightarrow> env | Some t \<Rightarrow> delete_trampoline eng t env)
      in case ir_near_trampoline r of None \<Rightarrow> env | Some t \<Rightarrow> delete_trampoline eng t env)"

definition Active :: "'s tramp_engine \<Rightarrow> Entry \<Rightarrow> InterceptRouting \<Rightarrow> 's \<Rightarrow> InterceptRouting \<times> 's" where
  "Active eng e r env =
     (if ir_error r \<or> trampoline_addr r = 0 \<or> trampoline_size r = 0 then (r\<lparr>ir_error := True\<rparr>, env)
      else let (ret, env) = eng_patch eng env (ent_addr e) (trampoline_bytes r)
           in (r\<lparr>ir_error := (ir_error r \<or> ret \<noteq> 0)\<rparr>, env))"

definition GenerateTrampoline ::
  "'s tramp_engine \<Rightarrow> bool \<Rightarrow> addr_t \<Rightarrow> Entry \<Rightarrow> InterceptRouting \<Rightarrow> 's \<Rightarrow> (bool \<times> InterceptRouting \<times> 's) result" where
  "GenerateTrampoline eng g_enable_near_trampoline to e r env =
     (let from = arm_thumb_fix_addr (ent_addr e)
      in sbind (if g_enable_near_trampoline
                then sbind (GenerateNearTrampolineBuffer_arm64 eng from to env) (\<lambda>(t, env). Inr (r\<lparr>ir_near_trampoline := t\<rparr>, env))
                else Inr (r, env)) (\<lambda>(r, env).
           sbind (if ir_near_trampoline r = None
                  then sbind (GenerateNormalTrampolineBuffer_arm64 eng from to env) (\<lambda>(t, env). Inr (r\<lparr>ir_trampoline := Some t\<rparr>, env))
                  else Inr (r, env)) (\<lambda>(r, env).
             if ir_near_trampoline r = None \<and> ir_trampoline r = None then Inr (False, r\<lparr>ir_error := True\<rparr>, env)
             else Inr (True, r, env))))"

definition GenerateRelocatedCode ::
  "'s tramp_engine \<Rightarrow> Entry \<Rightarrow> InterceptRouting \<Rightarrow> 's \<Rightarrow> (Entry \<times> InterceptRouting \<times> 's) result option" where
  "GenerateRelocatedCode eng e r env =
     (if ir_error r then Some (Inr (e, r, env))
      else if trampoline_addr r = 0 then Some (Inr (e, r\<lparr>ir_error := True\<rparr>, env))
      else let origin = MemRange_new (arm_thumb_fix_addr (ent_addr e)) (trampoline_size r)
           in map_option (\<lambda>res. sbind res (\<lambda>(origin, relocated, env).
                if rsize relocated = 0 then Inr (e, r\<lparr>ir_error := True\<rparr>, env)
                else Inr (e\<lparr>ent_patched := origin, ent_relocated := relocated\<rparr>, r, env)))
              (GenRelocateCodeAndBranch_arm64 eng origin env))"

text \<open>\<^verbatim>\<open>InlineHookRouting::BuildRouting\<close>, whose \<^verbatim>\<open>TrampolineTarget\<close> is the replacement.\<close>

definition BuildRouting ::
  "'s tramp_engine \<Rightarrow> bool \<Rightarrow> addr_t \<Rightarrow> Entry \<Rightarrow> InterceptRouting \<Rightarrow> 's \<Rightarrow> (Entry \<times> InterceptRouting \<times> 's) result option" where
  "BuildRouting eng near fake_func e r env =
     (case GenerateTrampoline eng near fake_func e r env of
        Inl err \<Rightarrow> Some (Inl err)
      | Inr (generated, r, env) \<Rightarrow>
          if \<not> generated then Some (Inr (e, r, env))
          else map_option (\<lambda>res. sbind res (\<lambda>(e, r, env).
                 let (e, env) = backup_orig_code eng e env in Inr (e, r, env)))
               (GenerateRelocatedCode eng e r env))"

section \<open>Hooking\<close>

text \<open>
  The result: the return value, what is stored through \<^verbatim>\<open>out_origin_func\<close> (when it is), the handle
  stored through \<^verbatim>\<open>out_handle\<close> (when it is not null), and the state.  The flags say which of the
  two pointers are not null.  First what follows the building of the routing.
\<close>

definition finish_hook ::
  "'s tramp_engine \<Rightarrow> addr_t \<Rightarrow> addr_t \<Rightarrow> bool \<Rightarrow> bool \<Rightarrow> 's hook_state \<Rightarrow> Entry \<times> InterceptRouting \<times> 's \<Rightarrow>
     int \<times> addr_t option \<times> nat option \<times> 's hook_state" where
  "finish_hook eng address fake_func out_origin_func out_handle st = (\<lambda>(e, r, env).
     if ir_error r
     then let env = delete_routing eng r env;
              (handles, env) = delete_entry eng e (hk_handles st) env
          in (-1, None, None, st\<lparr>hk_env := env, hk_handles := handles\<rparr>)
     else let (r, env) = Active eng e r env;
              e = e\<lparr>ent_routing := Some r\<rparr>
          in if ir_error r
             then let (e, env) = (if ent_origin_code e \<noteq> None then restore_orig_code eng e env else (e, env));
                      env = delete_routing eng r env;
                      (handles, env) = delete_entry eng e (hk_handles st) env
                  in (-1, None, None, st\<lparr>hk_env := env, hk_handles := handles\<rparr>)
             else let origin_func = range_addr (ent_relocated e);
                      i = length (hk_handles st);
                      (e, handles) =
                        (if out_handle
                         then (e\<lparr>ent_handle := Some i\<rparr>, hk_handles st @
                                [\<lparr>hh_magic = kDobbyHookHandleMagic, hh_id = ent_id e, hh_target = address,
                                  hh_origin = origin_func, hh_active = True, hh_entry = Some (ent_id e)\<rparr>])
                         else (e, hk_handles st));
                      rec = \<lparr>hr_target = address, hr_replace = fake_func,
                             hr_backup = (if out_origin_func then origin_func else 0),
                             hr_trampoline = range_addr (ent_relocated e), hr_enabled = True,
                             hr_patch_addr = range_addr (ent_patched e), hr_patch_size = rsize (ent_patched e)\<rparr>
                  in (0, if out_origin_func then Some origin_func else None, if out_handle then Some i else None,
                      st\<lparr>hk_env := env, hk_entries := add_entry e (hk_entries st), hk_handles := handles,
                         hk_records := hk_records st @ [rec]\<rparr>))"

definition DobbyHookEx ::
  "'s tramp_engine \<Rightarrow> bool \<Rightarrow> addr_t \<Rightarrow> addr_t \<Rightarrow> bool \<Rightarrow> bool \<Rightarrow> 's hook_state \<Rightarrow>
     (int \<times> addr_t option \<times> nat option \<times> 's hook_state) result option" where
  "DobbyHookEx eng near address fake_func out_origin_func out_handle st =
     (if address = 0 \<or> fake_func = 0 then Some (Inr (-1, None, None, st))
      else if find_entry address (hk_entries st) \<noteq> None then Some (Inr (-1, None, None, st))
      else let e = (Entry_new address)\<lparr>ent_id := hk_next_entry_id st, ent_fake_func_addr := fake_func\<rparr>;
               st = st\<lparr>hk_next_entry_id := hk_next_entry_id st + 1\<rparr>
           in map_option (\<lambda>res. sbind res (\<lambda>built. Inr (finish_hook eng address fake_func out_origin_func out_handle st built)))
              (BuildRouting eng near fake_func e InterceptRouting_new (hk_env st)))"

definition DobbyHook ::
  "'s tramp_engine \<Rightarrow> bool \<Rightarrow> addr_t \<Rightarrow> addr_t \<Rightarrow> bool \<Rightarrow> 's hook_state \<Rightarrow>
     (int \<times> addr_t option \<times> nat option \<times> 's hook_state) result option" where
  "DobbyHook eng near address fake_func out_origin_func st = DobbyHookEx eng near address fake_func out_origin_func False st"

end
