(* ===== verification/Dobby_Process.thy ===== *)
theory Dobby_Process
  imports Hook_Routing Code_Patch Near_Allocator
begin

text \<open>
  The engine as the components build it: a process is its memory and page protections, the two
  allocators, and whether it has faulted; the operations the trampolines and the relocators call are
  \<^verbatim>\<open>DobbyCodePatch\<close>, the allocators and the heap.  The memory interface is \<^verbatim>\<open>OSMemory\<close> of
  \<^verbatim>\<open>source/Backend/UserMode/UnifiedInterface/platform-posix.cc\<close>.  The system calls and the heap are
  a record of functions; the contents of heap objects are kept with the objects, so the heap only hands out
  addresses.
\<close>

section \<open>System calls\<close>

text \<open>
  \<^verbatim>\<open>mmap\<close> takes the fixed address or null, the length and the protection and returns -1 when it
  fails; \<^verbatim>\<open>munmap\<close> returns 0 when it succeeds.
\<close>

record 'k system =
  sys_mprotect :: "'k mprotect"
  sys_mmap :: "'k machine \<Rightarrow> u64 \<Rightarrow> u64 \<Rightarrow> u32 \<Rightarrow> u64 \<times> 'k machine"
  sys_munmap :: "'k machine \<Rightarrow> u64 \<Rightarrow> u64 \<Rightarrow> int \<times> 'k machine"
  sys_maps :: "'k machine \<Rightarrow> proc_maps"
  sys_layout :: "'k machine \<Rightarrow> MemRegion list"
  sys_custom_near :: "(u32 \<Rightarrow> addr_t \<Rightarrow> size_t \<Rightarrow> 'k machine \<Rightarrow> addr_t \<times> 'k machine) option"
  sys_new :: "'k \<Rightarrow> u64 \<Rightarrow> u64 \<times> 'k"
  sys_delete :: "'k \<Rightarrow> u64 \<Rightarrow> 'k"

section \<open>The memory interface\<close>

text \<open>In builds that are not for debugging \<^verbatim>\<open>DCHECK\<close> is empty.\<close>

datatype MemoryPermission = kNoAccess | kRead | kWrite | kExecute | kReadWrite | kReadExecute | kReadWriteExecute

primrec permission_bits :: "MemoryPermission \<Rightarrow> u32" where
  "permission_bits kNoAccess = 0"
| "permission_bits kRead = 1"
| "permission_bits kWrite = 2"
| "permission_bits kExecute = 4"
| "permission_bits kReadWrite = 1 OR 2"
| "permission_bits kReadExecute = 1 OR 4"
| "permission_bits kReadWriteExecute = 1 OR 2 OR 4"

definition GetProtectionFromMemoryPermission :: "MemoryPermission \<Rightarrow> u32" where
  "GetProtectionFromMemoryPermission access =
     (let prot = 0;
          prot = (if permission_bits access AND permission_bits kRead \<noteq> 0 then prot OR PROT_READ else prot);
          prot = (if permission_bits access AND permission_bits kWrite \<noteq> 0 then prot OR PROT_WRITE else prot);
          prot = (if permission_bits access AND permission_bits kExecute \<noteq> 0 then prot OR PROT_EXEC else prot)
      in prot)"

definition OSMemory_Allocate :: "'k system \<Rightarrow> u64 \<Rightarrow> MemoryPermission \<Rightarrow> addr_t \<Rightarrow> 'k machine \<Rightarrow> addr_t \<times> 'k machine" where
  "OSMemory_Allocate sys len access fixed_address m =
     (let (result, m) = sys_mmap sys m fixed_address len (GetProtectionFromMemoryPermission access)
      in (if result = - 1 then 0 else result, m))"

definition OSMemory_Free :: "'k system \<Rightarrow> addr_t \<Rightarrow> u64 \<Rightarrow> 'k machine \<Rightarrow> bool \<times> 'k machine" where
  "OSMemory_Free sys address len m = (let (ret, m) = sys_munmap sys m address len in (ret = 0, m))"

definition OSMemory_Release :: "'k system \<Rightarrow> addr_t \<Rightarrow> u64 \<Rightarrow> 'k machine \<Rightarrow> bool \<times> 'k machine" where
  "OSMemory_Release sys address len m = (let (ret, m) = sys_munmap sys m address len in (ret = 0, m))"

definition OSMemory_SetPermission :: "'k system \<Rightarrow> addr_t \<Rightarrow> u64 \<Rightarrow> MemoryPermission \<Rightarrow> 'k machine \<Rightarrow> bool \<times> 'k machine" where
  "OSMemory_SetPermission sys address len access m =
     (let (ret, m) = sys_mprotect sys m address len (GetProtectionFromMemoryPermission access) in (ret = 0, m))"

section \<open>The process and its engine\<close>

record 'k process =
  ps_machine :: "'k machine"
  ps_alloc :: MemoryAllocator
  ps_near :: NearMemoryAllocator
  ps_fault :: bool

text \<open>
  \<^verbatim>\<open>gMemoryAllocator.allocExecBlock\<close> with the calls it makes to the system: a page is asked for when the
  size is admissible and no record and no page has room, and given back when its protection cannot be set.
\<close>

definition process_exec_alloc :: "'k system \<Rightarrow> u64 \<Rightarrow> size_t \<Rightarrow> 'k process \<Rightarrow> MemRange \<times> 'k process" where
  "process_exec_alloc sys P n s =
     (let (block, a) = allocExecBlock P 0 False n (ps_alloc s)
      in if rsize block \<noteq> 0 \<or> n = 0 \<or> n > P then (block, s\<lparr>ps_alloc := a\<rparr>)
         else let (page, m) = OSMemory_Allocate sys P kNoAccess 0 (ps_machine s)
              in if page = 0 then (block, s\<lparr>ps_alloc := a, ps_machine := m\<rparr>)
                 else let (permitted, m) = OSMemory_SetPermission sys page P kReadExecute m
                      in if \<not> permitted
                         then (block, s\<lparr>ps_alloc := a, ps_machine := snd (OSMemory_Free sys page P m)\<rparr>)
                         else let (block, a) = allocExecBlock P page True n (ps_alloc s)
                              in (block, s\<lparr>ps_alloc := a, ps_machine := m\<rparr>))"

definition process_exec_free :: "'k system \<Rightarrow> u64 \<Rightarrow> MemRange \<Rightarrow> 'k process \<Rightarrow> 'k process" where
  "process_exec_free sys P block s =
     (let (freed, a) = freeExecBlock P block (ps_alloc s)
      in s\<lparr>ps_alloc := a,
            ps_machine := (case freed of None \<Rightarrow> ps_machine s | Some page \<Rightarrow> snd (OSMemory_Free sys page P (ps_machine s)))\<rparr>)"

text \<open>A patch that faults, or does not return, ends the process.\<close>

definition process_patch :: "'k system \<Rightarrow> u64 \<Rightarrow> u64 \<Rightarrow> u8 list \<Rightarrow> 'k process \<Rightarrow> int \<times> 'k process" where
  "process_patch sys P address bytes s =
     (case DobbyCodePatch (sys_mprotect sys) (uint P) (sys_maps sys (ps_machine s)) (ps_machine s) address (Some bytes) of
        Some (Inr (r, m)) \<Rightarrow> (r, s\<lparr>ps_machine := m\<rparr>)
      | _ \<Rightarrow> (-1, s\<lparr>ps_fault := True\<rparr>))"

definition near_system :: "'k system \<Rightarrow> u64 \<Rightarrow> 'k machine near_os" where
  "near_system sys P =
     \<lparr>os_layout = sys_layout sys, os_memory = m_mem,
      os_allocate_at = (\<lambda>m page. OSMemory_Allocate sys P kNoAccess page m),
      os_set_permission = (\<lambda>m page is_exec. snd (OSMemory_SetPermission sys page P (if is_exec then kReadExecute else kReadWrite) m)),
      os_free = (\<lambda>m page. snd (OSMemory_Free sys page P m)), os_custom_near = sys_custom_near sys\<rparr>"

definition near_result :: "(MemRange \<times> NearMemoryAllocator \<times> 'k machine) result option \<Rightarrow> 'k process \<Rightarrow> MemRange \<times> 'k process" where
  "near_result r s =
     (case r of Some (Inr (block, a, m)) \<Rightarrow> (block, s\<lparr>ps_near := a, ps_machine := m\<rparr>)
      | _ \<Rightarrow> (MemRange_empty, s\<lparr>ps_fault := True\<rparr>))"

definition process_store :: "u64 \<Rightarrow> u64 \<Rightarrow> u8 list \<Rightarrow> 'k process \<Rightarrow> 'k process" where
  "process_store P address bytes s =
     (case memcpy_to P (ps_machine s) address bytes of
        Inr m \<Rightarrow> s\<lparr>ps_machine := m\<rparr> | Inl _ \<Rightarrow> s\<lparr>ps_fault := True\<rparr>)"

definition process_engine :: "'k system \<Rightarrow> u64 \<Rightarrow> 'k process tramp_engine" where
  "process_engine sys P =
     \<lparr>eng_mem = (\<lambda>s. m_mem (ps_machine s)),
      eng_near = (\<lambda>s n pos rng. near_result (allocNearCodeBlock (near_system sys P) P n pos rng (ps_near s) (ps_machine s)) s),
      eng_patch = (\<lambda>s a bs. process_patch sys P a bs s),
      eng_exec_alloc = (\<lambda>s n. process_exec_alloc sys P n s),
      eng_exec_free = (\<lambda>s b. process_exec_free sys P b s),
      eng_near_data = (\<lambda>s n pos rng. near_result (allocNearDataBlock (near_system sys P) P n pos rng (ps_near s) (ps_machine s)) s),
      eng_near_free = (\<lambda>s b is_exec. let (a, m) = freeNearBlockLocked (near_system sys P) P b is_exec (ps_near s) (ps_machine s)
                                     in s\<lparr>ps_near := a, ps_machine := m\<rparr>),
      eng_new = (\<lambda>s n. let (p, k) = sys_new sys (m_kernel (ps_machine s)) n
                       in (p, s\<lparr>ps_machine := (ps_machine s)\<lparr>m_kernel := k\<rparr>\<rparr>)),
      eng_delete = (\<lambda>s p. s\<lparr>ps_machine := (ps_machine s)\<lparr>m_kernel := sys_delete sys (m_kernel (ps_machine s)) p\<rparr>\<rparr>),
      eng_store = (\<lambda>s a bs. process_store P a bs s)\<rparr>"

end
