(* ===== verification/Hook_Routing_Proofs.thy ===== *)
theory Hook_Routing_Proofs
  imports Hook_Routing
begin

text \<open>
  What installing and removing a hook does, proved once for every engine that keeps the laws of the locale
  \<open>hook_environment\<close>: patches are all or nothing, blocks come from a pool, and neither the allocator nor
  the heap touches the memory of the program or the blocks in use.
\<close>

section \<open>The size of relocated code\<close>

lemma literals_of_bound: "chunks cur is = Inr cs \<Longrightarrow> length (literals_of b cs) \<le> length is"
proof (induction "is" arbitrary: cur cs b)
  case (Cons i "is")
  then obtain c cs' where c: "chunk cur i = Inr c" "chunks (cur + 4) is = Inr cs'" "cs = c # cs'"
    by (auto simp: sbind_eq_Inr)
  have "length (snd c) \<le> 1"
    using c(1) by (auto simp: chunk_def split: if_splits)
  then show ?case
    using add_mono[OF _ Cons.IH[OF c(2), of "b + length (fst c)"]] c(3) by (cases c) fastforce
qed simp

lemma relocated_length:
  assumes "relocate_arm64_code m origin True = Some (Inr (origin', code))"
    and "unat (ucast (rsize origin) :: u32) \<le> 2 ^ 26"
  shows "0 < length code" "length code \<le> 28 * inst_count (ucast (rsize origin)) + 16"
proof -
  let ?o = "range_addr origin" and ?n = "inst_count (ucast (rsize origin))"
  obtain cs where cs: "chunks ?o (insts_at m ?o ?n) = Inr cs"
    using relocate_code_error[OF assms(2) _ refl] assms(1) by (cases "chunks ?o (insts_at m ?o ?n)") auto
  have "code = finished (cs @ tail_chunk True (?o + of_nat (4 * ?n)))"
    using relocate_code_chunks[OF assms(2) cs refl, of True] assms(1) by auto
  then have "length code = 4 * length (words_of cs) + 8 + 8 * length (literals_of 0 cs) + 8"
    by (simp add: length_finished tail_chunk_def)
  then show "0 < length code" "length code \<le> 28 * ?n + 16"
    using words_of_bound[OF cs] literals_of_bound[OF cs, of 0] by (simp_all add: insts_at_def)
qed

section \<open>The environment of a hook\<close>

definition in_blocks :: "block set \<Rightarrow> u64 set" where
  "in_blocks L = (\<Union>(a, room, _) \<in> L. range_addrs (of_nat a) room)"

lemma in_blocks_mono: "L \<subseteq> L' \<Longrightarrow> in_blocks L \<subseteq> in_blocks L'"
  by (auto simp: in_blocks_def)

lemma in_blocks_insert: "in_blocks (insert (a, room, e) L) = range_addrs (of_nat a) room \<union> in_blocks L"
  by (simp add: in_blocks_def)

lemma range_addrs_unat:
  assumes "a + n < 2 ^ 64"
  shows "range_addrs (of_nat a :: u64) n = {x. a \<le> unat x \<and> unat x < a + n}"
proof (intro set_eqI iffI CollectI)
  fix x :: u64
  assume "x \<in> range_addrs (of_nat a) n"
  then obtain i where i: "i < n" "x = of_nat (a + i)"
    by (auto simp: range_addrs_def)
  then have "unat x = a + i"
    unfolding i(2) using assms i(1) by (intro unat_of_nat_small) simp
  then show "a \<le> unat x \<and> unat x < a + n"
    using i by simp
next
  fix x :: u64
  assume "x \<in> {x. a \<le> unat x \<and> unat x < a + n}"
  then have le: "a \<le> unat x" "unat x < a + n"
    by simp_all
  have "unat x - a < n" "x = of_nat a + of_nat (unat x - a)"
    using le(2) less_diff_conv2[OF le(1), of n] le(1) by (simp_all add: add.commute flip: of_nat_add)
  then show "x \<in> range_addrs (of_nat a) n"
    unfolding range_addrs_def by blast
qed

text \<open>Code at \<open>a\<close> that goes to \<open>to\<close>, and relocated code that does what the original at \<open>a\<close> did.\<close>

definition jumps_to :: "u64 \<Rightarrow> u8 list \<Rightarrow> u64 \<Rightarrow> bool" where
  "jumps_to a code to \<longleftrightarrow>
     (\<forall>s. bytes_at (a_mem s) a code \<and> a_pc s = a \<longrightarrow>
        (\<exists>k t. k \<le> 3 \<and> a64_steps k s = Some t \<and> a_pc t = to \<and> same_except {17} t s))"

definition acts_as_original :: "64 mem \<Rightarrow> u64 \<Rightarrow> nat \<Rightarrow> u64 \<Rightarrow> u8 list \<Rightarrow> bool" where
  "acts_as_original m a n start code \<longleftrightarrow>
     (\<exists>entry. entry 0 = start
        \<and> (\<forall>s j. bytes_at (a_mem s) start code \<and> j < n \<and> a_pc s = entry j \<longrightarrow>
             (let cur = a + of_nat (4 * j); i = le_word (mem_read m cur 4)
              in (branch_like i \<or> adr_like i \<or> ldr_x_literal i \<longrightarrow> simulates cur (entry (Suc j)) i s)
                 \<and> (position_free i \<longrightarrow> a64_step s = a64_exec i s \<and> entry (Suc j) = a_pc s + 4)))
        \<and> (\<forall>s. bytes_at (a_mem s) start code \<and> a_pc s = entry n \<longrightarrow>
             (\<exists>t. a64_steps 2 s = Some t \<and> a_pc t = a + of_nat (4 * n) \<and> same_except {17} t s)))"

lemma relocated_acts:
  assumes "relocate_arm64_code m (MemRange_new a (of_nat (4 * n))) True = Some (Inr (origin', code))" and "n \<le> 4"
  shows "origin' = MemRange_new a (of_nat (4 * n))" "acts_as_original m a n start code" "0 < length code" "length code \<le> 128"
proof -
  let ?o = "MemRange_new a (of_nat (4 * n))"
  have u: "unat (ucast (of_nat (4 * n) :: u64) :: u32) = 4 * n"
    using assms(2) by (subst unat_ucast_small; subst unat_of_nat_small) simp_all
  then have n: "inst_count (ucast (rsize ?o)) = n"
    by (simp add: inst_count_def)
  have l: "unat (ucast (rsize ?o) :: u32) \<le> 2 ^ 26"
    using u assms(2) by simp
  show len: "0 < length code" "length code \<le> 128"
    using relocated_length[OF assms(1) l] assms(2) n by simp_all
  have "length code < 2 ^ 20"
    using len by simp
  note sim = relocation_simulates[OF assms(1) l this n[symmetric], of start]
  then show "origin' = ?o"
    by (cases origin') simp
  show "acts_as_original m a n start code"
    using sim by (simp add: acts_as_original_def)
qed

text \<open>
  A hook is installed: the entry records what was there, the trampoline is in place and goes to the
  replacement, the relocated code is in a block of its own and does what the original did, and every other
  byte of the program and of the blocks in use is what it was.
\<close>

definition hook_installed :: "u64 set \<Rightarrow> u64 \<Rightarrow> u64 \<Rightarrow> 64 mem \<Rightarrow> block set \<Rightarrow> 64 mem \<Rightarrow> block set \<Rightarrow> Entry \<Rightarrow> bool" where
  "hook_installed prog a to m L m' L' e \<longleftrightarrow>
     (\<exists>n q tcode start code. n \<in> {3, 4} \<and> ent_addr e = a \<and> ent_fake_func_addr e = to \<and> ent_patched e = MemRange_new a (of_nat (4 * n))
        \<and> ent_relocated e = MemRange_new start (of_nat (length code)) \<and> ent_origin_code e = Some (q, mem_read m a (4 * n))
        \<and> length tcode = 4 * n \<and> bytes_at m' a tcode \<and> jumps_to a tcode to
        \<and> start \<noteq> 0 \<and> 0 < length code \<and> length code \<le> 128 \<and> bytes_at m' start code \<and> acts_as_original m a n start code
        \<and> pool_take (length code) True L (unat start) L'
        \<and> (\<forall>x \<in> prog \<union> in_blocks L - range_addrs a (4 * n). m' x = m x))"

lemma hook_installedD:
  assumes "hook_installed prog a to m L m' L' e"
  shows "\<exists>n q start (code :: u8 list). n \<in> {3, 4} \<and> ent_patched e = MemRange_new a (of_nat (4 * n))
    \<and> ent_relocated e = MemRange_new start (of_nat (length code)) \<and> ent_origin_code e = Some (q, mem_read m a (4 * n))
    \<and> start \<noteq> 0 \<and> 0 < length code \<and> length code \<le> 128 \<and> pool_take (length code) True L (unat start) L'
    \<and> (\<forall>x \<in> prog \<union> in_blocks L - range_addrs a (4 * n). m' x = m x)"
  using assms unfolding hook_installed_def by (elim exE conjE, intro exI conjI) assumption+

text \<open>The instructions the relocator refuses: the literal loads with \<^verbatim>\<open>opc\<close> 2 or 3.\<close>

definition relocatable :: "64 mem \<Rightarrow> u64 \<Rightarrow> nat \<Rightarrow> bool" where
  "relocatable m a n \<longleftrightarrow> (\<forall>j < n. let i = le_word (mem_read m (a + of_nat (4 * j)) 4) :: u32
                               in \<not> (inst_is_ldr_literal i \<and> bit i 31))"

lemma relocatable_code:
  assumes "relocatable m a 4" and "n \<le> 4"
  shows "\<exists>origin' code. relocate_arm64_code m (MemRange_new a (of_nat (4 * n))) True = Some (Inr (origin', code))"
proof -
  let ?o = "MemRange_new a (of_nat (4 * n))"
  have u: "unat (ucast (of_nat (4 * n) :: u64) :: u32) = 4 * n"
    using assms(2) by (subst unat_ucast_small; subst unat_of_nat_small) simp_all
  then have n: "n = inst_count (ucast (rsize ?o))" and l: "unat (ucast (rsize ?o) :: u32) \<le> 2 ^ 26"
    using assms(2) by (simp_all add: inst_count_def)
  have "\<not> (\<exists>i \<in> set (insts_at m a n). inst_is_ldr_literal i \<and> bit i 31)"
    using assms by (auto simp: relocatable_def insts_at_def Let_def)
  then obtain cs where "chunks (range_addr ?o) (insts_at m (range_addr ?o) n) = Inr cs"
    using chunks_errors[of "insts_at m a n" a] by (auto split: if_splits)
  then show ?thesis
    using relocate_code_chunks[OF l _ n] by blast
qed

lemma remove_added:
  "find_entry a es = None \<Longrightarrow> range_addr (ent_patched e) = a \<Longrightarrow> remove_entry a (es @ [e]) = (Some e, es)"
  by (induction es) (auto split: if_splits)

locale hook_environment =
  fixes eng :: "'s tramp_engine"
    and inv alive :: "'s \<Rightarrow> bool"
    and blocks :: "'s \<Rightarrow> block set"
    and prog :: "u64 set"
  assumes block_bounds: "inv s \<Longrightarrow> (start, room, e) \<in> blocks s \<Longrightarrow> 0 < room \<and> start + room < 2 ^ 64"
    and blocks_prog: "inv s \<Longrightarrow> in_blocks (blocks s) \<inter> prog = {}"
    and patch_prog: "inv s \<Longrightarrow> range_addrs a (length bs) \<subseteq> prog \<Longrightarrow> eng_patch eng s a bs = (r, s') \<Longrightarrow>
      inv s' \<and> blocks s' = blocks s
      \<and> (alive s' \<longrightarrow> alive s \<and> eng_mem eng s' = (if r = 0 then mem_write (eng_mem eng s) a bs else eng_mem eng s))"
    and patch_block: "inv s \<Longrightarrow> (unat a, room, True) \<in> blocks s \<Longrightarrow> length bs \<le> room \<Longrightarrow> bs \<noteq> [] \<Longrightarrow>
      eng_patch eng s a bs = (r, s') \<Longrightarrow>
      inv s' \<and> blocks s' = blocks s \<and> alive s' = alive s \<and> r = 0 \<and> eng_mem eng s' = mem_write (eng_mem eng s) a bs"
    and exec_alloc: "inv s \<Longrightarrow> eng_exec_alloc eng s n = (b, s') \<Longrightarrow>
      inv s' \<and> alive s' = alive s \<and> (\<forall>x \<in> prog \<union> in_blocks (blocks s). eng_mem eng s' x = eng_mem eng s x)
      \<and> (if rsize b = 0 then b = MemRange_empty \<and> blocks s' = blocks s
         else rsize b = n \<and> pool_take (unat n) True (blocks s) (unat (range_addr b)) (blocks s'))"
    and exec_free: "inv s \<Longrightarrow> eng_exec_free eng s b = s' \<Longrightarrow>
      inv s' \<and> alive s' = alive s \<and> (\<forall>x \<in> prog \<union> in_blocks (blocks s'). eng_mem eng s' x = eng_mem eng s x)
      \<and> blocks s' = (if range_addr b = 0 \<or> rsize b = 0 then blocks s else pool_give (unat (range_addr b)) True (blocks s))"
    and heap_new: "inv s \<Longrightarrow> eng_new eng s n = (p, s') \<Longrightarrow>
      p \<noteq> 0 \<and> inv s' \<and> alive s' = alive s \<and> blocks s' = blocks s \<and> eng_mem eng s' = eng_mem eng s"
    and heap_delete: "inv s \<Longrightarrow> eng_delete eng s p = s' \<Longrightarrow>
      inv s' \<and> alive s' = alive s \<and> blocks s' = blocks s \<and> eng_mem eng s' = eng_mem eng s"
begin

text \<open>\<open>kept s s'\<close>: nothing the program or a block in use of \<open>s\<close> can see has changed.\<close>

definition kept :: "'s \<Rightarrow> 's \<Rightarrow> bool" where
  "kept s s' \<longleftrightarrow> inv s' \<and> blocks s' = blocks s \<and> (alive s' \<longrightarrow> alive s)
     \<and> (alive s' \<longrightarrow> (\<forall>x \<in> prog \<union> in_blocks (blocks s). eng_mem eng s' x = eng_mem eng s x))"

lemma kept_refl: "inv s \<Longrightarrow> kept s s"
  by (simp add: kept_def)

lemma kept_trans: "kept s t \<Longrightarrow> kept t u \<Longrightarrow> kept s u"
  by (auto simp: kept_def)

lemma kept_new: "inv s \<Longrightarrow> eng_new eng s n = (p, s') \<Longrightarrow> kept s s' \<and> p \<noteq> 0 \<and> eng_mem eng s' = eng_mem eng s \<and> alive s' = alive s"
  using heap_new[of s n p s'] by (simp add: kept_def)

lemma kept_delete: "inv s \<Longrightarrow> kept s (eng_delete eng s p)"
  using heap_delete[of s p] by (simp add: kept_def)

lemma kept_rewrite:
  assumes "inv s" and "range_addrs a n \<subseteq> prog" and "eng_patch eng s a (mem_read (eng_mem eng s) a n) = (r, s')"
  shows "kept s s'"
  using patch_prog[OF assms(1) _ assms(3)] assms(2) by (auto simp: kept_def mem_write_read_same)

lemma take_give:
  assumes "inv s" and "pool_take n True (blocks s) a L" and "0 < n"
  shows "pool_give a True L = blocks s"
proof -
  obtain room where room: "n \<le> room" "L = insert (a, room, True) (blocks s)"
      "\<forall>(b, m, _) \<in> blocks s. a + room \<le> b \<or> b + m \<le> a"
    using assms(2) by (auto simp: pool_take_def)
  have "\<not> (b = a \<and> e)" if "(b, m, e) \<in> blocks s" for b m e
    using room(1,3) that block_bounds[OF assms(1) that] assms(3) by fastforce
  then show ?thesis
    using room(2) by (auto simp: pool_give_def)
qed

lemma taken_apart:
  assumes "inv s" and "inv s'" and "pool_take n True (blocks s) a (blocks s')"
  obtains room where "n \<le> room" "blocks s' = insert (a, room, True) (blocks s)"
    "range_addrs (of_nat a) room \<inter> (prog \<union> in_blocks (blocks s)) = {}" "(a, room, True) \<in> blocks s'" "a + room < 2 ^ 64"
proof -
  obtain room where room: "n \<le> room" "blocks s' = insert (a, room, True) (blocks s)"
      "\<forall>(b, m, _) \<in> blocks s. a + room \<le> b \<or> b + m \<le> a"
    using assms(3) by (auto simp: pool_take_def)
  have mem: "(a, room, True) \<in> blocks s'"
    using room(2) by simp
  then have bnd: "a + room < 2 ^ 64"
    using block_bounds[OF assms(2)] by blast
  have "range_addrs (of_nat a :: u64) room \<inter> range_addrs (of_nat b) m = {}" if blk: "(b, m, e) \<in> blocks s" for b m e
  proof -
    have "a + room \<le> b \<or> b + m \<le> a"
      using room(3) blk by fastforce
    then show ?thesis
      using range_addrs_unat[OF bnd] range_addrs_unat[of b m] block_bounds[OF assms(1) blk] by auto
  qed
  then have "range_addrs (of_nat a) room \<inter> in_blocks (blocks s) = {}"
    by (auto simp: in_blocks_def)
  moreover have "range_addrs (of_nat a) room \<inter> prog = {}"
    using blocks_prog[OF assms(2)] mem by (auto simp: in_blocks_def)
  ultimately show thesis
    using that[OF room(1,2) _ mem bnd] by blast
qed

text \<open>\<open>code_placed s s' start code\<close>: the code is in a block taken from the pool, and nothing else has changed.\<close>

definition code_placed :: "'s \<Rightarrow> 's \<Rightarrow> u64 \<Rightarrow> u8 list \<Rightarrow> bool" where
  "code_placed s s' start code \<longleftrightarrow> inv s' \<and> alive s' = alive s
     \<and> pool_take (length code) True (blocks s) (unat start) (blocks s') \<and> bytes_at (eng_mem eng s') start code
     \<and> (\<forall>x \<in> prog \<union> in_blocks (blocks s). eng_mem eng s' x = eng_mem eng s x)"

lemma code_placed_kept:
  assumes "code_placed s s' start code" and "inv s" and "kept s' s''" and "alive s'' = alive s'" and "eng_mem eng s'' = eng_mem eng s'"
  shows "code_placed s s'' start code"
  using assms by (auto simp: code_placed_def kept_def)

lemma kept_code_placed:
  assumes "kept s s'" and "alive s' = alive s" and "eng_mem eng s' = eng_mem eng s" and "code_placed s' s'' start code"
  shows "code_placed s s'' start code"
  using assms by (auto simp: code_placed_def kept_def)

lemma finalize:
  assumes "inv s" and "0 < length code" and "length code \<le> 128" and "FinalizeFromTurboAssembler eng 0 code s = (b, s')"
  shows "(rsize b = 0 \<and> kept s s' \<and> alive s' = alive s)
    \<or> (\<exists>start. b = MemRange_new start (of_nat (length code)) \<and> start \<noteq> 0 \<and> code_placed s s' start code)"
proof -
  have ln: "unat (of_nat (length code) :: u64) = length code" "of_nat (length code) \<noteq> (0 :: u64)"
    using assms(2,3) by (auto simp: unat_of_nat_small dest: arg_cong[of _ _ unat])
  obtain blk s1 where al: "eng_exec_alloc eng s (of_nat (length code)) = (blk, s1)"
    by (cases "eng_exec_alloc eng s (of_nat (length code))")
  note law = exec_alloc[OF assms(1) al]
  show ?thesis
  proof (cases "rsize blk = 0")
    case True
    then have "b = MemRange_empty \<and> s' = s1"
      using law assms(4) al by (simp add: FinalizeFromTurboAssembler_def)
    then show ?thesis
      using law True by (auto simp: kept_def)
  next
    case False
    let ?a = "range_addr blk"
    have take: "pool_take (length code) True (blocks s) (unat ?a) (blocks s1)" and inv1: "inv s1"
      using law False ln(1) by simp_all
    then have a0: "?a \<noteq> 0"
      by (auto simp: pool_take_def)
    obtain r s2 where p: "eng_patch eng s1 ?a code = (r, s2)"
      by (cases "eng_patch eng s1 ?a code")
    obtain room where room: "length code \<le> room" "(unat ?a, room, True) \<in> blocks s1"
      "range_addrs (of_nat (unat ?a)) room \<inter> (prog \<union> in_blocks (blocks s)) = {}"
      using taken_apart[OF assms(1) inv1 take] by metis
    have res: "b = MemRange_new ?a (of_nat (length code))" "s' = s2"
      using assms(4) al a0 p by (simp_all add: FinalizeFromTurboAssembler_def)
    have pl: "inv s2 \<and> blocks s2 = blocks s1 \<and> alive s2 = alive s1 \<and> eng_mem eng s2 = mem_write (eng_mem eng s1) ?a code"
      using patch_block[OF inv1 room(2,1) _ p] assms(2) by auto
    have "range_addrs ?a (length code) \<subseteq> range_addrs ?a room"
      using room(1) by (auto simp: range_addrs_def)
    then have "eng_mem eng s2 x = eng_mem eng s x" if "x \<in> prog \<union> in_blocks (blocks s)" for x
      using pl law that room(3) mem_write_outside[of x ?a code] by fastforce
    moreover have "bytes_at (eng_mem eng s2) ?a code"
      using pl assms(3) by (simp add: mem_write_bytes_at)
    ultimately show ?thesis
      using res pl take law a0 by (intro disjI2 exI[of _ ?a]) (auto simp: code_placed_def)
  qed
qed

lemma trampoline_built:
  assumes "inv s" and "arm_thumb_fix_addr (ent_addr e) = ent_addr e"
    and "ALIGN_FLOOR to 0x1000 - ALIGN_FLOOR (ent_addr e) 0x1000 \<noteq> 0x100000000"
  obtains type code p s' where
    "GenerateTrampoline eng False to e InterceptRouting_new s = Inr (True, InterceptRouting_new\<lparr>ir_trampoline :=
       Some (Trampoline type (MemRange_new p (of_nat (length code))) code TRAMPOLINE_BUFFER_HEAP None [] [])\<rparr>, s')"
    "p \<noteq> 0" "length code \<in> {12, 16}" "jumps_to (ent_addr e) code to" "kept s s'" "alive s' = alive s"
    "eng_mem eng s' = eng_mem eng s" "eng_new eng s (of_nat (length code)) = (p, s')"
proof -
  obtain type code p s' where g: "GenerateNormalTrampolineBuffer_arm64 eng (ent_addr e) to s =
      Inr (Trampoline type (MemRange_new p (of_nat (length code))) code TRAMPOLINE_BUFFER_HEAP None [] [], s')"
    "eng_new eng s (of_nat (length code)) = (p, s')" "length code \<in> {12, 16}" "jumps_to (ent_addr e) code to"
    using normal_trampoline_reaches[OF assms(3), of eng s] unfolding jumps_to_def by blast
  have "GenerateTrampoline eng False to e InterceptRouting_new s = Inr (True, InterceptRouting_new\<lparr>ir_trampoline :=
       Some (Trampoline type (MemRange_new p (of_nat (length code))) code TRAMPOLINE_BUFFER_HEAP None [] [])\<rparr>, s')"
    using g(1) assms(2) by (simp add: GenerateTrampoline_def InterceptRouting_new_def)
  then show thesis
    using that g kept_new[OF assms(1) g(2)] by blast
qed

lemma relocated_built:
  assumes "inv s" and "arm_thumb_fix_addr (ent_addr e) = ent_addr e" and "n \<le> 4" and "\<not> ir_error r"
    and "trampoline_addr r \<noteq> 0" and "trampoline_size r = of_nat (4 * n)"
    and "GenerateRelocatedCode eng e r s = Some (Inr (e', r', s'))"
  shows "(e' = e \<and> r' = r\<lparr>ir_error := True\<rparr> \<and> kept s s' \<and> alive s' = alive s)
    \<or> (r' = r \<and> (\<exists>start code. e' = e\<lparr>ent_patched := MemRange_new (ent_addr e) (of_nat (4 * n)),
                                    ent_relocated := MemRange_new start (of_nat (length code))\<rparr>
         \<and> start \<noteq> 0 \<and> 0 < length code \<and> length code \<le> 128 \<and> code_placed s s' start code
         \<and> acts_as_original (eng_mem eng s) (ent_addr e) n start code))"
proof -
  let ?o = "MemRange_new (ent_addr e) (of_nat (4 * n))"
  obtain origin' code where c: "relocate_arm64_code (eng_mem eng s) ?o True = Some (Inr (origin', code))"
    using assms(2,4-7)
    by (auto simp: GenerateRelocatedCode_def GenRelocateCodeAndBranch_arm64_def GenRelocateCode_arm64_def sbind_eq_Inr
        split: option.splits)
  note acts = relocated_acts[OF c assms(3)]
  obtain b s1 where f: "FinalizeFromTurboAssembler eng 0 code s = (b, s1)"
    by (cases "FinalizeFromTurboAssembler eng 0 code s")
  have res: "(if rsize b = 0 then (e, r\<lparr>ir_error := True\<rparr>, s1)
      else (e\<lparr>ent_patched := ?o, ent_relocated := b\<rparr>, r, s1)) = (e', r', s')"
    using assms(2,4-7) c f acts(1)
    by (auto simp: GenerateRelocatedCode_def GenRelocateCodeAndBranch_arm64_def GenRelocateCode_arm64_def split: if_splits)
  have ln: "of_nat (length code) \<noteq> (0 :: u64)"
    using acts(3,4) by (auto simp: unat_of_nat_small dest: arg_cong[of _ _ unat])
  from finalize[OF assms(1) acts(3,4) f] show ?thesis
  proof
    assume no: "rsize b = 0 \<and> kept s s1 \<and> alive s1 = alive s"
    then have "e' = e" "r' = r\<lparr>ir_error := True\<rparr>" "s' = s1"
      using res by simp_all
    with no show ?thesis by simp
  next
    assume "\<exists>start. b = MemRange_new start (of_nat (length code)) \<and> start \<noteq> 0 \<and> code_placed s s1 start code"
    then obtain start where b: "b = MemRange_new start (of_nat (length code))" "start \<noteq> 0" "code_placed s s1 start code"
      by blast
    then have "e' = e\<lparr>ent_patched := ?o, ent_relocated := b\<rparr>" "r' = r" "s' = s1"
      using res ln by simp_all
    with b show ?thesis
      using acts(2-4) by (intro disjI2 conjI exI[of _ start] exI[of _ code]) simp_all
  qed
qed

lemma build_outcome:
  assumes "inv s" and "a \<noteq> 0" and "arm_thumb_fix_addr a = a" and "range_addrs a 16 \<subseteq> prog"
    and "ALIGN_FLOOR to 0x1000 - ALIGN_FLOOR a 0x1000 \<noteq> 0x100000000"
    and "e0 = (Entry_new a)\<lparr>ent_id := i, ent_fake_func_addr := to\<rparr>"
    and "BuildRouting eng False to e0 InterceptRouting_new s = Some (Inr (e, r, s'))"
  obtains type tcode p where
    "r = InterceptRouting_new\<lparr>ir_error := True, ir_trampoline :=
       Some (Trampoline type (MemRange_new p (of_nat (length tcode))) tcode TRAMPOLINE_BUFFER_HEAP None [] [])\<rparr>"
    "e = e0" "kept s s'" "alive s' = alive s"
  | type tcode p q start code n where
    "r = InterceptRouting_new\<lparr>ir_trampoline :=
       Some (Trampoline type (MemRange_new p (of_nat (length tcode))) tcode TRAMPOLINE_BUFFER_HEAP None [] [])\<rparr>"
    "p \<noteq> 0" "length tcode = 4 * n" "n \<in> {3, 4}" "jumps_to a tcode to"
    "e = e0\<lparr>ent_patched := MemRange_new a (of_nat (4 * n)), ent_relocated := MemRange_new start (of_nat (length code)),
            ent_origin_code := Some (q, mem_read (eng_mem eng s) a (4 * n))\<rparr>"
    "start \<noteq> 0" "0 < length code" "length code \<le> 128" "code_placed s s' start code"
    "acts_as_original (eng_mem eng s) a n start code"
proof -
  have e0: "ent_addr e0 = a" "ent_origin_code e0 = None" "rsize (ent_patched e0) = 0" "e0\<lparr>ent_origin_code := None\<rparr> = e0"
    using assms(6) by (simp_all add: Entry_new_def)
  obtain type tcode p s1 where t:
    "GenerateTrampoline eng False to e0 InterceptRouting_new s = Inr (True, InterceptRouting_new\<lparr>ir_trampoline :=
       Some (Trampoline type (MemRange_new p (of_nat (length tcode))) tcode TRAMPOLINE_BUFFER_HEAP None [] [])\<rparr>, s1)"
    "p \<noteq> 0" "length tcode \<in> {12, 16}" "jumps_to a tcode to" "kept s s1" "alive s1 = alive s" "eng_mem eng s1 = eng_mem eng s"
    using trampoline_built[OF assms(1), of e0 to] assms(3,5) e0(1) by metis
  let ?r = "InterceptRouting_new\<lparr>ir_trampoline :=
       Some (Trampoline type (MemRange_new p (of_nat (length tcode))) tcode TRAMPOLINE_BUFFER_HEAP None [] [])\<rparr>"
  obtain n where n: "length tcode = 4 * n" "n \<in> {3, 4}"
    using t(3) by (metis (no_types, lifting) insert_iff singletonD mult_numeral_left_semiring_numeral mult_2 numeral_Bit0 numeral_times_numeral semiring_norm(12,13))
  have inv1: "inv s1"
    using t(5) by (simp add: kept_def)
  obtain z where z: "GenerateRelocatedCode eng e0 ?r s1 = Some z"
      "sbind z (\<lambda>(e, r, s). let (e, s) = backup_orig_code eng e s in Inr (e, r, s)) = Inr (e, r, s')"
    using assms(7) t(1) by (auto simp: BuildRouting_def)
  then obtain e2 s2 where g: "GenerateRelocatedCode eng e0 ?r s1 = Some (Inr (e2, r, s2))" "backup_orig_code eng e2 s2 = (e, s')"
    by (auto simp: sbind_eq_Inr split_def Let_def prod_eq_iff)
  have r: "\<not> ir_error ?r" "trampoline_addr ?r \<noteq> 0" "trampoline_size ?r = of_nat (4 * n)"
    using t(2) n(1) by (simp_all add: InterceptRouting_new_def trampoline_addr_def trampoline_size_def tr_addr_def tr_size_def)
  have n4: "n \<le> 4"
    using n(2) by auto
  from relocated_built[OF inv1 _ n4 r g(1), unfolded e0(1) t(7)] assms(3) consider
      (err) "e2 = e0" "r = ?r\<lparr>ir_error := True\<rparr>" "kept s1 s2" "alive s2 = alive s1"
    | (ok) start code where "r = ?r" "e2 = e0\<lparr>ent_patched := MemRange_new a (of_nat (4 * n)),
          ent_relocated := MemRange_new start (of_nat (length code))\<rparr>" "start \<noteq> 0" "0 < length code" "length code \<le> 128"
        "code_placed s1 s2 start code" "acts_as_original (eng_mem eng s) a n start code"
    by blast
  then show thesis
  proof cases
    case err
    have "e = e0" "s' = s2"
      using g(2) e0 by (simp_all add: err(1) backup_orig_code_def)
    moreover have "kept s s2" "alive s2 = alive s"
      using kept_trans[OF t(5) err(3)] err(4) t(6) by simp_all
    ultimately show ?thesis
      using err(2) by (intro that(1)[of type p tcode]) simp_all
  next
    case ok
    have inv2: "inv s2"
      using ok(6) by (simp add: code_placed_def)
    obtain q s3 where q: "eng_new eng s2 (of_nat (4 * n)) = (q, s3)"
      by (cases "eng_new eng s2 (of_nat (4 * n))")
    note kn = kept_new[OF inv2 q]
    have sz: "ucast (ucast (of_nat (4 * n) :: u64) :: u32) = (of_nat (4 * n) :: u64)" "unat (ucast (of_nat (4 * n) :: u64) :: u32) = 4 * n"
      "ucast (of_nat (4 * n) :: u64) \<noteq> (0 :: u32)"
      using n(2) by auto
    have rd: "mem_read (eng_mem eng s3) a (4 * n) = mem_read (eng_mem eng s) a (4 * n)"
    proof (rule mem_read_cong)
      fix x assume "x \<in> range_addrs a (4 * n)"
      then have "x \<in> prog"
        using assms(4) n(2) by (auto simp: range_addrs_def)
      then show "eng_mem eng s3 x = eng_mem eng s x"
        using ok(6) kn t(7) by (simp add: code_placed_def)
    qed
    have e: "e = e2\<lparr>ent_origin_code := Some (q, mem_read (eng_mem eng s) a (4 * n))\<rparr>" "s' = s3"
      using g(2) q sz e0(1,2) assms(2) rd by (simp_all add: ok(2) backup_orig_code_def Let_def)
    have "code_placed s s3 start code"
      using kept_code_placed[OF t(5-7) code_placed_kept[OF ok(6) inv1]] kn by blast
    then show ?thesis
      using ok t(2,4) n e by (intro that(2)[of type p tcode n q start code]) simp_all
  qed
qed

lemma kept_delete_routing:
  assumes "inv s" and "r = \<lparr>ir_trampoline = Some (Trampoline type buf bytes TRAMPOLINE_BUFFER_HEAP None [] []),
                          ir_near_trampoline = None, ir_error = err\<rparr>"
  shows "kept s (delete_routing eng r s)"
  using kept_delete[OF assms(1)] kept_refl[OF assms(1)]
  by (simp add: assms(2) delete_routing_def release_buffer_def)

lemma kept_inv: "kept s s' \<Longrightarrow> inv s'"
  by (simp add: kept_def)

text \<open>Giving the relocated code back undoes placing it.\<close>

lemma release_placed:
  assumes "inv s" and "code_placed s s1 start code" and "0 < length code" and "length code \<le> 128" and "start \<noteq> 0" and "kept s1 s2"
  shows "kept s (eng_exec_free eng s2 (MemRange_new start (of_nat (length code))))"
proof -
  let ?s3 = "eng_exec_free eng s2 (MemRange_new start (of_nat (length code)))"
  have ln: "of_nat (length code) \<noteq> (0 :: u64)"
    using assms(3,4) by (auto simp: unat_of_nat_small dest: arg_cong[of _ _ unat])
  have p: "pool_take (length code) True (blocks s) (unat start) (blocks s1)" "inv s1"
      "\<forall>x \<in> prog \<union> in_blocks (blocks s). eng_mem eng s1 x = eng_mem eng s x" "alive s1 = alive s"
    using assms(2) by (simp_all add: code_placed_def)
  have k: "inv s2" "blocks s2 = blocks s1" "alive s2 \<longrightarrow> alive s1"
      "alive s2 \<longrightarrow> (\<forall>x \<in> prog \<union> in_blocks (blocks s1). eng_mem eng s2 x = eng_mem eng s1 x)"
    using assms(6) by (simp_all add: kept_def)
  have free: "inv ?s3 \<and> alive ?s3 = alive s2 \<and> (\<forall>x \<in> prog \<union> in_blocks (blocks ?s3). eng_mem eng ?s3 x = eng_mem eng s2 x)
      \<and> blocks ?s3 = pool_give (unat start) True (blocks s1)"
    using exec_free[OF k(1) refl, of "MemRange_new start (of_nat (length code))"] ln assms(5) k(2) by simp
  have give: "blocks ?s3 = blocks s"
    using take_give[OF assms(1) p(1) assms(3)] free by simp
  have "in_blocks (blocks s) \<subseteq> in_blocks (blocks s1)"
    using p(1) by (intro in_blocks_mono) (auto simp: pool_take_def)
  then show ?thesis
    using free give k p by (auto simp: kept_def)
qed

lemma hook_activates:
  assumes "inv s" and "range_addrs a (length tcode) \<subseteq> prog" and "code_placed s s1 start code"
    and "eng_patch eng s1 a tcode = (0, s2)" and "alive s2" and "length tcode \<le> 16"
  shows "inv s2 \<and> alive s \<and> bytes_at (eng_mem eng s2) a tcode \<and> bytes_at (eng_mem eng s2) start code
    \<and> pool_take (length code) True (blocks s) (unat start) (blocks s2)
    \<and> (\<forall>x \<in> prog \<union> in_blocks (blocks s) - range_addrs a (length tcode). eng_mem eng s2 x = eng_mem eng s x)"
proof -
  have p: "pool_take (length code) True (blocks s) (unat start) (blocks s1)" "inv s1" "bytes_at (eng_mem eng s1) start code"
      "\<forall>x \<in> prog \<union> in_blocks (blocks s). eng_mem eng s1 x = eng_mem eng s x" "alive s1 = alive s"
    using assms(3) by (simp_all add: code_placed_def)
  have q: "inv s2" "blocks s2 = blocks s1" "alive s1" "eng_mem eng s2 = mem_write (eng_mem eng s1) a tcode"
    using patch_prog[OF p(2) assms(2,4)] assms(5) by simp_all
  obtain room where room: "length code \<le> room" "range_addrs (of_nat (unat start)) room \<inter> (prog \<union> in_blocks (blocks s)) = {}"
    using taken_apart[OF assms(1) p(2,1)] by metis
  have "mem_read (eng_mem eng s2) start (length code) = mem_read (eng_mem eng s1) start (length code)"
  proof (rule mem_read_cong)
    fix x assume "x \<in> range_addrs start (length code)"
    then have "x \<in> range_addrs start room"
      using room(1) by (auto simp: range_addrs_def)
    then have "x \<notin> range_addrs a (length tcode)"
      using room(2) assms(2) by auto
    then show "eng_mem eng s2 x = eng_mem eng s1 x"
      by (simp add: q(4) mem_write_outside)
  qed
  then show ?thesis
    using p q assms(6) by (auto simp: bytes_at_def mem_write_outside mem_read_write_same)
qed

definition refused :: "'s hook_state \<Rightarrow> 's hook_state \<Rightarrow> bool" where
  "refused st st' \<longleftrightarrow> kept (hk_env st) (hk_env st') \<and> hk_entries st' = hk_entries st
     \<and> hk_handles st' = hk_handles st \<and> hk_records st' = hk_records st"

lemma finish_error:
  assumes "inv s1" and "r = InterceptRouting_new\<lparr>ir_error := True, ir_trampoline :=
      Some (Trampoline type buf bytes TRAMPOLINE_BUFFER_HEAP None [] [])\<rparr>"
    and "e = (Entry_new a)\<lparr>ent_id := i, ent_fake_func_addr := to\<rparr>" and "kept (hk_env st) s1"
    and "finish_hook eng a to oo oh st (e, r, s1) = (ret, orig, h, st')"
  shows "ret = -1 \<and> refused st st'"
proof -
  have r: "r = \<lparr>ir_trampoline = Some (Trampoline type buf bytes TRAMPOLINE_BUFFER_HEAP None [] []),
      ir_near_trampoline = None, ir_error = True\<rparr>"
    by (simp add: assms(2) InterceptRouting_new_def)
  have "ret = -1" "st' = st\<lparr>hk_env := delete_routing eng r s1\<rparr>"
    using assms(5) by (auto simp: finish_hook_def r assms(3) Entry_new_def delete_entry_def release_relocated_code_def)
  then show ?thesis
    using kept_trans[OF assms(4) kept_delete_routing[OF assms(1) r]] by (simp add: refused_def)
qed

lemma finish_built:
  assumes "inv (hk_env st)" and "a \<noteq> 0" and "range_addrs a 16 \<subseteq> prog"
    and "e = (Entry_new a)\<lparr>ent_id := i, ent_fake_func_addr := to, ent_patched := MemRange_new a (of_nat (4 * n)),
           ent_relocated := MemRange_new start (of_nat (length code)),
           ent_origin_code := Some (q, mem_read (eng_mem eng (hk_env st)) a (4 * n))\<rparr>"
    and "r = InterceptRouting_new\<lparr>ir_trampoline :=
           Some (Trampoline type (MemRange_new p (of_nat (length tcode))) tcode TRAMPOLINE_BUFFER_HEAP None [] [])\<rparr>"
    and "p \<noteq> 0" "length tcode = 4 * n" "n \<in> {3, 4}" "jumps_to a tcode to" "start \<noteq> 0" "0 < length code" "length code \<le> 128"
    and "code_placed (hk_env st) s1 start code" "acts_as_original (eng_mem eng (hk_env st)) a n start code"
    and "finish_hook eng a to oo oh st (e, r, s1) = (ret, orig, h, st')" and "alive (hk_env st')"
  shows "ret = -1 \<and> refused st st'
    \<or> ret = 0 \<and> inv (hk_env st') \<and> (orig = (if oo then Some start else None))
      \<and> (\<exists>e'. hk_entries st' = hk_entries st @ [e'] \<and> range_addr (ent_relocated e') = start \<and>
          hook_installed prog a to (eng_mem eng (hk_env st)) (blocks (hk_env st)) (eng_mem eng (hk_env st')) (blocks (hk_env st')) e')"
proof -
  let ?s = "hk_env st" and ?m = "eng_mem eng (hk_env st)"
  obtain ret' s2 where p: "eng_patch eng s1 a tcode = (ret', s2)"
    by (cases "eng_patch eng s1 a tcode")
  have len: "length tcode \<le> 16" "range_addrs a (length tcode) \<subseteq> prog" "of_nat (length tcode) \<noteq> (0 :: u64)"
    using assms(3,7,8) by (auto simp: range_addrs_def)
  let ?r = "\<lparr>ir_trampoline = Some (Trampoline type (MemRange_new p (of_nat (length tcode))) tcode TRAMPOLINE_BUFFER_HEAP None [] []),
      ir_near_trampoline = None, ir_error = (ret' \<noteq> 0)\<rparr>"
  have act: "Active eng e r s1 = (?r, s2)"
    using assms(6) len(3) p
    by (simp add: assms(4,5) Active_def InterceptRouting_new_def trampoline_addr_def trampoline_size_def trampoline_bytes_def
        tr_addr_def tr_size_def Entry_new_def)
  show ?thesis
  proof (cases "ret' = 0")
    case True
    then have res: "ret = 0 \<and> orig = (if oo then Some start else None) \<and> hk_env st' = s2
        \<and> (\<exists>e'. hk_entries st' = hk_entries st @ [e'] \<and> ent_addr e' = ent_addr e \<and> ent_fake_func_addr e' = ent_fake_func_addr e \<and> ent_patched e' = ent_patched e
          \<and> ent_relocated e' = ent_relocated e \<and> ent_origin_code e' = ent_origin_code e)"
      using assms(15) act
      by (cases oh) (auto simp: finish_hook_def assms(4,5) Let_def InterceptRouting_new_def add_entry_def Entry_new_def)
    moreover have "inv s2 \<and> alive ?s \<and> bytes_at (eng_mem eng s2) a tcode \<and> bytes_at (eng_mem eng s2) start code
        \<and> pool_take (length code) True (blocks ?s) (unat start) (blocks s2)
        \<and> (\<forall>x \<in> prog \<union> in_blocks (blocks ?s) - range_addrs a (length tcode). eng_mem eng s2 x = ?m x)"
      using hook_activates[OF assms(1) len(2) assms(13)] p True assms(16) res len(1) by simp
    ultimately show ?thesis
      using assms(7-12,14) by (fastforce simp: hook_installed_def assms(4) Entry_new_def)
  next
    case False
    let ?bytes = "mem_read ?m a (4 * n)"
    let ?s4 = "eng_delete eng (snd (eng_patch eng s2 a ?bytes)) q"
    let ?s5 = "delete_routing eng ?r ?s4"
    have n0: "of_nat (4 * n) \<noteq> (0 :: u64)" "of_nat (length code) \<noteq> (0 :: u64)"
      using assms(8,11,12) by (auto simp: unat_of_nat_small dest: arg_cong[of _ _ unat])
    have st': "ret = -1" "st' = st\<lparr>hk_env := eng_exec_free eng ?s5 (MemRange_new start (of_nat (length code)))\<rparr>"
      using assms(2,10,15) act False n0
      by (auto simp: finish_hook_def assms(4,5) Let_def InterceptRouting_new_def restore_orig_code_def delete_entry_def
          release_relocated_code_def Entry_new_def)
    have i1: "inv s1" "alive s1 = alive ?s" "\<forall>x \<in> prog \<union> in_blocks (blocks ?s). eng_mem eng s1 x = ?m x"
      using assms(13) by (simp_all add: code_placed_def)
    note p2 = patch_prog[OF i1(1) len(2) p]
    obtain r3 s3 where p3: "eng_patch eng s2 a ?bytes = (r3, s3)"
      by (cases "eng_patch eng s2 a ?bytes")
    have sub: "range_addrs a (length ?bytes) \<subseteq> prog"
      using len(2) assms(7) by simp
    have i3: "inv s3" "alive s3 \<longrightarrow> alive s2"
      using patch_prog[OF _ sub p3] p2 by auto
    have i5: "kept s3 ?s5"
      using kept_trans[OF kept_delete kept_delete_routing[OF kept_inv[OF kept_delete]]] i3(1) p3 by simp
    have "alive s3"
      using i5 kept_inv[OF i5] exec_free[OF _ refl, of ?s5] assms(16) st'(2) by (auto simp: kept_def)
    then have k2: "kept s1 s2" "eng_mem eng s2 = eng_mem eng s1"
      using p2 i3 False by (auto simp: kept_def)
    have "?bytes = mem_read (eng_mem eng s2) a (4 * n)"
      using i1(3) sub k2(2) by (intro mem_read_cong) auto
    then have "kept s2 s3"
      using kept_rewrite[OF kept_inv[OF k2(1)], of a "4 * n"] sub p3 by simp
    then have "kept s1 ?s5"
      using kept_trans k2(1) i5 by blast
    then show ?thesis
      using release_placed[OF assms(1,13,11,12,10)] st' by (simp add: refused_def)
  qed
qed

lemma hook_outcome:
  assumes "inv (hk_env st)" and "arm_thumb_fix_addr a = a" and "range_addrs a 16 \<subseteq> prog"
    and "ALIGN_FLOOR to 0x1000 - ALIGN_FLOOR a 0x1000 \<noteq> 0x100000000"
    and "DobbyHookEx eng False a to oo oh st = Some (Inr (ret, orig, h, st'))" and "alive (hk_env st')"
  shows "ret = -1 \<and> refused st st'
    \<or> ret = 0 \<and> inv (hk_env st') \<and> find_entry a (hk_entries st) = None
      \<and> (\<exists>e. hk_entries st' = hk_entries st @ [e] \<and> orig = (if oo then Some (range_addr (ent_relocated e)) else None) \<and>
          hook_installed prog a to (eng_mem eng (hk_env st)) (blocks (hk_env st)) (eng_mem eng (hk_env st')) (blocks (hk_env st')) e)"
proof (cases "a = 0 \<or> to = 0 \<or> find_entry a (hk_entries st) \<noteq> None")
  case True
  then show ?thesis
    using assms(1,5) by (auto simp: DobbyHookEx_def refused_def kept_refl split: if_splits)
next
  case False
  let ?e0 = "(Entry_new a)\<lparr>ent_id := hk_next_entry_id st, ent_fake_func_addr := to\<rparr>"
  let ?st = "st\<lparr>hk_next_entry_id := hk_next_entry_id st + 1\<rparr>"
  obtain e r s1 where b: "BuildRouting eng False to ?e0 InterceptRouting_new (hk_env st) = Some (Inr (e, r, s1))"
    and f: "finish_hook eng a to oo oh ?st (e, r, s1) = (ret, orig, h, st')"
    using assms(5) False by (auto simp: DobbyHookEx_def sbind_eq_Inr)
  have st: "refused ?st st' = refused st st'" "hk_env ?st = hk_env st" "hk_entries ?st = hk_entries st"
    by (simp_all add: refused_def)
  have inv': "inv (hk_env ?st)" using assms(1) by simp
  from False have a0: "a \<noteq> 0" by simp
  show ?thesis
  proof (cases rule: build_outcome[OF assms(1) a0 assms(2,3,4) refl b])
    case (1 type tcode p)
    then have "inv s1" "kept (hk_env ?st) s1"
      by (simp_all add: kept_def)
    then show ?thesis
      using finish_error[OF _ 1(1,2) _ f] st by simp
  next
    case (2 type tcode p q start code n)
    have "e = (Entry_new a)\<lparr>ent_id := hk_next_entry_id st, ent_fake_func_addr := to,
        ent_patched := MemRange_new a (of_nat (4 * n)), ent_relocated := MemRange_new start (of_nat (length code)),
        ent_origin_code := Some (q, mem_read (eng_mem eng (hk_env ?st)) a (4 * n))\<rparr>"
      and "code_placed (hk_env ?st) s1 start code" "acts_as_original (eng_mem eng (hk_env ?st)) a n start code"
      using 2(6,10,11) by simp_all
    note fb = finish_built[OF inv' a0 assms(3) this(1) 2(1-5,7-9) this(2,3) f assms(6)]
    show ?thesis
    proof (cases "ret = -1")
      case True
      then show ?thesis using fb st by simp
    next
      case ne: False
      then obtain e' where "ret = 0" "inv (hk_env st')" "orig = (if oo then Some start else None)" "hk_entries st' = hk_entries st @ [e']"
          "hook_installed prog a to (eng_mem eng (hk_env st)) (blocks (hk_env st)) (eng_mem eng (hk_env st')) (blocks (hk_env st')) e'"
          "range_addr (ent_relocated e') = start"
        using fb by auto
      then show ?thesis using False by auto
    qed
  qed
qed

end

text \<open>
  Where in addition the program's code can be patched and the allocator has memory, a hook is installed
  whenever its target can be relocated, and removing it restores the program.  \<open>ready\<close> says that the code
  can be patched, \<open>roomy\<close> that the next page the allocator asks for is given.
\<close>

locale hook_environment_live = hook_environment +
  fixes ready roomy :: "'a \<Rightarrow> bool"
  assumes prog_patches: "inv s \<Longrightarrow> alive s \<Longrightarrow> ready s \<Longrightarrow> a \<noteq> 0 \<Longrightarrow> bs \<noteq> [] \<Longrightarrow> unat a + length bs < 2 ^ 64 \<Longrightarrow>
      range_addrs a (length bs) \<subseteq> prog \<Longrightarrow> eng_patch eng s a bs = (r, s') \<Longrightarrow> r = 0 \<and> alive s' \<and> ready s'"
    and block_ready: "inv s \<Longrightarrow> ready s \<Longrightarrow> (unat a, room, True) \<in> blocks s \<Longrightarrow> length bs \<le> room \<Longrightarrow> bs \<noteq> [] \<Longrightarrow>
      eng_patch eng s a bs = (r, s') \<Longrightarrow> ready s'"
    and alloc_ready: "inv s \<Longrightarrow> ready s \<Longrightarrow> eng_exec_alloc eng s n = (b, s') \<Longrightarrow> ready s'"
    and new_ready: "inv s \<Longrightarrow> ready s \<Longrightarrow> eng_new eng s n = (p, s') \<Longrightarrow> ready s'"
    and new_roomy: "inv s \<Longrightarrow> roomy s \<Longrightarrow> eng_new eng s n = (p, s') \<Longrightarrow> roomy s'"
    and alloc_gives: "inv s \<Longrightarrow> roomy s \<Longrightarrow> 0 < unat n \<Longrightarrow> unat n \<le> 128 \<Longrightarrow> eng_exec_alloc eng s n = (b, s') \<Longrightarrow> rsize b = n"
begin

lemma builds:
  assumes "inv s" and "arm_thumb_fix_addr (ent_addr e) = ent_addr e" and "n \<le> 4" and "\<not> ir_error r"
    and "trampoline_addr r \<noteq> 0" and "trampoline_size r = of_nat (4 * n)" and "relocatable (eng_mem eng s) (ent_addr e) 4"
    and "ready s" and "roomy s"
  shows "\<exists>e' s'. GenerateRelocatedCode eng e r s = Some (Inr (e', r, s')) \<and> ready s' \<and> ent_origin_code e' = ent_origin_code e"
proof -
  let ?o = "MemRange_new (ent_addr e) (of_nat (4 * n))"
  obtain origin' code where c: "relocate_arm64_code (eng_mem eng s) ?o True = Some (Inr (origin', code))"
    using relocatable_code[OF assms(7,3)] by blast
  note len = relocated_acts(3,4)[OF c assms(3)]
  have u: "unat (of_nat (length code) :: u64) = length code"
    using len by (intro unat_of_nat_small) simp
  obtain b s1 where al: "eng_exec_alloc eng s (of_nat (length code)) = (b, s1)"
    by (cases "eng_exec_alloc eng s (of_nat (length code))")
  have sz: "rsize b = of_nat (length code)" "of_nat (length code) \<noteq> (0 :: u64)"
    using alloc_gives[OF assms(1,9) _ _ al] len u by auto
  then have take: "pool_take (length code) True (blocks s) (unat (range_addr b)) (blocks s1)" "inv s1" and b0: "range_addr b \<noteq> 0"
    using exec_alloc[OF assms(1) al] u by (auto simp: pool_take_def)
  obtain ret s2 where p: "eng_patch eng s1 (range_addr b) code = (ret, s2)"
    by (cases "eng_patch eng s1 (range_addr b) code")
  obtain room where "length code \<le> room" "(unat (range_addr b), room, True) \<in> blocks s1"
    using taken_apart[OF assms(1) take(2,1)] by metis
  then have "ready s2"
    using block_ready[OF take(2) alloc_ready[OF assms(1,8) al] _ _ _ p] len(1) by simp
  moreover have "FinalizeFromTurboAssembler eng 0 code s = (MemRange_new (range_addr b) (of_nat (length code)), s2)"
    using al b0 p by (simp add: FinalizeFromTurboAssembler_def)
  ultimately show ?thesis
    using assms(2,4-6) c sz
    by (auto simp: GenerateRelocatedCode_def GenRelocateCodeAndBranch_arm64_def GenRelocateCode_arm64_def)
qed

lemma hook_succeeds:
  assumes "inv (hk_env st)" and "alive (hk_env st)" and "a \<noteq> 0" and "to \<noteq> 0" and "find_entry a (hk_entries st) = None"
    and "arm_thumb_fix_addr a = a" and "range_addrs a 16 \<subseteq> prog" and "unat a + 16 < 2 ^ 64"
    and "ALIGN_FLOOR to 0x1000 - ALIGN_FLOOR a 0x1000 \<noteq> 0x100000000" and "relocatable (eng_mem eng (hk_env st)) a 4"
    and "ready (hk_env st)" and "roomy (hk_env st)"
  shows "\<exists>orig h st'. DobbyHookEx eng False a to oo oh st = Some (Inr (0, orig, h, st')) \<and> alive (hk_env st') \<and> ready (hk_env st')"
proof -
  let ?e0 = "(Entry_new a)\<lparr>ent_id := hk_next_entry_id st, ent_fake_func_addr := to\<rparr>"
  let ?st = "st\<lparr>hk_next_entry_id := hk_next_entry_id st + 1\<rparr>"
  have e0: "ent_addr ?e0 = a" by (simp add: Entry_new_def)
  obtain type tcode p s1 where t:
    "GenerateTrampoline eng False to ?e0 InterceptRouting_new (hk_env st) = Inr (True, InterceptRouting_new\<lparr>ir_trampoline :=
       Some (Trampoline type (MemRange_new p (of_nat (length tcode))) tcode TRAMPOLINE_BUFFER_HEAP None [] [])\<rparr>, s1)"
    "p \<noteq> 0" "length tcode \<in> {12, 16}" "kept (hk_env st) s1" "eng_mem eng s1 = eng_mem eng (hk_env st)"
    "eng_new eng (hk_env st) (of_nat (length tcode)) = (p, s1)"
    using trampoline_built[OF assms(1), of ?e0 to] assms(6,9) unfolding e0 by metis
  let ?r = "InterceptRouting_new\<lparr>ir_trampoline :=
       Some (Trampoline type (MemRange_new p (of_nat (length tcode))) tcode TRAMPOLINE_BUFFER_HEAP None [] [])\<rparr>"
  obtain n where n: "length tcode = 4 * n" "n \<le> 4"
    using t(3) by (cases "length tcode = 12") (auto intro: that[of 3] that[of 4])
  have r: "\<not> ir_error ?r" "trampoline_addr ?r \<noteq> 0" "trampoline_size ?r = of_nat (4 * n)"
    using t(2) n(1) by (simp_all add: InterceptRouting_new_def trampoline_addr_def trampoline_size_def tr_addr_def tr_size_def)
  have "ready s1" "roomy s1"
    using new_ready[OF assms(1,11) t(6)] new_roomy[OF assms(1,12) t(6)] .
  then obtain e2 s2 where g: "GenerateRelocatedCode eng ?e0 ?r s1 = Some (Inr (e2, ?r, s2))" "ready s2" "ent_origin_code e2 = None"
    using builds[OF kept_inv[OF t(4)] _ n(2) r, of ?e0] assms(6,10) e0 t(5) by (auto simp: Entry_new_def)
  have inv2: "inv s2"
    using relocated_built[OF kept_inv[OF t(4)] _ n(2) r g(1)] assms(6) e0 by (auto simp: kept_def code_placed_def)
  obtain e s3 where b: "backup_orig_code eng e2 s2 = (e, s3)"
    by (cases "backup_orig_code eng e2 s2")
  have rd3: "ready s3"
    using b g(2,3) new_ready[OF inv2 g(2)]
    by (auto simp: backup_orig_code_def Let_def split: if_splits prod.splits)
  have built: "BuildRouting eng False to ?e0 InterceptRouting_new (hk_env st) = Some (Inr (e, ?r, s3))"
    using t(1) g(1) b by (simp add: BuildRouting_def)
  show ?thesis
  proof (cases rule: build_outcome[OF assms(1,3,6,7,9) refl built])
    case 1
    then show ?thesis by (simp add: InterceptRouting_new_def)
  next
    case (2 type' tcode' p' q start code n')
    have tc: "tcode' = tcode" "type' = type" "p' = p"
      using 2(1) by (simp_all add: InterceptRouting_new_def)
    have sub: "range_addrs a (length tcode) \<subseteq> prog" "tcode \<noteq> []" "unat a + length tcode < 2 ^ 64" "of_nat (length tcode) \<noteq> (0 :: u64)"
      using assms(7,8) t(3) by (auto simp: range_addrs_def)
    have s3: "inv s3" "alive s3"
      using 2(10) assms(2) by (simp_all add: code_placed_def)
    obtain ret s4 where pt: "eng_patch eng s3 a tcode = (ret, s4)"
      by (cases "eng_patch eng s3 a tcode")
    have ok: "ret = 0" "alive s4" "ready s4"
      using prog_patches[OF s3 rd3 assms(3) sub(2,3,1) pt] by simp_all
    have "Active eng e ?r s3 = (?r, s4)"
      using t(2) sub(4) pt ok(1) 2(6)
      by (simp add: Active_def InterceptRouting_new_def trampoline_addr_def trampoline_size_def trampoline_bytes_def
          tr_addr_def tr_size_def Entry_new_def)
    then have "\<exists>orig h st'. finish_hook eng a to oo oh ?st (e, ?r, s3) = (0, orig, h, st') \<and> hk_env st' = s4"
      by (cases oh) (simp_all add: finish_hook_def InterceptRouting_new_def Let_def)
    then show ?thesis
      using built ok(2,3) assms(3-5) by (fastforce simp: DobbyHookEx_def)
  qed
qed

text \<open>Destroying the entry of an installed hook, as its handle's owner does after taking it off the registry.\<close>

lemma unhook_restores:
  assumes "inv s" and "inv s'" and "alive s'" and "a \<noteq> 0" and "range_addrs a 16 \<subseteq> prog" and "unat a + 16 < 2 ^ 64"
    and "hook_installed prog a to (eng_mem eng s) (blocks s) (eng_mem eng s') (blocks s') e"
    and "delete_entry eng e hs s' = (hs', s'')" and "ready s'"
  shows "inv s'' \<and> alive s'' \<and> blocks s'' = blocks s \<and> (\<forall>x \<in> prog \<union> in_blocks (blocks s). eng_mem eng s'' x = eng_mem eng s x)"
proof -
  obtain n q start and code :: "u8 list" where h: "n \<in> {3, 4}" "ent_patched e = MemRange_new a (of_nat (4 * n))"
      "ent_relocated e = MemRange_new start (of_nat (length code))" "ent_origin_code e = Some (q, mem_read (eng_mem eng s) a (4 * n))"
      "start \<noteq> 0" "0 < length code" "length code \<le> 128" "pool_take (length code) True (blocks s) (unat start) (blocks s')"
      "\<forall>x \<in> prog \<union> in_blocks (blocks s) - range_addrs a (4 * n). eng_mem eng s' x = eng_mem eng s x"
    using hook_installedD[OF assms(7)] by (elim exE conjE)
  let ?bytes = "mem_read (eng_mem eng s) a (4 * n)"
  have n0: "of_nat (4 * n) \<noteq> (0 :: u64)" "of_nat (length code) \<noteq> (0 :: u64)"
    using h(1,6,7) by (auto simp: unat_of_nat_small dest: arg_cong[of _ _ unat])
  have sub: "range_addrs a (length ?bytes) \<subseteq> prog" "?bytes \<noteq> []" "unat a + length ?bytes < 2 ^ 64"
    using assms(5,6) h(1) by (auto simp: range_addrs_def simp flip: length_0_conv)
  obtain r s1 where p: "eng_patch eng s' a ?bytes = (r, s1)"
    by (cases "eng_patch eng s' a ?bytes")
  have s1: "alive s1" "inv s1" "blocks s1 = blocks s'" "eng_mem eng s1 = mem_write (eng_mem eng s') a ?bytes"
    using prog_patches[OF assms(2,3,9,4) sub(2,3,1) p] patch_prog[OF assms(2) sub(1) p] by auto
  have same: "eng_mem eng s1 x = eng_mem eng s x" if "x \<in> prog \<union> in_blocks (blocks s)" for x
  proof (cases "x \<in> range_addrs a (4 * n)")
    case True
    then show ?thesis
      using mem_write_inside[of x a ?bytes "eng_mem eng s'" "eng_mem eng s"] s1(4) by (simp add: mem_write_read_same)
  next
    case False
    then show ?thesis using h(9) that s1(4) by (simp add: mem_write_outside)
  qed
  let ?s2 = "eng_delete eng s1 q"
  have s'': "s'' = eng_exec_free eng ?s2 (MemRange_new start (of_nat (length code)))"
    using assms(4,8) p h(2-5) n0
    by (auto simp: delete_entry_def restore_orig_code_def release_relocated_code_def split: if_splits)
  have d: "inv ?s2" "alive ?s2 = alive s1" "blocks ?s2 = blocks s1" "eng_mem eng ?s2 = eng_mem eng s1"
    using heap_delete[OF s1(2) refl] by simp_all
  have free: "inv s'' \<and> alive s'' = alive ?s2 \<and> (\<forall>x \<in> prog \<union> in_blocks (blocks s''). eng_mem eng s'' x = eng_mem eng ?s2 x)
      \<and> blocks s'' = pool_give (unat start) True (blocks ?s2)"
    using exec_free[OF d(1) s''[symmetric]] n0(2) h(5) by simp
  then have "blocks s'' = blocks s"
    using take_give[OF assms(1) h(8,6)] d(3) s1(3) by simp
  then show ?thesis
    using free same d s1(1) by simp
qed

end

end
