(* ===== verification/Dobby_Process_Proofs.thy ===== *)
theory Dobby_Process_Proofs
  imports Dobby_Process Hook_Routing_Proofs
begin

text \<open>
  The engine the components build keeps the laws of \<open>hook_environment\<close>, for every system that behaves as
  the manual pages of its calls say; so the guarantees about hooks hold for the composition of the patch
  tool, the allocator, the relocator and the trampolines.
\<close>

section \<open>The invariant\<close>

definition alloc_pages :: "MemoryAllocator \<Rightarrow> addr_t set" where
  "alloc_pages a = pr_page ` set (page_records a)"

definition readable :: "'k machine \<Rightarrow> u64 \<Rightarrow> bool" where
  "readable m page \<longleftrightarrow> (\<exists>q. m_prot m page = Some q \<and> q AND PROT_READ \<noteq> 0)"

definition pages_of :: "u64 \<Rightarrow> u64 set \<Rightarrow> u64 set" where
  "pages_of P X = (\<lambda>x. ALIGN_FLOOR x P) ` X"

definition process_inv :: "u64 \<Rightarrow> ('k machine \<Rightarrow> bool) \<Rightarrow> u64 set \<Rightarrow> 'k process \<Rightarrow> bool" where
  "process_inv P good prog s \<longleftrightarrow>
     ma_inv P (alloc_pages (ps_alloc s)) (ps_alloc s) \<and> good (ps_machine s)
     \<and> pages_of P prog \<subseteq> dom (m_prot (ps_machine s))
     \<and> alloc_pages (ps_alloc s) \<inter> pages_of P prog = {}
     \<and> (\<forall>page \<in> alloc_pages (ps_alloc s). readable (ps_machine s) page)"

text \<open>Protections that differ at most in the permission to write.\<close>

definition same_but_write :: "'k machine \<Rightarrow> 'k machine \<Rightarrow> bool" where
  "same_but_write m m' \<longleftrightarrow> (\<forall>p q. m_prot m p = Some q \<longrightarrow> (\<exists>q'. m_prot m' p = Some q' \<and> q' OR PROT_WRITE = q OR PROT_WRITE))"

lemma same_but_write_readable:
  assumes "same_but_write m m'" and "readable m page"
  shows "readable m' page"
proof -
  obtain q where q: "m_prot m page = Some q" "q AND PROT_READ \<noteq> 0"
    using assms(2) by (auto simp: readable_def)
  then obtain q' where q': "m_prot m' page = Some q'" "q' OR PROT_WRITE = q OR PROT_WRITE"
    using assms(1) by (auto simp: same_but_write_def)
  have "(q OR PROT_WRITE) AND PROT_READ = q AND PROT_READ" for q
    by (simp add: prot_defs bit.conj_disj_distrib2)
  then have "q' AND PROT_READ = q AND PROT_READ"
    using q'(2) by metis
  then show ?thesis
    using q(2) q'(1) by (simp add: readable_def)
qed

lemma same_but_write_dom: "same_but_write m m' \<Longrightarrow> dom (m_prot m) \<subseteq> dom (m_prot m')"
  by (auto simp: same_but_write_def dom_def)

lemma ma_inv_own_pages: "ma_inv P mapped a \<Longrightarrow> ma_inv P (alloc_pages a) a"
  by (auto simp: ma_inv_def list_all_iff page_ok_def alloc_pages_def)

lemma ma_inv_pages: "ma_inv P mapped a \<Longrightarrow> alloc_pages a \<subseteq> mapped - {0}"
  by (auto simp: ma_inv_def list_all_iff page_ok_def alloc_pages_def)

lemma page_fresh_antimono: "page_fresh P mapped page \<Longrightarrow> mapped' \<subseteq> mapped \<Longrightarrow> page_fresh P mapped' page"
  by (auto simp: page_fresh_def)

text \<open>Every page of a patch holds one of its bytes.\<close>

lemma patch_run_bytes:
  assumes "k < 64" and "n > 0" and "unat a + n \<le> 2 ^ 64" and "p \<in> set (patch_run k a n)"
  shows "\<exists>i < n. p = ALIGN_FLOOR (a + of_nat i) (2 ^ k)"
proof -
  let ?K = "2 ^ k :: nat" and ?first = "ALIGN_FLOOR a (2 ^ k)" and ?d = "(unat a + n - 1) div 2 ^ k - unat a div 2 ^ k"
  obtain j where j: "j \<le> ?d" "p = ?first + of_nat j * 2 ^ k"
    using assms(4) by (auto simp: patch_run_def page_run_def less_Suc_eq_le simp del: upt_Suc)
  have uf: "unat ?first = unat a div ?K * ?K" and uk: "unat (2 ^ k :: u64) = ?K"
    using assms(1) by (simp_all add: ALIGN_FLOOR_unat unat_two_power)
  have up: "unat p = (unat a div ?K + j) * ?K"
    using page_run_unat[of ?first ?d "2 ^ k" j] patch_bytes_on_pages(1)[OF assms(1-3)] j uf uk by (simp add: algebra_simps)
  show ?thesis
  proof (cases "j = 0")
    case True
    then show ?thesis
      using j(2) assms(2) by (intro exI[of _ 0]) simp
  next
    case False
    have "unat a < (unat a div ?K + 1) * ?K"
      using dividend_less_div_times[of ?K "unat a"] by (simp add: algebra_simps)
    also have "\<dots> \<le> unat p"
      unfolding up using False by (intro mult_le_mono1) simp
    finally have lo: "unat a < unat p" .
    have "unat p \<le> (unat a + n - 1) div ?K * ?K"
      unfolding up using j(1) False by (intro mult_le_mono1) simp
    then have hi: "unat p \<le> unat a + n - 1"
      using div_times_less_eq_dividend[of "unat a + n - 1" ?K] by linarith
    have "a + of_nat (unat p - unat a) = p"
      using lo by (simp add: of_nat_diff)
    moreover have "ALIGN_FLOOR p (2 ^ k) = p"
      using assms(1) up by (simp add: word_unat_eq_iff ALIGN_FLOOR_unat)
    ultimately show ?thesis
      using lo hi by (intro exI[of _ "unat p - unat a"]) auto
  qed
qed

text \<open>The blocks in use and the pages they lie in.\<close>

lemma live_in_page:
  assumes "page_size_ok P" and "ma_inv P (alloc_pages a) a" and "(b, room, e) \<in> live a"
  obtains page where "page \<in> alloc_pages a" "0 < room" "b + room < 2 ^ 64" "b \<noteq> 0"
    "\<forall>i < room. ALIGN_FLOOR (of_nat b + of_nat i) P = page"
proof -
  obtain r where r: "r \<in> set (allocation_records a)" "b = unat (ar_addr r)" "room = unat (ar_size r)"
    using assms(3) by (auto simp: live_def block_of_def)
  note rp = record_in_page[OF assms(2) r(1)]
  obtain pr where "pr \<in> set (page_records a)" "pr_page pr = ar_page r"
    using rp(3) by (auto simp: alloc_pages_def)
  then have top: "unat (ar_page r) + unat P < 2 ^ 64"
    using assms(2) by (auto simp: ma_inv_def list_all_iff page_ok_def)
  have "ALIGN_FLOOR (of_nat b + of_nat i) P = ar_page r" if "i < room" for i
  proof (rule ALIGN_FLOOR_page[OF assms(1) rp(4)])
    have "unat (of_nat (b + i) :: u64) = b + i"
      using that r rp(2) top by (intro unat_of_nat_small) simp
    then show "unat (ar_page r) \<le> unat (of_nat b + of_nat i :: u64)" "unat (of_nat b + of_nat i :: u64) < unat (ar_page r) + unat P"
      using that r rp(1,2) by simp_all
  qed
  moreover have "b \<noteq> 0"
    using r(2) rp(1,7) by (metis le_zero_eq unat_eq_zero)
  ultimately show thesis
    using that[of "ar_page r"] rp(2,3,6) r top by auto
qed

section \<open>What is relied on of the system\<close>

text \<open>
  \<open>good\<close> is an invariant of the system's state.  The listing of the mappings is accurate; a new mapping is
  one page that was not mapped, and neither it nor an unmapping touches another page; \<^verbatim>\<open>mprotect\<close> does
  not fail on a mapped page outside \<open>locked\<close>; the heap does not fail.  Only pages of the program are locked.
\<close>

definition outside_page :: "u64 \<Rightarrow> u64 \<Rightarrow> 'k machine \<Rightarrow> 'k machine \<Rightarrow> bool" where
  "outside_page P page m m' \<longleftrightarrow> (\<forall>x. ALIGN_FLOOR x P \<noteq> page \<longrightarrow> m_mem m' x = m_mem m x)"

text \<open>The three permissions are the protections \<^verbatim>\<open>mprotect\<close> accepts, and those the listing shows.\<close>

definition valid_prot :: "u32 \<Rightarrow> bool" where
  "valid_prot prot \<longleftrightarrow> prot AND NOT 7 = 0"

lemma maps_valid: "page_protection_from_maps maps p = Some q \<Longrightarrow> valid_prot q \<and> valid_prot (q OR PROT_WRITE)"
proof -
  have v: "valid_prot (prot_of_perm perm) \<and> valid_prot (prot_of_perm perm OR PROT_WRITE)" for perm
    by (simp add: prot_of_perm_def valid_prot_def prot_defs Let_def)
  have "find_page ls p = Some q \<Longrightarrow> valid_prot q \<and> valid_prot (q OR PROT_WRITE)" for ls
    by (induction ls p rule: find_page.induct) (auto simp: v split: if_splits)
  then show "page_protection_from_maps maps p = Some q \<Longrightarrow> ?thesis"
    by (auto simp: page_protection_from_maps_def split: option.splits)
qed

locale dobby_system =
  fixes sys :: "'k system" and P :: u64 and good :: "'k machine \<Rightarrow> bool" and prog locked :: "u64 set"
  assumes page_size: "page_size_ok P"
    and locked: "locked \<subseteq> pages_of P prog"
    and mprotect: "mprotect_ok P (sys_mprotect sys)"
    and mprotect_good: "good m \<Longrightarrow> good (snd (sys_mprotect sys m page P prot))"
    and mprotect_ok: "good m \<Longrightarrow> m_prot m page \<noteq> None \<Longrightarrow> page \<notin> locked \<Longrightarrow> valid_prot prot \<Longrightarrow> fst (sys_mprotect sys m page P prot) = 0"
    and store_good: "good m \<Longrightarrow> good (m\<lparr>m_mem := mem\<rparr>)"
    and new_good: "good m \<Longrightarrow> sys_new sys (m_kernel m) n = (p, k) \<Longrightarrow> good (m\<lparr>m_kernel := k\<rparr>) \<and> p \<noteq> 0"
    and delete_good: "good m \<Longrightarrow> good (m\<lparr>m_kernel := sys_delete sys (m_kernel m) p\<rparr>)"
    and maps: "good m \<Longrightarrow> unat P dvd unat p \<Longrightarrow> page_protection_from_maps (sys_maps sys m) p = m_prot m p"
    and mmap: "good m \<Longrightarrow> sys_mmap sys m 0 P 0 = (page, m') \<Longrightarrow> good m' \<and>
          (if page = - 1 then m_mem m' = m_mem m \<and> m_prot m' = m_prot m
           else page_fresh P (dom (m_prot m)) page \<and> m_prot m' = (m_prot m)(page \<mapsto> 0) \<and> outside_page P page m m')"
    and munmap: "good m \<Longrightarrow> sys_munmap sys m page P = (r, m') \<Longrightarrow> good m' \<and> outside_page P page m m'
          \<and> (m_prot m' = (m_prot m)(page := None) \<or> m_prot m' = m_prot m)"
begin

section \<open>Patching\<close>

lemma exponent:
  obtains k where "3 \<le> k" "k \<le> 30" "P = 2 ^ k" "uint P = 2 ^ k" "word_of_int (2 ^ k) = P" "unat P = 2 ^ k"
proof -
  obtain k where k: "3 \<le> k" "k \<le> 30" "P = 2 ^ k"
    using page_size by (auto simp: page_size_ok_def)
  have u: "unat P = 2 ^ k"
    unfolding k(3) using k(2) by (intro unat_two_power) simp
  then have "int (unat P) = 2 ^ k" by simp
  then have "uint P = 2 ^ k" by (simp only: of_nat_unat)
  moreover have "word_of_int (2 ^ k) = P" by (simp add: k(3))
  ultimately show thesis
    using that k u by blast
qed

lemma patch_machine_kept:
  assumes "good m" and "DobbyCodePatch (sys_mprotect sys) (uint P) (sys_maps sys m) m a (Some bs) = Some (Inr (r, m'))"
  shows "good m' \<and> same_but_write m m'"
proof -
  obtain k where k: "3 \<le> k" "k \<le> 30" "P = 2 ^ k" "uint P = 2 ^ k" "word_of_int (2 ^ k) = P" "unat P = 2 ^ k"
    by (rule exponent)
  have "\<forall>m1 p q w. good m1 \<and> same_but_write m m1 \<longrightarrow> 2 ^ k dvd unat p \<longrightarrow> page_protection_from_maps (sys_maps sys m) p = Some q \<longrightarrow>
      w \<in> {q, q OR PROT_WRITE} \<longrightarrow>
      good (snd (sys_mprotect sys m1 p (2 ^ k) w)) \<and> same_but_write m (snd (sys_mprotect sys m1 p (2 ^ k) w))"
  proof (intro allI impI conjI)
    fix m1 p q w
    assume a: "good m1 \<and> same_but_write m m1" "2 ^ k dvd unat p" "page_protection_from_maps (sys_maps sys m) p = Some q" "w \<in> {q, q OR PROT_WRITE}"
    show "good (snd (sys_mprotect sys m1 p (2 ^ k) w))"
      using mprotect_good a(1) k(3) by simp
    have "m_prot m p = Some q"
      using maps[OF assms(1)] a(2,3) k(6) by simp
    then show "same_but_write m (snd (sys_mprotect sys m1 p (2 ^ k) w))"
      using a(1,4) mprotect_frame(2)[OF mprotect, of m1 p w] k(3) by (auto simp: same_but_write_def or.assoc)
  qed
  then have "(\<lambda>m1. good m1 \<and> same_but_write m m1) m'"
    by (rule patch_keeps[where k = k]) (use assms k store_good in \<open>auto simp: same_but_write_def\<close>)
  then show ?thesis by simp
qed

lemma patch_outcome:
  assumes "process_inv P good prog s" and "process_patch sys P a bs s = (r, s')"
  shows "process_inv P good prog s' \<and> ps_alloc s' = ps_alloc s \<and> (ps_fault s \<longrightarrow> ps_fault s')
    \<and> (\<forall>page. readable (ps_machine s) page \<longrightarrow> readable (ps_machine s') page)
    \<and> (\<not> ps_fault s' \<longrightarrow> m_mem (ps_machine s') = (if r = 0 then mem_write (m_mem (ps_machine s)) a bs else m_mem (ps_machine s)))"
proof (cases "\<exists>m'. DobbyCodePatch (sys_mprotect sys) (uint P) (sys_maps sys (ps_machine s)) (ps_machine s) a (Some bs) = Some (Inr (r, m'))
    \<and> s' = s\<lparr>ps_machine := m'\<rparr>")
  case False
  then have "s' = s\<lparr>ps_fault := True\<rparr>"
    using assms(2) by (auto simp: process_patch_def split: option.splits sum.splits)
  then show ?thesis
    using assms(1) by (simp add: process_inv_def)
next
  case True
  then obtain m' where d: "DobbyCodePatch (sys_mprotect sys) (uint P) (sys_maps sys (ps_machine s)) (ps_machine s) a (Some bs) = Some (Inr (r, m'))"
    and s': "s' = s\<lparr>ps_machine := m'\<rparr>"
    by blast
  have at: "r = 0 \<and> m_mem m' = mem_write (m_mem (ps_machine s)) a bs \<or> r = -1 \<and> m_mem m' = m_mem (ps_machine s)"
    using patch_atomic[OF _ d] mprotect by simp
  have g: "good m'" "same_but_write (ps_machine s) m'"
    using patch_machine_kept[OF _ d] assms(1) by (simp_all add: process_inv_def)
  have "pages_of P prog \<subseteq> dom (m_prot m')"
    using assms(1) same_but_write_dom[OF g(2)] unfolding process_inv_def by blast
  then have "process_inv P good prog s'"
    using assms(1) g same_but_write_readable[OF g(2)] by (simp add: process_inv_def s')
  then show ?thesis
    using at s' same_but_write_readable[OF g(2)] by auto
qed

text \<open>A patch of readable pages that are not locked succeeds.\<close>

lemma patch_success:
  assumes "process_inv P good prog s" and "process_patch sys P a bs s = (r, s')" and "a \<noteq> 0" and "bs \<noteq> []"
    and "unat a + length bs < 2 ^ 64"
    and "\<forall>i < length bs. readable (ps_machine s) (ALIGN_FLOOR (a + of_nat i) P) \<and> ALIGN_FLOOR (a + of_nat i) P \<notin> locked"
  shows "r = 0 \<and> ps_fault s' = ps_fault s \<and> m_mem (ps_machine s') = mem_write (m_mem (ps_machine s)) a bs"
proof -
  let ?m = "ps_machine s"
  obtain k where k: "3 \<le> k" "k \<le> 30" "P = 2 ^ k" "uint P = 2 ^ k" "word_of_int (2 ^ k) = P" "unat P = 2 ^ k"
    by (rule exponent)
  have good: "good ?m"
    using assms(1) by (simp add: process_inv_def)
  have run: "readable ?m p \<and> p \<notin> locked \<and> 2 ^ k dvd unat p" if "p \<in> set (patch_run k a (length bs))" for p
    using patch_run_bytes[of k "length bs" a p] that assms(4-6) k(2,3) by (auto simp: ALIGN_FLOOR_unat)
  have "\<exists>m'. DobbyCodePatch (sys_mprotect sys) (2 ^ k) (sys_maps sys ?m) ?m a (Some bs) = Some (Inr (0, m'))
      \<and> m_mem m' = mem_write (m_mem ?m) a bs"
  proof (rule patch_succeeds[where J = "\<lambda>m1. good m1 \<and> same_but_write ?m m1"])
    show "\<exists>q. page_protection_from_maps (sys_maps sys ?m) p = Some q \<and> m_prot ?m p = Some q \<and> q AND PROT_READ \<noteq> 0"
      if "p \<in> set (patch_run k a (length bs))" for p
      using run[OF that] maps[OF good, of p] k(6) by (auto simp: readable_def)
    show "\<forall>m1 p q w. good m1 \<and> same_but_write ?m m1 \<longrightarrow> p \<in> set (patch_run k a (length bs)) \<longrightarrow>
        page_protection_from_maps (sys_maps sys ?m) p = Some q \<longrightarrow> w \<in> {q, q OR PROT_WRITE} \<longrightarrow>
        fst (sys_mprotect sys m1 p (2 ^ k) w) = 0 \<and> good (snd (sys_mprotect sys m1 p (2 ^ k) w)) \<and> same_but_write ?m (snd (sys_mprotect sys m1 p (2 ^ k) w))"
    proof (intro allI impI)
      fix m1 p q w
      assume a: "good m1 \<and> same_but_write ?m m1" "p \<in> set (patch_run k a (length bs))"
        "page_protection_from_maps (sys_maps sys ?m) p = Some q" "w \<in> {q, q OR PROT_WRITE}"
      have q: "m_prot ?m p = Some q"
        using maps[OF good] run[OF a(2)] a(3) k(6) by simp
      then have "m_prot m1 p \<noteq> None"
        using a(1) by (auto simp: same_but_write_def)
      then show "fst (sys_mprotect sys m1 p (2 ^ k) w) = 0 \<and> good (snd (sys_mprotect sys m1 p (2 ^ k) w)) \<and> same_but_write ?m (snd (sys_mprotect sys m1 p (2 ^ k) w))"
        using mprotect_ok[of m1 p w] mprotect_good[of m1 p w] mprotect_frame(2)[OF mprotect, of m1 p w] a(1,4) q run[OF a(2)] k(3) maps_valid[OF a(3)]
        by (auto simp: same_but_write_def or.assoc)
    qed
  qed (use assms(3-5) good store_good k mprotect in \<open>auto simp: same_but_write_def\<close>)
  then show ?thesis
    using assms(2) k(4) by (auto simp: process_patch_def)
qed

lemma patch_block_success:
  assumes "process_inv P good prog s" and "process_patch sys P a bs s = (r, s')" and "bs \<noteq> []"
    and "(unat a, room, True) \<in> live (ps_alloc s)" and "length bs \<le> room"
  shows "r = 0 \<and> ps_fault s' = ps_fault s \<and> m_mem (ps_machine s') = mem_write (m_mem (ps_machine s)) a bs"
proof -
  have inv: "ma_inv P (alloc_pages (ps_alloc s)) (ps_alloc s)"
    using assms(1) by (simp add: process_inv_def)
  obtain page where page: "page \<in> alloc_pages (ps_alloc s)" "unat a + room < 2 ^ 64" "unat a \<noteq> 0"
    "\<forall>i < room. ALIGN_FLOOR (of_nat (unat a) + of_nat i) P = page"
    by (rule live_in_page[OF page_size inv assms(4)])
  have "readable (ps_machine s) page" "page \<notin> locked"
    using assms(1) page(1) locked by (auto simp: process_inv_def)
  then show ?thesis
    using patch_success[OF assms(1,2) _ assms(3)] page assms(5) by (auto simp: unat_eq_zero)
qed

section \<open>Allocating and freeing\<close>

text \<open>A change confined to a page that holds neither code of the program nor a block.\<close>

lemma in_blocks_pages:
  assumes "ma_inv P (alloc_pages a) a" and "x \<in> in_blocks (live a)"
  shows "ALIGN_FLOOR x P \<in> alloc_pages a"
proof -
  obtain b room e i where x: "(b, room, e) \<in> live a" "i < room" "x = of_nat b + of_nat i"
    using assms(2) by (auto simp: in_blocks_def range_addrs_def)
  show ?thesis
    by (rule live_in_page[OF page_size assms(1) x(1)]) (use x in auto)
qed

lemma confined:
  assumes "outside_page P page m m'" and "page \<notin> pages_of P prog" and "ma_inv P (alloc_pages a) a" and "page \<notin> alloc_pages a"
    and "x \<in> prog \<union> in_blocks (live a)"
  shows "m_mem m' x = m_mem m x"
proof -
  have "ALIGN_FLOOR x P \<noteq> page"
    using assms(2,4,5) in_blocks_pages[OF assms(3), of x] by (auto simp: pages_of_def)
  then show ?thesis
    using assms(1) by (simp add: outside_page_def)
qed

lemma alloc_step:
  assumes "ma_inv P (alloc_pages a) a" and "page = 0 \<or> page_fresh P (alloc_pages a) page" and "allocExecBlock P page perm n a = (b, a')"
  shows "ma_inv P (alloc_pages a') a'" "alloc_pages a' \<subseteq> insert page (alloc_pages a) - {0}"
    "if rsize b = 0 then b = MemRange_empty \<and> live a' = live a
     else rsize b = n \<and> pool_take (unat n) True (live a) (unat (range_addr b)) (live a')"
proof -
  have al: "allocMemBlockLocked P page perm n True a = (b, a')"
    using assms(3) by (simp add: allocExecBlock_def)
  have inv: "ma_inv P (mapped_after a a' page (alloc_pages a)) a'"
    by (rule alloc_inv[OF page_size assms(1,2) al])
  show "ma_inv P (alloc_pages a') a'"
    by (rule ma_inv_own_pages[OF inv])
  show "alloc_pages a' \<subseteq> insert page (alloc_pages a) - {0}"
    using ma_inv_pages[OF inv] by (auto split: if_splits)
  show "if rsize b = 0 then b = MemRange_empty \<and> live a' = live a
     else rsize b = n \<and> pool_take (unat n) True (live a) (unat (range_addr b)) (live a')"
    by (rule alloc_takes[OF page_size assms(1,2) al])
qed

lemma exec_alloc_outcome:
  assumes "process_inv P good prog s" and "process_exec_alloc sys P n s = (b, s')"
  shows "process_inv P good prog s' \<and> ps_fault s' = ps_fault s
    \<and> (\<forall>x \<in> prog \<union> in_blocks (live (ps_alloc s)). m_mem (ps_machine s') x = m_mem (ps_machine s) x)
    \<and> (\<forall>p q. m_prot (ps_machine s) p = Some q \<longrightarrow> m_prot (ps_machine s') p = Some q)
    \<and> (if rsize b = 0 then b = MemRange_empty \<and> live (ps_alloc s') = live (ps_alloc s)
       else rsize b = n \<and> pool_take (unat n) True (live (ps_alloc s)) (unat (range_addr b)) (live (ps_alloc s')))"
proof -
  let ?m = "ps_machine s" and ?a = "ps_alloc s"
  have inv: "ma_inv P (alloc_pages ?a) ?a" "good ?m" "pages_of P prog \<subseteq> dom (m_prot ?m)"
      "alloc_pages ?a \<inter> pages_of P prog = {}" "\<forall>page \<in> alloc_pages ?a. readable ?m page"
    using assms(1) by (simp_all add: process_inv_def)
  have dom: "alloc_pages ?a \<subseteq> dom (m_prot ?m)"
    using inv(5) by (auto simp: readable_def)
  obtain b0 a0 where a0: "allocExecBlock P 0 False n ?a = (b0, a0)" by (cases "allocExecBlock P 0 False n ?a")
  note st0 = alloc_step[OF inv(1) _ a0, simplified]
  have inv0: "process_inv P good prog (s\<lparr>ps_alloc := a0\<rparr>)"
    using assms(1) st0(1,2) by (auto simp: process_inv_def)
  obtain res m1 where mm: "sys_mmap sys ?m 0 P 0 = (res, m1)" by (cases "sys_mmap sys ?m 0 P 0")
  note law = mmap[OF inv(2) mm]
  have al: "OSMemory_Allocate sys P kNoAccess 0 ?m = (if res = - 1 then 0 else res, m1)"
    by (simp add: OSMemory_Allocate_def GetProtectionFromMemoryPermission_def mm)
  show ?thesis
  proof (cases "rsize b0 \<noteq> 0 \<or> n = 0 \<or> n > P")
    case True
    then have "b = b0" "s' = s\<lparr>ps_alloc := a0\<rparr>"
      using assms(2) a0 by (simp_all add: process_exec_alloc_def)
    then show ?thesis using inv0 st0(3) by (simp split: if_splits)
  next
    case small: False
    show ?thesis
    proof (cases "res = - 1")
      case True
      then have "b = b0" "s' = s\<lparr>ps_alloc := a0, ps_machine := m1\<rparr>"
        using assms(2) a0 small al by (simp_all add: process_exec_alloc_def)
      moreover have "process_inv P good prog (s\<lparr>ps_alloc := a0, ps_machine := m1\<rparr>)"
        using inv0 law True by (simp add: process_inv_def readable_def)
      ultimately show ?thesis using st0(3) law True by (simp split: if_splits)
    next
      case ok: False
      then have fresh: "page_fresh P (dom (m_prot ?m)) res" "m_prot m1 = (m_prot ?m)(res \<mapsto> 0)" "outside_page P res ?m m1" "good m1"
        using law by simp_all
      then have r0: "res \<noteq> 0" "res \<notin> dom (m_prot ?m)" by (simp_all add: page_fresh_def)
      have notin: "res \<notin> alloc_pages ?a" "res \<notin> pages_of P prog" "res \<notin> locked"
        using r0(2) dom inv(3) locked by auto
      define m2 where "m2 = snd (sys_mprotect sys m1 res P 5)"
      have pm: "sys_mprotect sys m1 res P 5 = (0, m2)"
        using mprotect_ok[OF fresh(4), of res 5] fresh(2) notin(3) by (simp add: m2_def prod_eq_iff valid_prot_def)
      have m2: "good m2" "m_mem m2 = m_mem m1" "m_prot m2 = (m_prot ?m)(res \<mapsto> 5)"
        using mprotect_good[OF fresh(4), of res 5] mprotect_frame[OF mprotect, of m1 res 5] pm fresh(2) by simp_all
      obtain b1 a1 where a1: "allocExecBlock P res True n ?a = (b1, a1)" by (cases "allocExecBlock P res True n ?a")
      note st1 = alloc_step[OF inv(1) disjI2[OF page_fresh_antimono[OF fresh(1) dom]] a1]
      have res: "b = b1" "s' = s\<lparr>ps_alloc := a1, ps_machine := m2\<rparr>"
        using assms(2) a0 a1 small al ok r0(1) pm
        by (simp_all add: process_exec_alloc_def OSMemory_SetPermission_def GetProtectionFromMemoryPermission_def prot_defs)
      have "readable m2 page" if "page \<in> alloc_pages a1" for page
        using st1(2) that inv(5) notin(1) m2(3) by (auto simp: readable_def prot_defs)
      then have "process_inv P good prog s'"
        using res(2) st1(1,2) m2(1,3) inv(3,4) notin(2) by (auto simp: process_inv_def)
      moreover have "\<forall>x \<in> prog \<union> in_blocks (live ?a). m_mem m2 x = m_mem ?m x"
        using confined[OF fresh(3) notin(2) inv(1) notin(1)] m2(2) by simp
      moreover have "\<forall>p q. m_prot ?m p = Some q \<longrightarrow> m_prot m2 p = Some q"
        using m2(3) r0(2) by auto
      ultimately show ?thesis
        using res st1(3) by (simp split: if_splits)
    qed
  qed
qed

lemma exec_free_outcome:
  assumes "process_inv P good prog s" and s'_def: "s' = process_exec_free sys P b s"
  shows "process_inv P good prog s' \<and> ps_fault s' = ps_fault s
    \<and> (\<forall>x \<in> prog \<union> in_blocks (live (ps_alloc s')). m_mem (ps_machine s') x = m_mem (ps_machine s) x)
    \<and> live (ps_alloc s') = (if range_addr b = 0 \<or> rsize b = 0 then live (ps_alloc s)
         else pool_give (unat (range_addr b)) True (live (ps_alloc s)))"
proof -
  let ?m = "ps_machine s" and ?a = "ps_alloc s"
  have inv: "ma_inv P (alloc_pages ?a) ?a" "good ?m" "pages_of P prog \<subseteq> dom (m_prot ?m)"
      "alloc_pages ?a \<inter> pages_of P prog = {}" "\<forall>page \<in> alloc_pages ?a. readable ?m page"
    using assms(1) by (simp_all add: process_inv_def)
  obtain freed a' where fr: "freeMemBlockLocked P b True ?a = (freed, a')" by (cases "freeMemBlockLocked P b True ?a")
  have inv': "ma_inv P (case freed of None \<Rightarrow> alloc_pages ?a | Some page \<Rightarrow> alloc_pages ?a - {page}) a'"
    by (rule free_inv[OF page_size inv(1) fr])
  note own = ma_inv_own_pages[OF inv'] and pages = ma_inv_pages[OF inv']
  note gives = free_gives[OF page_size inv(1) fr]
  show ?thesis
  proof (cases freed)
    case None
    then have "s' = s\<lparr>ps_alloc := a'\<rparr>"
      using fr by (simp add: s'_def process_exec_free_def freeExecBlock_def)
    moreover have "process_inv P good prog (s\<lparr>ps_alloc := a'\<rparr>)"
      using assms(1) own pages None by (auto simp: process_inv_def)
    ultimately show ?thesis using gives by simp
  next
    case (Some page)
    have page: "page \<in> alloc_pages ?a"
      by (cases rule: free_inv_cases[OF page_size inv(1) fr]) (use Some in \<open>auto simp: alloc_pages_def\<close>)
    obtain r m' where u: "sys_munmap sys ?m page P = (r, m')" by (cases "sys_munmap sys ?m page P")
    note law = munmap[OF inv(2) u]
    have s': "s' = s\<lparr>ps_alloc := a', ps_machine := m'\<rparr>"
      using fr Some u by (simp add: s'_def process_exec_free_def freeExecBlock_def OSMemory_Free_def)
    have notin: "page \<notin> pages_of P prog" "page \<notin> alloc_pages a'"
      using page inv(4) pages Some by auto
    have prot: "m_prot m' p = m_prot ?m p" if "p \<noteq> page" for p
      using law that by auto
    have "readable m' p" if "p \<in> alloc_pages a'" for p
    proof -
      have "p \<in> alloc_pages ?a" "p \<noteq> page"
        using pages Some that by auto
      then show ?thesis
        using inv(5) prot by (simp add: readable_def)
    qed
    moreover have "p \<in> dom (m_prot m')" if "p \<in> pages_of P prog" for p
      using that inv(3) notin(1) prot[of p] by (cases "p = page") auto
    ultimately have "process_inv P good prog s'"
      using s' own pages Some inv(4) law by (auto simp: process_inv_def)
    moreover have "\<forall>x \<in> prog \<union> in_blocks (live a'). m_mem m' x = m_mem ?m x"
      using confined[OF _ notin(1) own notin(2)] law by blast
    ultimately show ?thesis
      using s' gives by simp
  qed
qed

end

section \<open>The engine keeps the laws\<close>

lemma process_engine_simps [simp]:
  "eng_mem (process_engine sys P) s = m_mem (ps_machine s)"
  "eng_patch (process_engine sys P) s a bs = process_patch sys P a bs s"
  "eng_exec_alloc (process_engine sys P) s n = process_exec_alloc sys P n s"
  "eng_exec_free (process_engine sys P) s b = process_exec_free sys P b s"
  "eng_new (process_engine sys P) s n =
     (fst (sys_new sys (m_kernel (ps_machine s)) n), s\<lparr>ps_machine := (ps_machine s)\<lparr>m_kernel := snd (sys_new sys (m_kernel (ps_machine s)) n)\<rparr>\<rparr>)"
  "eng_delete (process_engine sys P) s p = s\<lparr>ps_machine := (ps_machine s)\<lparr>m_kernel := sys_delete sys (m_kernel (ps_machine s)) p\<rparr>\<rparr>"
  by (simp_all add: process_engine_def split_def Let_def)

lemma process_inv_kernel:
  "process_inv P good prog s \<Longrightarrow> good ((ps_machine s)\<lparr>m_kernel := k\<rparr>) \<Longrightarrow>
     process_inv P good prog (s\<lparr>ps_machine := (ps_machine s)\<lparr>m_kernel := k\<rparr>\<rparr>)"
  by (simp add: process_inv_def readable_def)

sublocale dobby_system \<subseteq> hook_environment "process_engine sys P" "process_inv P good prog" "\<lambda>s. \<not> ps_fault s"
  "\<lambda>s. live (ps_alloc s)" prog
proof (unfold_locales, goal_cases)
  case (1 s start room e)
  then show ?case
    using live_in_page[OF page_size, of "ps_alloc s" start room e] unfolding process_inv_def by blast
next
  case (2 s)
  then show ?case
    using in_blocks_pages[of "ps_alloc s"] by (fastforce simp: process_inv_def pages_of_def)
next
  case (3 s a bs r s')
  then show ?case using patch_outcome[of s a bs r s'] by auto
next
  case (4 s a room bs r s')
  then show ?case
    using patch_outcome[of s a bs r s'] patch_block_success[of s a bs r s' room] by auto
next
  case (5 s n b s')
  then show ?case using exec_alloc_outcome[of s n b s'] by (simp split: if_splits)
next
  case (6 s b s')
  then show ?case using exec_free_outcome[of s s' b] by simp
next
  case (7 s n p s')
  then have "good (ps_machine s)" by (simp add: process_inv_def)
  from new_good[OF this surjective_pairing, of n] 7 show ?case
    by (auto simp: process_inv_kernel)
next
  case (8 s p s')
  then have "good (ps_machine s)" by (simp add: process_inv_def)
  from delete_good[OF this, of p] 8 show ?case
    by (auto simp: process_inv_kernel)
qed

section \<open>Where hooks succeed\<close>

text \<open>
  A system on which the code of the program can be made writable, with pages of at least 128 bytes; \<open>room\<close>
  says that the next page asked for is given.
\<close>

locale dobby_system_live = dobby_system +
  fixes room :: "'a machine \<Rightarrow> bool"
  assumes unlocked: "locked = {}" and page_large: "128 \<le> unat P"
    and room_gives: "good m \<Longrightarrow> room m \<Longrightarrow> fst (sys_mmap sys m 0 P 0) \<noteq> - 1"
    and room_new: "good m \<Longrightarrow> room m \<Longrightarrow> room (m\<lparr>m_kernel := snd (sys_new sys (m_kernel m) n)\<rparr>)"
begin

lemma exec_alloc_gives:
  assumes "process_inv P good prog s" and "room (ps_machine s)" and "0 < unat n" and "unat n \<le> 128"
    and "process_exec_alloc sys P n s = (b, s')"
  shows "rsize b = n"
proof -
  let ?m = "ps_machine s" and ?a = "ps_alloc s"
  have inv: "ma_inv P (alloc_pages ?a) ?a" "good ?m" "pages_of P prog \<subseteq> dom (m_prot ?m)" "\<forall>page \<in> alloc_pages ?a. readable ?m page"
    using assms(1) by (simp_all add: process_inv_def)
  have n: "n \<noteq> 0" "n \<le> P"
    using assms(3,4) page_large by (auto simp: word_le_nat_alt)
  obtain b0 a0 where a0: "allocExecBlock P 0 False n ?a = (b0, a0)" by (cases "allocExecBlock P 0 False n ?a")
  obtain res m1 where mm: "sys_mmap sys ?m 0 P 0 = (res, m1)" by (cases "sys_mmap sys ?m 0 P 0")
  have r1: "res \<noteq> - 1"
    using room_gives[OF inv(2) assms(2)] mm by simp
  then have fresh: "page_fresh P (dom (m_prot ?m)) res" "m_prot m1 = (m_prot ?m)(res \<mapsto> 0)" "good m1"
    using mmap[OF inv(2) mm] by simp_all
  then have fr: "page_fresh P (alloc_pages ?a) res" and r0: "res \<noteq> 0"
    using inv(4) by (auto simp: page_fresh_def readable_def)
  obtain m2 where pm: "sys_mprotect sys m1 res P 5 = (0, m2)"
    using mprotect_ok[OF fresh(3), of res 5] fresh(2) unlocked by (cases "sys_mprotect sys m1 res P 5") (simp add: valid_prot_def)
  obtain b1 a1 where a1: "allocExecBlock P res True n ?a = (b1, a1)" by (cases "allocExecBlock P res True n ?a")
  have "rsize b1 = n"
    using alloc_succeeds[OF page_size inv(1) fr _ n] a1 by (simp add: allocExecBlock_def)
  moreover have "rsize b0 \<noteq> 0 \<Longrightarrow> rsize b0 = n"
    using alloc_step(3)[OF inv(1) _ a0] by (simp split: if_splits)
  ultimately show ?thesis
    using assms(5) a0 a1 mm r1 r0 pm n
    by (auto simp: process_exec_alloc_def OSMemory_Allocate_def OSMemory_SetPermission_def GetProtectionFromMemoryPermission_def
        prot_defs not_less split: if_splits)
qed

end

definition code_readable :: "u64 \<Rightarrow> u64 set \<Rightarrow> 'k process \<Rightarrow> bool" where
  "code_readable P prog s \<longleftrightarrow> (\<forall>page \<in> pages_of P prog. readable (ps_machine s) page)"

sublocale dobby_system_live \<subseteq> hook_environment_live "process_engine sys P" "process_inv P good prog" "\<lambda>s. \<not> ps_fault s"
  "\<lambda>s. live (ps_alloc s)" prog "code_readable P prog" "\<lambda>s. room (ps_machine s)"
proof (unfold_locales, goal_cases)
  case (1 s a bs r s')
  then have "\<forall>i < length bs. readable (ps_machine s) (ALIGN_FLOOR (a + of_nat i) P)"
    by (force simp: code_readable_def pages_of_def range_addrs_def)
  then show ?case
    using 1 patch_success[of s a bs r s'] patch_outcome[of s a bs r s'] unlocked by (auto simp: code_readable_def)
next
  case (2 s a room bs r s')
  then show ?case using patch_outcome[of s a bs r s'] by (auto simp: code_readable_def)
next
  case (3 s n b s')
  then show ?case using exec_alloc_outcome[of s n b s'] by (fastforce simp: code_readable_def readable_def)
next
  case (4 s n p s')
  then show ?case by (auto simp: code_readable_def readable_def)
next
  case (5 s n p s')
  then show ?case using room_new by (auto simp: process_inv_def)
next
  case (6 s n b s')
  then show ?case using exec_alloc_gives by auto
qed

abbreviation hook_mem :: "'k process hook_state \<Rightarrow> 64 mem" where
  "hook_mem st \<equiv> m_mem (ps_machine (hk_env st))"

abbreviation hook_blocks :: "'k process hook_state \<Rightarrow> block set" where
  "hook_blocks st \<equiv> live (ps_alloc (hk_env st))"

text \<open>The two contracts, as facts about every such system.\<close>

context dobby_system
begin

lemma process_environment:
  "hook_environment (process_engine sys P) (process_inv P good prog) (\<lambda>s. \<not> ps_fault s) (\<lambda>s. live (ps_alloc s)) prog"
  by (rule hook_environment_axioms)

end

context dobby_system_live
begin

lemma process_environment_live:
  "hook_environment_live (process_engine sys P) (process_inv P good prog) (\<lambda>s. \<not> ps_fault s) (\<lambda>s. live (ps_alloc s)) prog
     (code_readable P prog) (\<lambda>s. room (ps_machine s))"
  by (rule hook_environment_live_axioms)

text \<open>A hook that is wanted gets installed, and taking it off again leaves the process as it was.\<close>

lemma hook_works:
  assumes "process_inv P good prog (hk_env st)" and "\<not> ps_fault (hk_env st)" and "a \<noteq> 0" and "to \<noteq> 0"
    and "find_entry a (hk_entries st) = None" and "arm_thumb_fix_addr a = a" and "range_addrs a 16 \<subseteq> prog" and "unat a + 16 < 2 ^ 64"
    and "ALIGN_FLOOR to 0x1000 - ALIGN_FLOOR a 0x1000 \<noteq> 0x100000000" and "relocatable (hook_mem st) a 4"
    and "code_readable P prog (hk_env st)" and "room (ps_machine (hk_env st))"
  shows "\<exists>orig h st' e. DobbyHookEx (process_engine sys P) False a to oo oh st = Some (Inr (0, orig, h, st'))
    \<and> process_inv P good prog (hk_env st') \<and> \<not> ps_fault (hk_env st') \<and> code_readable P prog (hk_env st')
    \<and> hk_entries st' = hk_entries st @ [e] \<and> hook_installed prog a to (hook_mem st) (hook_blocks st) (hook_mem st') (hook_blocks st') e"
proof -
  obtain orig h st' where c: "DobbyHookEx (process_engine sys P) False a to oo oh st = Some (Inr (0, orig, h, st'))"
      "\<not> ps_fault (hk_env st')" "code_readable P prog (hk_env st')"
    using hook_succeeds[OF assms(1-9) _ assms(11,12), of oo oh] assms(10) by auto
  then show ?thesis
    using hook_outcome[OF assms(1,6,7,9) c(1)] by auto
qed

lemma hook_unhook:
  assumes "process_inv P good prog (hk_env st)" and "process_inv P good prog (hk_env st')" and "\<not> ps_fault (hk_env st')"
    and "code_readable P prog (hk_env st')" and "a \<noteq> 0" and "range_addrs a 16 \<subseteq> prog" and "unat a + 16 < 2 ^ 64"
    and "find_entry a (hk_entries st) = None" and "hk_entries st' = hk_entries st @ [e]"
    and "hook_installed prog a to (hook_mem st) (hook_blocks st) (hook_mem st') (hook_blocks st') e"
    and "delete_entry (process_engine sys P) e (hk_handles st') (hk_env st') = (hs, s)"
  shows "remove_entry a (hk_entries st') = (Some e, hk_entries st) \<and> process_inv P good prog s \<and> \<not> ps_fault s
    \<and> live (ps_alloc s) = hook_blocks st \<and> (\<forall>x \<in> prog \<union> in_blocks (hook_blocks st). m_mem (ps_machine s) x = hook_mem st x)"
proof -
  have "range_addr (ent_patched e) = a"
    using hook_installedD[OF assms(10)] by auto
  then have "remove_entry a (hk_entries st') = (Some e, hk_entries st)"
    using remove_added[OF assms(8)] assms(9) by simp
  then show ?thesis
    using unhook_restores[OF assms(1-3,5-7) _ assms(11,4)] assms(10) by simp
qed

end

section \<open>A small system\<close>

text \<open>
  A machine with one page of code, at \<^verbatim>\<open>0x1000\<close>, and room for one more page, at \<^verbatim>\<open>0x10000\<close>; the laws
  are consistent because it keeps them.
\<close>

definition perm_letters :: "u32 \<Rightarrow> string" where
  "perm_letters q = [if q AND PROT_READ \<noteq> 0 then CHR ''r'' else CHR ''-'', if q AND PROT_WRITE \<noteq> 0 then CHR ''w'' else CHR ''-'',
     if q AND PROT_EXEC \<noteq> 0 then CHR ''x'' else CHR ''-'', CHR ''p'']"

definition small_line :: "unit machine \<Rightarrow> u64 \<Rightarrow> (u64 \<times> u64 \<times> string) option" where
  "small_line m page = map_option (\<lambda>q. (page, page + 0x1000, perm_letters q)) (m_prot m page)"

definition small_system :: "unit system" where
  "small_system =
     \<lparr>sys_mprotect = (\<lambda>m page len prot. if m_prot m page \<noteq> None \<and> valid_prot prot
        then (0, m\<lparr>m_prot := (m_prot m)(page \<mapsto> prot)\<rparr>) else (-1, m)),
      sys_mmap = (\<lambda>m fixed len prot. if m_prot m 0x10000 = None
        then (0x10000, m\<lparr>m_prot := (m_prot m)(0x10000 \<mapsto> prot)\<rparr>) else (- 1, m)),
      sys_munmap = (\<lambda>m page len. (0, m\<lparr>m_prot := (m_prot m)(page := None)\<rparr>)),
      sys_maps = (\<lambda>m. Some [small_line m 0x1000, small_line m 0x10000]),
      sys_layout = (\<lambda>_. []), sys_custom_near = None, sys_new = (\<lambda>k _. (0x700000, k)), sys_delete = (\<lambda>k _. k)\<rparr>"

definition small_good :: "unit machine \<Rightarrow> bool" where
  "small_good m \<longleftrightarrow> dom (m_prot m) \<subseteq> {0x1000, 0x10000} \<and> (\<forall>q \<in> ran (m_prot m). valid_prot q)"

definition small_prog :: "u64 set" where
  "small_prog = {x. ALIGN_FLOOR x 0x1000 = 0x1000}"

definition small_room :: "unit machine \<Rightarrow> bool" where
  "small_room m \<longleftrightarrow> m_prot m 0x10000 = None"

lemma small_good_update:
  assumes "small_good m" and "p = 0x10000 \<or> v = None" and "pred_option valid_prot v"
  shows "small_good (m\<lparr>m_prot := (m_prot m)(p := v)\<rparr>)"
proof -
  have "x \<in> {0x1000, 0x10000}" "valid_prot y" if "m_prot m x = Some y" for x y
    using assms(1) that by (auto simp: small_good_def ran_def)
  then show ?thesis
    using assms(2,3) by (fastforce simp: small_good_def ran_def)
qed

lemma valid_prot_cases: "valid_prot q \<longleftrightarrow> q \<in> {0, 1, 2, 3, 4, 5, 6, 7}"
proof
  assume "valid_prot q"
  moreover have "(q AND 7) OR (q AND NOT 7) = q"
    by (simp flip: bit.conj_disj_distrib)
  ultimately have "q = take_bit 3 q"
    by (simp add: valid_prot_def take_bit_eq_mask mask_eq_exp_minus_1)
  then have "unat q = take_bit 3 (unat q)"
    by (metis unsigned_take_bit_eq)
  then have "unat q < 2 ^ 3"
    by (metis take_bit_nat_less_exp)
  then have "unat q \<in> {0, 1, 2, 3, 4, 5, 6, 7}" by auto
  then show "q \<in> {0, 1, 2, 3, 4, 5, 6, 7}"
    by (auto simp: word_unat_eq_iff)
qed (auto simp: valid_prot_def)

lemma valid_prot_letters: "valid_prot q \<Longrightarrow> prot_of_perm (perm_letters q) = q"
  unfolding valid_prot_cases by (auto simp: perm_letters_def prot_of_perm_def perm_at_def prot_defs Let_def)

lemma small_line_page:
  assumes "unat (0x1000 :: u64) dvd unat p" and "page \<in> {0x1000, 0x10000 :: u64}"
  shows "page \<le> p \<and> p < page + 0x1000 \<longleftrightarrow> p = page"
proof -
  have "unat page + 0x1000 \<le> unat p \<or> unat p + 0x1000 \<le> unat page" if "p \<noteq> page"
    using pages_apart[of "0x1000 :: u64" page p] assms that by auto
  moreover have "unat (page + 0x1000) = unat page + 0x1000"
    using assms(2) by auto
  ultimately show ?thesis
    by (cases "p = page") (auto simp: word_le_nat_alt word_less_nat_alt)
qed

lemma small_maps:
  assumes "small_good m" and "unat (0x1000 :: u64) dvd unat p"
  shows "page_protection_from_maps (sys_maps small_system m) p = m_prot m p"
proof -
  have v: "m_prot m x = Some q \<Longrightarrow> prot_of_perm (perm_letters q) = q" for x q
    using assms(1) valid_prot_letters by (auto simp: small_good_def ran_def)
  have out: "m_prot m p = None" if "p \<noteq> 0x1000" "p \<noteq> 0x10000"
    using assms(1) that by (auto simp: small_good_def)
  show ?thesis
    using small_line_page[OF assms(2), of "0x1000"] small_line_page[OF assms(2), of "0x10000"] v out
    by (cases "m_prot m 0x1000"; cases "m_prot m 0x10000")
      (auto simp: page_protection_from_maps_def small_system_def small_line_def)
qed

interpretation small: dobby_system_live small_system "0x1000" small_good small_prog "{}" small_room
proof (unfold_locales, goal_cases)
  case 1
  show ?case by (rule demo_page(1))
next
  case 3
  show ?case by (auto simp: mprotect_ok_def small_system_def)
next
  case (4 m page prot)
  then show ?case by (auto simp: small_system_def small_good_def ran_def)
next
  case (5 m page prot)
  then show ?case by (simp add: small_system_def)
next
  case (6 m mem)
  then show ?case by (simp add: small_good_def)
next
  case (7 m n p k)
  then show ?case by (simp add: small_system_def small_good_def)
next
  case (8 m p)
  then show ?case by (simp add: small_good_def)
next
  case (9 m p)
  then show ?case by (rule small_maps)
next
  case (10 m page m')
  show ?case
    using 10 small_good_update[OF 10(1), of page "Some 0"]
    by (auto simp: small_system_def outside_page_def valid_prot_def page_fresh_def dom_def split: if_splits)
next
  case (11 m page r m')
  then show ?case
    using small_good_update[OF 11(1), of page None] by (auto simp: small_system_def outside_page_def)
next
  case (14 m)
  then show ?case by (simp add: small_system_def small_room_def)
next
  case (15 m n)
  then show ?case by (simp add: small_room_def)
qed simp_all

text \<open>A process of that system: one page of code, all zero, readable and executable.\<close>

definition small_process :: "unit process" where
  "small_process = \<lparr>ps_machine = \<lparr>m_mem = (\<lambda>_. 0), m_prot = [0x1000 \<mapsto> 5], m_kernel = ()\<rparr>,
     ps_alloc = MemoryAllocator_new, ps_near = NearMemoryAllocator_new, ps_fault = False\<rparr>"

definition small_start :: "unit process hook_state" where
  "small_start = \<lparr>hk_env = small_process, hk_next_entry_id = 1, hk_entries = [], hk_handles = [], hk_records = []\<rparr>"

lemma small_pages: "pages_of 0x1000 small_prog \<subseteq> {0x1000}"
  by (auto simp: pages_of_def small_prog_def)

lemma small_process_inv: "process_inv 0x1000 small_good small_prog small_process"
  using small_pages
  by (auto simp: process_inv_def small_process_def ma_inv_def alloc_pages_def MemoryAllocator_new_def small_good_def valid_prot_def)

lemma small_process_ready: "code_readable 0x1000 small_prog small_process" "small_room (ps_machine small_process)"
  using small_pages by (auto simp: code_readable_def small_process_def readable_def small_room_def prot_defs)

lemma small_target:
  "range_addrs 0x1100 16 \<subseteq> small_prog" "arm_thumb_fix_addr 0x1100 = 0x1100"
  "relocatable (m_mem (ps_machine small_process)) 0x1100 4"
proof -
  show "range_addrs 0x1100 16 \<subseteq> small_prog"
    by (auto simp: range_addrs_def small_prog_def ALIGN_FLOOR_def lessThan_nat_numeral lessThan_Suc numeral_eq_Suc)
  show "arm_thumb_fix_addr 0x1100 = 0x1100"
    by (simp add: arm_thumb_fix_addr_def)
  have "mem_read (\<lambda>_. 0) x 4 = [0, 0, 0, 0 :: u8]" for x :: u64
    by (simp add: numeral_eq_Suc)
  then show "relocatable (m_mem (ps_machine small_process)) 0x1100 4"
    by (simp add: relocatable_def small_process_def inst_is_ldr_literal_def)
qed

end
