(* ===== verification/Hook_Session.thy ===== *)
theory Hook_Session
  imports Hook_Routing_Proofs
begin

text \<open>
  Several hooks after one another: the states a client reaches by calling \<^verbatim>\<open>DobbyHookEx\<close> on targets
  that do not overlap, and the invariant that every hook that has been installed stays in force.
\<close>

section \<open>Sessions\<close>

text \<open>
  \<open>hook_session eng ok st T st'\<close>: from \<open>st\<close> the calls that returned, some with an error, led to \<open>st'\<close>;
  \<open>T\<close> are their targets.  \<open>ok\<close> says which pairs of target and replacement are passed and which states
  of the engine a call can return in.  The targets lie in the program; a call that faults does not return.
\<close>

definition admissible :: "u64 set \<Rightarrow> ('s \<Rightarrow> bool) \<Rightarrow> addr_t \<Rightarrow> addr_t \<Rightarrow> 's \<Rightarrow> bool" where
  "admissible prog alive a to s \<longleftrightarrow> alive s \<and> arm_thumb_fix_addr a = a \<and> range_addrs a 16 \<subseteq> prog
     \<and> ALIGN_FLOOR to 0x1000 - ALIGN_FLOOR a 0x1000 \<noteq> 0x100000000"

inductive hook_session ::
  "'s tramp_engine \<Rightarrow> (addr_t \<Rightarrow> addr_t \<Rightarrow> 's \<Rightarrow> bool) \<Rightarrow> 's hook_state \<Rightarrow> addr_t set \<Rightarrow> 's hook_state \<Rightarrow> bool"
  for eng ok st where
  session_start: "hook_session eng ok st {} st"
| session_hook: "hook_session eng ok st T st1 \<Longrightarrow> \<forall>b \<in> T. range_addrs a 16 \<inter> range_addrs b 16 = {} \<Longrightarrow>
    DobbyHookEx eng False a to oo oh st1 = Some (Inr (ret, orig, h, st2)) \<Longrightarrow> ok a to (hk_env st2) \<Longrightarrow>
    hook_session eng ok st (insert a T) st2"

section \<open>Hooks in force\<close>

text \<open>
  An entry's hook is in force in memory \<open>m\<close>: its target jumps to the replacement, and its relocated code
  does what the first instructions of the target did in \<open>m0\<close>.
\<close>

definition in_force :: "64 mem \<Rightarrow> 64 mem \<Rightarrow> block set \<Rightarrow> Entry \<Rightarrow> bool" where
  "in_force m0 m L e \<longleftrightarrow>
     (\<exists>n tcode start room code. n \<in> {3, 4} \<and> ent_patched e = MemRange_new (ent_addr e) (of_nat (4 * n))
        \<and> ent_relocated e = MemRange_new start (of_nat (length code))
        \<and> length tcode = 4 * n \<and> bytes_at m (ent_addr e) tcode \<and> jumps_to (ent_addr e) tcode (ent_fake_func_addr e)
        \<and> (unat start, room, True) \<in> L \<and> length code \<le> room \<and> bytes_at m start code
        \<and> acts_as_original m0 (ent_addr e) n start code)"

lemma acts_as_original_cong:
  assumes "acts_as_original m a n start code" and "\<forall>x \<in> range_addrs a (4 * n). m' x = m x"
  shows "acts_as_original m' a n start code"
proof -
  have same: "mem_read m' (a + of_nat (4 * j)) 4 = mem_read m (a + of_nat (4 * j)) 4" if "j < n" for j
  proof (rule mem_read_cong)
    fix x assume "x \<in> range_addrs (a + of_nat (4 * j)) 4"
    then have "x \<in> range_addrs a (4 * n)"
      using that range_addrs_sub[of "4 * j" 4 "4 * n" a] by auto
    then show "m' x = m x" using assms(2) by simp
  qed
  from assms(1) show ?thesis
    unfolding acts_as_original_def Let_def by (elim exE, intro exI) (use same in fastforce)
qed

lemma in_force_kept:
  assumes "in_force m0 m L e" and "L \<subseteq> L'" and "\<forall>x \<in> range_addrs (ent_addr e) 16 \<union> in_blocks L. m' x = m x"
  shows "in_force m0 m' L' e"
proof -
  obtain n tcode start room and code :: "u8 list" where f: "n \<in> {3, 4}" "ent_patched e = MemRange_new (ent_addr e) (of_nat (4 * n))"
      "ent_relocated e = MemRange_new start (of_nat (length code))" "length tcode = 4 * n" "bytes_at m (ent_addr e) tcode"
      "jumps_to (ent_addr e) tcode (ent_fake_func_addr e)" "(unat start, room, True) \<in> L" "length code \<le> room" "bytes_at m start code"
      "acts_as_original m0 (ent_addr e) n start code"
    using assms(1) unfolding in_force_def by (elim exE conjE)
  have "range_addrs (ent_addr e) (length tcode) \<subseteq> range_addrs (ent_addr e) 16"
    using f(1,4) by (intro range_addrs_mono) auto
  then have t: "bytes_at m' (ent_addr e) tcode"
    using bytes_at_cong[OF f(5)] assms(3) by blast
  have "range_addrs start (length code) \<subseteq> range_addrs (of_nat (unat start)) room"
    using range_addrs_mono[OF f(8), of start] by simp
  then have "range_addrs start (length code) \<subseteq> in_blocks L"
    using f(7) unfolding in_blocks_def by blast
  then have "bytes_at m' start code"
    using bytes_at_cong[OF f(9)] assms(3) by blast
  then show ?thesis
    unfolding in_force_def using f t assms(2) by blast
qed

lemma installed_in_force:
  assumes "hook_installed prog a to m L m' L' e" and "\<forall>x \<in> range_addrs a 16. m0 x = m x"
  shows "in_force m0 m' L' e \<and> ent_addr e = a \<and> L \<subseteq> L' \<and> (\<forall>x \<in> prog \<union> in_blocks L - range_addrs a 16. m' x = m x)"
proof -
  obtain n q tcode start and code :: "u8 list" where h: "n \<in> {3, 4}" "ent_addr e = a" "ent_fake_func_addr e = to"
      "ent_patched e = MemRange_new a (of_nat (4 * n))" "ent_relocated e = MemRange_new start (of_nat (length code))"
      "length tcode = 4 * n" "bytes_at m' a tcode" "jumps_to a tcode to" "bytes_at m' start code" "acts_as_original m a n start code"
      "pool_take (length code) True L (unat start) L'" "\<forall>x \<in> prog \<union> in_blocks L - range_addrs a (4 * n). m' x = m x"
    using assms(1) unfolding hook_installed_def by (elim exE conjE)
  have sub: "range_addrs a (4 * n) \<subseteq> range_addrs a 16"
    using h(1) by (intro range_addrs_mono) auto
  obtain room where "length code \<le> room" "L' = insert (unat start, room, True) L"
    using h(11) by (auto simp: pool_take_def)
  moreover have "acts_as_original m0 a n start code"
    using acts_as_original_cong[OF h(10)] assms(2) sub by blast
  ultimately show ?thesis
    unfolding in_force_def using h(1-9,12) sub by blast
qed

context hook_environment
begin

text \<open>One call: what was in force stays so, and a new entry is in force.\<close>

lemma call_in_force:
  assumes "inv (hk_env st)" and "admissible prog alive a to (hk_env st')"
    and "DobbyHookEx eng False a to oo oh st = Some (Inr (ret, orig, h, st'))"
    and "\<forall>x \<in> range_addrs a 16. m0 x = eng_mem eng (hk_env st) x"
  shows "inv (hk_env st') \<and> blocks (hk_env st) \<subseteq> blocks (hk_env st')
    \<and> (\<forall>x \<in> prog \<union> in_blocks (blocks (hk_env st)) - range_addrs a 16. eng_mem eng (hk_env st') x = eng_mem eng (hk_env st) x)
    \<and> (\<exists>es. hk_entries st' = hk_entries st @ es \<and>
          (\<forall>e \<in> set es. ent_addr e = a \<and> in_force m0 (eng_mem eng (hk_env st')) (blocks (hk_env st')) e))"
proof -
  have ok: "alive (hk_env st')" "arm_thumb_fix_addr a = a" "range_addrs a 16 \<subseteq> prog"
      "ALIGN_FLOOR to 0x1000 - ALIGN_FLOOR a 0x1000 \<noteq> 0x100000000"
    using assms(2) by (simp_all add: admissible_def)
  from hook_outcome[OF assms(1) ok(2-4) assms(3) ok(1)] show ?thesis
  proof (elim disjE conjE exE)
    assume "refused st st'"
    then show ?thesis
      using ok(1) by (auto simp: refused_def kept_def)
  next
    fix e assume e: "inv (hk_env st')" "hk_entries st' = hk_entries st @ [e]"
      "hook_installed prog a to (eng_mem eng (hk_env st)) (blocks (hk_env st)) (eng_mem eng (hk_env st')) (blocks (hk_env st')) e"
    then show ?thesis
      using installed_in_force[OF e(3) assms(4)] by auto
  qed
qed

lemma session_in_force:
  assumes "hook_session eng (admissible prog alive) st T st'" and "inv (hk_env st)"
  shows "inv (hk_env st') \<and> blocks (hk_env st) \<subseteq> blocks (hk_env st')
    \<and> (\<forall>x \<in> prog \<union> in_blocks (blocks (hk_env st)) - (\<Union>b \<in> T. range_addrs b 16).
         eng_mem eng (hk_env st') x = eng_mem eng (hk_env st) x)
    \<and> (\<exists>es. hk_entries st' = hk_entries st @ es \<and>
          (\<forall>e \<in> set es. ent_addr e \<in> T \<and> range_addrs (ent_addr e) 16 \<subseteq> prog
             \<and> in_force (eng_mem eng (hk_env st)) (eng_mem eng (hk_env st')) (blocks (hk_env st')) e))"
  using assms
proof (induction rule: hook_session.induct)
  case session_start
  then show ?case by simp
next
  case (session_hook T st1 a to oo oh ret orig h st2)
  let ?m = "\<lambda>st. eng_mem eng (hk_env st)" and ?L = "\<lambda>st. blocks (hk_env st)"
  obtain es where IH: "inv (hk_env st1)" "?L st \<subseteq> ?L st1"
      "\<forall>x \<in> prog \<union> in_blocks (?L st) - (\<Union>b \<in> T. range_addrs b 16). ?m st1 x = ?m st x"
      "hk_entries st1 = hk_entries st @ es"
      "\<forall>e \<in> set es. ent_addr e \<in> T \<and> range_addrs (ent_addr e) 16 \<subseteq> prog \<and> in_force (?m st) (?m st1) (?L st1) e"
    using session_hook.IH session_hook.prems by auto
  have a: "range_addrs a 16 \<subseteq> prog" "range_addrs a 16 \<inter> (\<Union>b \<in> T. range_addrs b 16) = {}"
    using session_hook.hyps by (auto simp: admissible_def)
  then have sub: "range_addrs a 16 \<subseteq> prog \<union> in_blocks (?L st) - (\<Union>b \<in> T. range_addrs b 16)"
    by blast
  have "\<forall>x \<in> range_addrs a 16. ?m st x = ?m st1 x"
    by (intro ballI bspec[OF IH(3), symmetric] subsetD[OF sub])
  from call_in_force[OF IH(1) session_hook.hyps(4,3) this] obtain es' where step: "inv (hk_env st2)" "?L st1 \<subseteq> ?L st2"
      "\<forall>x \<in> prog \<union> in_blocks (?L st1) - range_addrs a 16. ?m st2 x = ?m st1 x" "hk_entries st2 = hk_entries st1 @ es'"
      "\<forall>e \<in> set es'. ent_addr e = a \<and> in_force (?m st) (?m st2) (?L st2) e"
    by auto
  have apart: "in_blocks (?L st1) \<inter> range_addrs a 16 = {}"
    using blocks_prog[OF IH(1)] a(1) by blast
  have "in_force (?m st) (?m st2) (?L st2) e" if "e \<in> set es" for e
  proof (rule in_force_kept[OF _ step(2)])
    show "in_force (?m st) (?m st1) (?L st1) e" using IH(5) that by blast
    have "range_addrs (ent_addr e) 16 \<subseteq> prog - range_addrs a 16"
      using IH(5) that a(2) by blast
    then show "\<forall>x \<in> range_addrs (ent_addr e) 16 \<union> in_blocks (?L st1). ?m st2 x = ?m st1 x"
      using step(3) apart by blast
  qed
  then have "\<forall>e \<in> set (es @ es'). ent_addr e \<in> insert a T \<and> range_addrs (ent_addr e) 16 \<subseteq> prog \<and> in_force (?m st) (?m st2) (?L st2) e"
    using IH(5) step(5) a(1) by auto
  moreover have "?m st2 x = ?m st x" if x: "x \<in> prog \<union> in_blocks (?L st) - (\<Union>b \<in> insert a T. range_addrs b 16)" for x
  proof -
    have "x \<in> prog \<union> in_blocks (?L st1) - range_addrs a 16"
      using x in_blocks_mono[OF IH(2)] by auto
    then show ?thesis using step(3) IH(3) x by auto
  qed
  ultimately show ?case
    using step(1,2,4) IH(2,4) by (intro conjI exI[of _ "es @ es'"]) auto
qed

end

end
