(* ===== verification/Arm32_Process.thy ===== *)
theory Arm32_Process
  imports Code_Patch
begin

text \<open>
  The process the library of \<^verbatim>\<open>src/src\<close> runs in, the one \<^verbatim>\<open>CMakeLists.txt\<close> builds: 32-bit
  addresses, pages of 4 KiB with protections, and the calls to the system as parameters; the memory tools of
  \<^verbatim>\<open>src/src/util.cpp\<close>, the page names and head snapshots of \<^verbatim>\<open>src/src/stealth.cpp\<close>, the events of
  \<^verbatim>\<open>src/src/events.cpp\<close>; and the few instructions the hooks emit, as the architecture defines them.
  An access to a page without the permission ends the process.  Flushing the instruction cache is not
  visible in the model, which has no cache.
\<close>

section \<open>Memory and system calls\<close>

record 'k mach32 =
  p_mem :: "32 mem"
  p_prot :: "u32 \<Rightarrow> u32 option"
  p_kernel :: 'k

text \<open>
  \<^verbatim>\<open>mprotect\<close> and \<^verbatim>\<open>munmap\<close> take an address and a length and return 0 when they succeed;
  \<^verbatim>\<open>mmap\<close> takes the length and the protection of an anonymous private mapping and gives its address
  unless it fails; \<^verbatim>\<open>prctl\<close> names an anonymous mapping.
\<close>

record 'k os32 =
  os32_mprotect :: "'k mach32 \<Rightarrow> u32 \<Rightarrow> u32 \<Rightarrow> u32 \<Rightarrow> int \<times> 'k mach32"
  os32_mmap :: "'k mach32 \<Rightarrow> u32 \<Rightarrow> u32 \<Rightarrow> u32 option \<times> 'k mach32"
  os32_munmap :: "'k mach32 \<Rightarrow> u32 \<Rightarrow> u32 \<Rightarrow> int \<times> 'k mach32"
  os32_name :: "'k mach32 \<Rightarrow> u32 \<Rightarrow> u32 \<Rightarrow> string \<Rightarrow> int \<times> 'k mach32"

definition page32 :: "u32 \<Rightarrow> u32" where
  "page32 a = ALIGN_FLOOR a 0x1000"

definition permits :: "u32 \<Rightarrow> 'k mach32 \<Rightarrow> u32 \<Rightarrow> nat \<Rightarrow> bool" where
  "permits perm m a n \<longleftrightarrow>
     list_all (\<lambda>i. case p_prot m (page32 (a + of_nat i)) of None \<Rightarrow> False | Some q \<Rightarrow> q AND perm \<noteq> 0) [0..<n]"

definition load32 :: "'k mach32 \<Rightarrow> u32 \<Rightarrow> nat \<Rightarrow> u8 list result" where
  "load32 m a n = (if permits PROT_READ m a n then Inr (mem_read (p_mem m) a n) else Inl OutOfBounds)"

definition store32 :: "'k mach32 \<Rightarrow> u32 \<Rightarrow> u8 list \<Rightarrow> 'k mach32 result" where
  "store32 m a bs =
     (if permits PROT_WRITE m a (length bs) then Inr (m\<lparr>p_mem := mem_write (p_mem m) a bs\<rparr>) else Inl OutOfBounds)"

section \<open>The memory tools\<close>

definition Util_Protect :: "'k os32 \<Rightarrow> u32 \<Rightarrow> u32 \<Rightarrow> u32 \<Rightarrow> 'k mach32 \<Rightarrow> int \<times> 'k mach32" where
  "Util_Protect os addr len prot m =
     (let pg = addr AND NOT 0xFFF;
          plen = (addr + len - pg + 0xFFF) AND NOT 0xFFF
      in os32_mprotect os m pg plen prot)"

text \<open>The bytes are read from their source when they are copied, after the first change of protection.\<close>

definition Util_Write ::
  "'k os32 \<Rightarrow> u32 \<Rightarrow> ('k mach32 \<Rightarrow> u8 list result) \<Rightarrow> nat \<Rightarrow> 'k mach32 \<Rightarrow> (int \<times> 'k mach32) result" where
  "Util_Write os addr buf len m =
     (let (r, m) = Util_Protect os addr (of_nat len) (PROT_READ OR PROT_WRITE) m
      in if r \<noteq> 0 then Inr (-1, m)
         else sbind (buf m) (\<lambda>bytes.
              sbind (store32 m addr bytes) (\<lambda>m.
                Inr (0, snd (Util_Protect os addr (of_nat len) (PROT_READ OR PROT_EXEC) m)))))"

definition Util_Read :: "u32 \<Rightarrow> nat \<Rightarrow> 'k mach32 \<Rightarrow> u8 list result" where
  "Util_Read addr len m = load32 m addr len"

text \<open>The loops of \<^verbatim>\<open>Util::Nop\<close>: \<open>n\<close> more instructions are written, whatever the writes return.\<close>

fun nop_loop :: "'k os32 \<Rightarrow> u8 list \<Rightarrow> u32 \<Rightarrow> nat \<Rightarrow> 'k mach32 \<Rightarrow> 'k mach32 result" where
  "nop_loop os nop a 0 m = Inr m"
| "nop_loop os nop a (Suc n) m =
     sbind (Util_Write os a (\<lambda>_. Inr nop) (length nop) m) (\<lambda>(_, m). nop_loop os nop (a + of_nat (length nop)) n m)"

definition Util_Nop :: "'k os32 \<Rightarrow> u32 \<Rightarrow> nat \<Rightarrow> 'k mach32 \<Rightarrow> 'k mach32 result" where
  "Util_Nop os addr len m =
     (if addr AND 1 \<noteq> 0 then nop_loop os (le_bytes 2 (0x46C0 :: u16)) (addr - 1) (len div 2) m
      else nop_loop os (le_bytes 4 (0xE1A00000 :: u32)) addr (len div 4) m)"

section \<open>Page names and snapshots\<close>

definition DisguisePage :: "'k os32 \<Rightarrow> u32 \<Rightarrow> u32 \<Rightarrow> 'k mach32 \<Rightarrow> bool \<times> 'k mach32" where
  "DisguisePage os page_addr len m =
     (if page_addr = 0 \<or> len = 0 then (False, m)
      else let kCamouflageNames = [''libc_malloc'', ''scudo:secondary'', ''libc'', ''ld-android'', ''libart''];
               name = kCamouflageNames ! (unat page_addr mod length kCamouflageNames);
               (rc, m) = os32_name os m page_addr len name
           in (rc = 0, m))"

text \<open>The state of the generator is passed in and returned.\<close>

definition RandomizeJump :: "u32 \<Rightarrow> u32 \<Rightarrow> u32 \<Rightarrow> u32 \<Rightarrow> u32 \<times> u32" where
  "RandomizeJump s preferred from to =
     (let h = from XOR to;
          s = s XOR push_bit 13 s;
          s = s XOR drop_bit 17 s;
          s = s XOR push_bit 5 s
      in (if s mod 3 = 0 then preferred
          else if s mod 3 = 1 then 0xe51ff004
          else 0xe1a0f000 OR (drop_bit 4 h AND 0xf), s))"

definition SnapshotIntegrity :: "u32 \<Rightarrow> u32 \<Rightarrow> (u32 \<times> u32) list \<Rightarrow> (u32 \<times> u32) list" where
  "SnapshotIntegrity addr installed_head g = (if length g < 64 then g @ [(addr, installed_head)] else g)"

fun VerifyIntegrity :: "u32 \<Rightarrow> (u32 \<times> u32) list \<Rightarrow> 'k mach32 \<Rightarrow> bool result" where
  "VerifyIntegrity addr [] m = Inr True"
| "VerifyIntegrity addr ((a, installed_head) # g) m =
     (if a = addr then sbind (load32 m addr 4) (\<lambda>now. Inr (le_word now = installed_head))
      else VerifyIntegrity addr g m)"

section \<open>Status and events\<close>

datatype DobbyStatus =
  DOBBY_OK | DOBBY_ERR_INVALID | DOBBY_ERR_NOT_FOUND | DOBBY_ERR_ALREADY | DOBBY_ERR_FAILED | DOBBY_ERR_UNSUPPORTED

record DobbyHookEvent =
  ev_target :: u32
  ev_replace :: u32
  ev_origin :: u32
  ev_lib :: "string option"
  ev_symbol :: "string option"
  ev_status :: int

text \<open>The events the callback has got are kept in order; without a callback nothing is sent.\<close>

definition EmitEvent :: "bool \<Rightarrow> DobbyHookEvent \<Rightarrow> DobbyHookEvent list \<Rightarrow> DobbyHookEvent list" where
  "EmitEvent g_ev_cb ev sent = (if g_ev_cb then sent @ [ev] else sent)"

section \<open>Instructions\<close>

text \<open>
  The architecture's view.  A32 \<^verbatim>\<open>LDR PC, [PC, #-imm12]\<close>, always executed: the value that is
  loaded and branched to; bit 0 of it selects the instruction set.
\<close>

definition a32_ldr_pc :: "32 mem \<Rightarrow> u32 \<Rightarrow> u32 option" where
  "a32_ldr_pc m a =
     (let i = le_word (mem_read m a 4) :: u32
      in if i AND 0xFFFFF000 = 0xE51FF000 then Some (le_word (mem_read m (ALIGN_FLOOR (a + 8) 4 - (i AND 0xFFF)) 4)) else None)"

text \<open>T32 \<^verbatim>\<open>LDR.W Rt, [PC, #imm12]\<close>, with a positive offset: the register and the offset.\<close>

definition t32_ldr_literal :: "u16 \<Rightarrow> u16 \<Rightarrow> (u16 \<times> u16) option" where
  "t32_ldr_literal hw hw2 = (if hw = 0xF8DF then Some (drop_bit 12 hw2, hw2 AND 0xFFF) else None)"

text \<open>T32 \<^verbatim>\<open>BL\<close> and \<^verbatim>\<open>BLX\<close> with an immediate: whether the instruction set changes, and the offset.\<close>

definition t32_bl :: "u32 \<Rightarrow> u32 \<Rightarrow> (bool \<times> u32) option" where
  "t32_bl hw hw2 =
     (if hw AND 0xF800 = 0xF000 \<and> hw2 AND 0xC000 = 0xC000
      then let i1 = NOT (drop_bit 13 hw2 XOR drop_bit 10 hw) AND 1;
               i2 = NOT (drop_bit 11 hw2 XOR drop_bit 10 hw) AND 1;
               imm = push_bit 24 (drop_bit 10 hw AND 1) OR push_bit 23 i1 OR push_bit 22 i2
                       OR push_bit 12 (hw AND 0x3FF) OR push_bit 1 (hw2 AND 0x7FF)
           in Some (\<not> bit hw2 12, signed_take_bit 24 imm)
      else None)"

end
