(* ===== verification/Arm32_Hooker.thy ===== *)
theory Arm32_Hooker
  imports Arm32_Process
begin

text \<open>
  \<^verbatim>\<open>src/src/hooker.cpp\<close>: inline hooks of 32-bit ARM functions, in ARM and in Thumb state, and the table
  of hooks.  The table is an array with a counter; the list holds the entries below the counter.
\<close>

section \<open>State\<close>

record HookSlot =
  hs_target :: u32
  hs_replace :: u32
  hs_trampoline :: u32
  hs_head_len :: u32

record 'k hooker =
  v_mach :: "'k mach32"
  v_slots :: "HookSlot list"
  v_integrity :: "(u32 \<times> u32) list"
  v_event_cb :: bool
  v_events :: "DobbyHookEvent list"

text \<open>The position of the first element that satisfies a test, and of the first entry for a target; none for -1.\<close>

fun find_pos :: "('a \<Rightarrow> bool) \<Rightarrow> 'a list \<Rightarrow> nat option" where
  "find_pos P [] = None"
| "find_pos P (x # xs) = (if P x then Some 0 else map_option Suc (find_pos P xs))"

definition FindSlot :: "u32 \<Rightarrow> HookSlot list \<Rightarrow> nat option" where
  "FindSlot target slots = find_pos (\<lambda>s. hs_target s = target) slots"

text \<open>\<^verbatim>\<open>g[i] = g[--count]\<close>.\<close>

definition swap_remove :: "nat \<Rightarrow> 'a list \<Rightarrow> 'a list" where
  "swap_remove i xs = butlast (xs[i := last xs])"

section \<open>Relocating Thumb code\<close>

text \<open>The offset of a branch with link, as both places of the sources compute it.\<close>

definition thumb_bl_offset :: "u32 \<Rightarrow> u32 \<Rightarrow> u32" where
  "thumb_bl_offset hw hw2 =
     (let S = drop_bit 10 hw AND 1; imm10 = hw AND 0x3FF;
          J1 = drop_bit 13 hw2 AND 1; J2 = drop_bit 11 hw2 AND 1; imm11 = hw2 AND 0x7FF;
          I1 = 1 - (J1 XOR S); I2 = 1 - (J2 XOR S);
          off = push_bit 24 S OR push_bit 23 I1 OR push_bit 22 I2 OR push_bit 12 imm10 OR push_bit 1 imm11
      in if off AND 0x800000 \<noteq> 0 then off - 0x1000000 else off)"

definition halfword :: "u8 list \<Rightarrow> nat \<Rightarrow> u32" where
  "halfword src i = le_word (take 2 (drop i src))"

definition put_halfword :: "nat \<Rightarrow> u32 \<Rightarrow> u8 list \<Rightarrow> u8 list" where
  "put_halfword i hw dst = take i dst @ le_bytes 2 hw @ drop (i + 2) dst"

text \<open>One instruction that looks like a branch with link: the two halfwords written, or none when too far.\<close>

definition relocate_bl :: "u32 \<Rightarrow> u32 \<Rightarrow> u32 \<Rightarrow> u32 \<Rightarrow> (u32 \<times> u32) option" where
  "relocate_bl hw hw2 src_at dst_at =
     (let is_blx = (hw2 AND 0x2800 = 0x2800);
          off = thumb_bl_offset hw hw2;
          old_target = src_at + 4 + off;
          old_target = (if is_blx then old_target AND NOT 3 else old_target);
          new_off = old_target - (dst_at + 4);
          new_off = (if is_blx then new_off AND NOT 3 else new_off)
      in if sint new_off > 0x7FFFFF \<or> sint new_off < - 0x800000 then None
         else let nS = drop_bit 24 new_off AND 1;
                  nI1 = drop_bit 23 new_off AND 1; nI2 = drop_bit 22 new_off AND 1;
                  nimm10 = drop_bit 12 new_off AND 0x3FF; nimm11 = drop_bit 1 new_off AND 0x7FF
              in Some (0xF000 OR push_bit 10 nS OR nimm10,
                       (if is_blx then 0xC000 else 0xD000) OR push_bit 13 nI1 OR push_bit 11 nI2 OR nimm11))"

text \<open>The loop of \<^verbatim>\<open>RelocateThumb\<close> from halfword \<open>i\<close> on; \<open>dst\<close> is what has been written so far.\<close>

function relocate_thumb_loop :: "nat \<Rightarrow> u8 list \<Rightarrow> u32 \<Rightarrow> u32 \<Rightarrow> u8 list \<Rightarrow> bool \<times> u8 list" where
  "relocate_thumb_loop i src src_pc dst_pc dst =
     (if i + 4 \<le> length src
      then let hw = halfword src i; hw2 = halfword src (i + 2)
           in if hw AND 0xF800 = 0xF000 \<and> hw2 AND 0x2800 \<in> {0, 0x2800}
              then case relocate_bl hw hw2 (src_pc + of_nat i) (dst_pc + of_nat i) of
                     None \<Rightarrow> (False, dst)
                   | Some (nh, nh2) \<Rightarrow>
                       relocate_thumb_loop (i + 4) src src_pc dst_pc (put_halfword (i + 2) nh2 (put_halfword i nh dst))
              else relocate_thumb_loop (i + 2) src src_pc dst_pc dst
      else (True, dst))"
  by pat_completeness auto
termination
  by (relation "measure (\<lambda>(i, src, _). length src - i)") auto

definition RelocateThumb :: "u8 list \<Rightarrow> u32 \<Rightarrow> u32 \<Rightarrow> bool \<times> u8 list" where
  "RelocateThumb src src_pc dst_pc = relocate_thumb_loop 0 src src_pc dst_pc src"

section \<open>Hooking\<close>

text \<open>
  Both branches map a page for the trampoline and name it.  \<open>with_trampoline\<close> is this common beginning;
  \<open>redirect\<close> is the common end: make the head writable, overwrite it, take the snapshot, add the entry.
\<close>

definition with_trampoline ::
  "'k os32 \<Rightarrow> 'k hooker \<Rightarrow> (u32 \<Rightarrow> 'k mach32 \<Rightarrow> (DobbyStatus \<times> u32 option \<times> 'k hooker) result) \<Rightarrow>
     (DobbyStatus \<times> u32 option \<times> 'k hooker) result" where
  "with_trampoline os st f =
     (case os32_mmap os (v_mach st) 0x1000 (PROT_READ OR PROT_WRITE OR PROT_EXEC) of
        (None, m) \<Rightarrow> Inr (DOBBY_ERR_FAILED, None, st\<lparr>v_mach := m\<rparr>)
      | (Some tramp, m) \<Rightarrow> f tramp (snd (DisguisePage os tramp 0x1000 m)))"

definition redirect ::
  "'k os32 \<Rightarrow> u32 \<Rightarrow> u32 \<Rightarrow> u32 \<Rightarrow> u32 \<Rightarrow> u8 list \<Rightarrow> 'k mach32 \<Rightarrow> 'k hooker \<Rightarrow> (DobbyStatus \<times> 'k hooker) result" where
  "redirect os target fn replace tramp head m st =
     (let (r, m) = Util_Protect os fn 8 (PROT_READ OR PROT_WRITE OR PROT_EXEC) m
      in if r \<noteq> 0 then Inr (DOBBY_ERR_FAILED, st\<lparr>v_mach := snd (os32_munmap os m tramp 0x1000)\<rparr>)
         else sbind (store32 m fn (take 4 head)) (\<lambda>m.
              sbind (store32 m (fn + 4) (drop 4 head)) (\<lambda>m.
              sbind (load32 m tramp 4) (\<lambda>w.
                Inr (DOBBY_OK, st\<lparr>v_mach := m, v_integrity := SnapshotIntegrity target (le_word w) (v_integrity st),
                       v_slots := v_slots st @ [\<lparr>hs_target = target, hs_replace = replace, hs_trampoline = tramp, hs_head_len = 8\<rparr>]\<rparr>)))))"

definition hook_arm :: "'k os32 \<Rightarrow> u32 \<Rightarrow> u32 \<Rightarrow> bool \<Rightarrow> 'k hooker \<Rightarrow> (DobbyStatus \<times> u32 option \<times> 'k hooker) result" where
  "hook_arm os target replace want_origin st =
     with_trampoline os st (\<lambda>tramp m.
       sbind (load32 m target 8) (\<lambda>head.
       sbind (store32 m tramp head) (\<lambda>m.
       sbind (store32 m (tramp + 8) (le_bytes 4 (0xE51FF004 :: u32))) (\<lambda>m.
       sbind (store32 m (tramp + 12) (le_bytes 4 (target + 8))) (\<lambda>m.
       sbind (redirect os target target replace tramp (le_bytes 4 (0xE51FF004 :: u32) @ le_bytes 4 replace) m st) (\<lambda>(status, st).
         Inr (status, if status = DOBBY_OK \<and> want_origin then Some tramp else None, st)))))))"

definition hook_thumb :: "'k os32 \<Rightarrow> u32 \<Rightarrow> u32 \<Rightarrow> bool \<Rightarrow> 'k hooker \<Rightarrow> (DobbyStatus \<times> u32 option \<times> 'k hooker) result" where
  "hook_thumb os target replace want_origin st =
     (let fn = target - 1
      in with_trampoline os st (\<lambda>tramp m.
         sbind (load32 m fn 8) (\<lambda>src.
         let (ok, dst) = RelocateThumb src (fn + 4) (tramp + 4)
         in sbind (store32 m tramp dst) (\<lambda>m.
            if \<not> ok then Inr (DOBBY_ERR_UNSUPPORTED, None, st\<lparr>v_mach := snd (os32_munmap os m tramp 0x1000)\<rparr>)
            else
            sbind (store32 m (tramp + 8) (le_bytes 2 (0xF8DF :: u16) @ le_bytes 2 (0 :: u16))) (\<lambda>m.
            sbind (store32 m (tramp + 12) (le_bytes 4 (fn + 8 + 1))) (\<lambda>m.
            sbind (redirect os target fn replace tramp
                     (le_bytes 2 (0xF8DF :: u16) @ le_bytes 2 (0 :: u16) @ le_bytes 4 (replace OR 1)) m st) (\<lambda>(status, st).
              if status \<noteq> DOBBY_OK then Inr (status, None, st)
              else let origin = (if want_origin then Some (tramp OR 1) else None);
                       ev = \<lparr>ev_target = target, ev_replace = replace, ev_origin = (case origin of None \<Rightarrow> 0 | Some p \<Rightarrow> p),
                             ev_lib = None, ev_symbol = None, ev_status = 0\<rparr>
                   in Inr (DOBBY_OK, origin, st\<lparr>v_events := EmitEvent (v_event_cb st) ev (v_events st)\<rparr>))))))))"

text \<open>The result: the status, what is stored through \<^verbatim>\<open>origin\<close> when it is not null, and the state.\<close>

definition Hooker_Hook :: "'k os32 \<Rightarrow> u32 \<Rightarrow> u32 \<Rightarrow> bool \<Rightarrow> 'k hooker \<Rightarrow> (DobbyStatus \<times> u32 option \<times> 'k hooker) result" where
  "Hooker_Hook os target replace want_origin st =
     (if target = 0 \<or> replace = 0 then Inr (DOBBY_ERR_INVALID, None, st)
      else if FindSlot target (v_slots st) \<noteq> None then Inr (DOBBY_ERR_ALREADY, None, st)
      else if length (v_slots st) \<ge> 128 then Inr (DOBBY_ERR_FAILED, None, st)
      else if target AND 1 = 0 then hook_arm os target replace want_origin st
      else hook_thumb os target replace want_origin st)"

definition Hooker_Unhook :: "'k os32 \<Rightarrow> u32 \<Rightarrow> 'k hooker \<Rightarrow> (DobbyStatus \<times> 'k hooker) result" where
  "Hooker_Unhook os target st =
     (case FindSlot target (v_slots st) of
        None \<Rightarrow> Inr (DOBBY_ERR_NOT_FOUND, st)
      | Some i \<Rightarrow>
          let s = v_slots st ! i; fn = target AND NOT 1
          in sbind (Util_Write os fn (\<lambda>m. load32 m (hs_trampoline s) 8) 8 (v_mach st)) (\<lambda>(_, m).
               let m = snd (os32_munmap os m (hs_trampoline s) 0x1000);
                   ev = \<lparr>ev_target = target, ev_replace = 0, ev_origin = 0, ev_lib = None, ev_symbol = None, ev_status = 0\<rparr>
               in Inr (DOBBY_OK, st\<lparr>v_mach := m, v_slots := swap_remove i (v_slots st),
                                    v_events := EmitEvent (v_event_cb st) ev (v_events st)\<rparr>)))"

definition Hooker_IsHooked :: "u32 \<Rightarrow> 'k hooker \<Rightarrow> bool" where
  "Hooker_IsHooked target st \<longleftrightarrow> FindSlot target (v_slots st) \<noteq> None"

definition Hooker_Count :: "'k hooker \<Rightarrow> nat" where
  "Hooker_Count st = length (v_slots st)"

end
