(* ===== verification/Arm32_Hooker_Proofs.thy ===== *)
theory Arm32_Hooker_Proofs
  imports Arm32_Hooker
begin

text \<open>
  What inline hooks of \<^verbatim>\<open>src/src/hooker.cpp\<close> guarantee, on systems whose calls behave as documented: in ARM
  state a hook redirects its target and removing it restores the target; in Thumb state the code written
  does not jump.
\<close>

section \<open>Accesses\<close>

lemma permits_iff:
  "permits perm m a n \<longleftrightarrow> (\<forall>x \<in> range_addrs a n. \<exists>q. p_prot m (page32 x) = Some q \<and> q AND perm \<noteq> 0)"
  unfolding permits_def list_all_iff range_addrs_def by (fastforce split: option.splits)

lemma load32_eq_Inr: "load32 m a n = Inr bs \<longleftrightarrow> permits PROT_READ m a n \<and> bs = mem_read (p_mem m) a n"
  by (auto simp: load32_def)

lemma store32_eq_Inr:
  "store32 m a bs = Inr m' \<longleftrightarrow> permits PROT_WRITE m a (length bs) \<and> m' = m\<lparr>p_mem := mem_write (p_mem m) a bs\<rparr>"
  by (auto simp: store32_def)

section \<open>Pages\<close>

definition pages32 :: "u32 \<Rightarrow> nat \<Rightarrow> u32 set" where
  "pages32 a n = page32 ` range_addrs a n"

lemma unat_add_of_nat: "unat (p + of_nat k :: u32) = (unat p + k) mod 2 ^ 32"
  by (simp add: unat_word_ariths unat_of_nat mod_add_right_eq)

lemma unat_page32: "unat (page32 w) = unat w div 4096 * 4096"
  using ALIGN_FLOOR_unat[of 12 w] by (simp add: page32_def)

lemma page32_add:
  assumes "page32 p = p"
  shows "page32 (p + of_nat j) = p + of_nat (j div 4096 * 4096)"
proof -
  obtain q where q: "unat p = 4096 * q"
    using unat_page32[of p] assms by (metis mult.commute)
  have d: "(unat p + j) div 4096 = q + j div 4096" "unat p + j div 4096 * 4096 = (q + j div 4096) * 4096"
    by (simp_all add: q)
  have m: "x mod 2 ^ 32 div 4096 = x div 4096 mod 2 ^ 20" for x :: nat
    using div_exp_mod_exp_eq[of x 12 20] by simp
  have "unat (page32 (p + of_nat j)) = (q + j div 4096) mod 2 ^ 20 * 4096"
    by (simp only: unat_page32 unat_add_of_nat m d(1))
  also have "\<dots> = (q + j div 4096) * 4096 mod (2 ^ 20 * 4096)"
    by (rule mult_mod_left)
  also have "\<dots> = (unat p + j div 4096 * 4096) mod 2 ^ 32"
    by (simp only: d(2)) simp
  also have "\<dots> = unat (p + of_nat (j div 4096 * 4096))"
    by (rule unat_add_of_nat[symmetric])
  finally show ?thesis by (simp only: word_unat_eq_iff)
qed

lemma page32_idem [simp]: "page32 (page32 a) = page32 a"
  by (simp add: page32_def ALIGN_FLOOR_def)

lemma page32_offset: "a = page32 a + of_nat (unat a mod 4096)"
proof -
  have "unat a div 4096 * 4096 + unat a mod 4096 = unat a" by simp
  then have "unat (page32 a + of_nat (unat a mod 4096)) = unat a mod 2 ^ 32"
    by (simp only: unat_add_of_nat unat_page32)
  then show ?thesis
    using unat_less_exp[of a] by (simp add: word_unat_eq_iff)
qed

text \<open>The pages of a range are those of the aligned range around it, which \<^verbatim>\<open>Util::Protect\<close> passes on.\<close>

lemma pages32_eq:
  assumes "0 < n"
  shows "pages32 a n = (\<lambda>k. page32 a + of_nat (k * 4096)) ` {..(unat a mod 4096 + n - 1) div 4096}"
proof -
  let ?o = "unat a mod 4096"
  have p: "page32 (a + of_nat i) = page32 a + of_nat ((?o + i) div 4096 * 4096)" for i
  proof -
    have "a + of_nat i = page32 a + of_nat (?o + i)"
      by (subst page32_offset[of a]) (simp only: of_nat_add add.assoc)
    then show ?thesis
      using page32_add[of "page32 a" "?o + i"] by (simp only: page32_idem)
  qed
  have "pages32 a n = (\<lambda>k. page32 a + of_nat (k * 4096)) ` ((\<lambda>i. (?o + i) div 4096) ` {..<n})"
    by (simp only: pages32_def range_addrs_def image_image p)
  moreover have "(\<lambda>i. (?o + i) div 4096) ` {..<n} = {..(?o + n - 1) div 4096}"
  proof (intro set_eqI iffI)
    fix k assume "k \<in> (\<lambda>i. (?o + i) div 4096) ` {..<n}"
    then obtain i where "i < n" "k = (?o + i) div 4096" by auto
    then show "k \<in> {..(?o + n - 1) div 4096}" by (auto intro!: div_le_mono)
  next
    fix k assume k: "k \<in> {..(?o + n - 1) div 4096}"
    then have "k * 4096 \<le> ?o + n - 1"
      by (metis atMost_iff div_le_mono div_times_less_eq_dividend le_trans mult_le_mono1)
    moreover have "?o < 4096" by simp
    ultimately show "k \<in> (\<lambda>i. (?o + i) div 4096) ` {..<n}"
      using assms by (intro image_eqI[of _ _ "k * 4096 - ?o"]) (cases "k = 0"; simp)+
  qed
  ultimately show ?thesis by simp
qed

lemma protect_pages:
  assumes "0 < n" and "n \<le> 2 ^ 16"
  shows "pages32 (a AND NOT 0xFFF) (unat ((a + of_nat n - (a AND NOT 0xFFF) + 0xFFF) AND NOT 0xFFF)) = pages32 a n"
proof -
  let ?o = "unat a mod 4096"
  have pg: "x AND NOT 0xFFF = page32 x" for x :: u32
    by (simp add: page32_def ALIGN_FLOOR_def)
  have "a - page32 a = of_nat ?o"
    using page32_offset[of a] by (simp only: diff_eq_eq add.commute)
  then have d: "a + of_nat n - page32 a + 0xFFF = of_nat (4095 + (?o + n))"
    by (simp add: algebra_simps)
  have "4095 + (?o + n) < 2 ^ 32"
    using assms(2) mod_less_divisor[of 4096 "unat a"] by simp
  then have l: "unat (page32 (of_nat (4095 + (?o + n)))) = (4095 + (?o + n)) div 4096 * 4096"
    by (subst unat_page32, subst unat_of_nat_small) simp_all
  have s: "(4095 + (?o + n)) div 4096 = Suc ((?o + n - 1) div 4096)"
    using assms(1) div_add_self2[of 4096 "?o + n - 1"] by simp
  have "unat (page32 a) mod 4096 = 0" by (simp add: unat_page32)
  then have "pages32 (page32 a) ((4095 + (?o + n)) div 4096 * 4096) = pages32 a n"
    using pages32_eq[of "(4095 + (?o + n)) div 4096 * 4096" "page32 a"] pages32_eq[OF assms(1), of a] s by simp
  then show ?thesis
    unfolding pg d l .
qed

text \<open>A range whose pages are all mapped.\<close>

definition mapped32 :: "'k mach32 \<Rightarrow> u32 \<Rightarrow> nat \<Rightarrow> bool" where
  "mapped32 m a n \<longleftrightarrow> (\<forall>p \<in> pages32 a n. p_prot m p \<noteq> None)"

lemma mapped32_addr: "mapped32 m a n \<longleftrightarrow> (\<forall>x \<in> range_addrs a n. p_prot m (page32 x) \<noteq> None)"
  by (simp add: mapped32_def pages32_def)

section \<open>The system\<close>

text \<open>
  What the manual pages say of the calls: a protection that is set holds for the pages of the range, a new
  mapping lies where nothing was mapped, and removing or naming a mapping leaves the rest of memory alone.
\<close>

locale linux32 =
  fixes os :: "'k os32"
  assumes mprotect: "os32_mprotect os m a n q = (r, m') \<Longrightarrow> p_mem m' = p_mem m \<and>
      (r = 0 \<longrightarrow> p_prot m' = (\<lambda>p. if p \<in> pages32 a (unat n) then Some q else p_prot m p))"
    and mmap_none: "os32_mmap os m n q = (None, m') \<Longrightarrow> p_mem m' = p_mem m \<and> p_prot m' = p_prot m"
    and mmap_some: "os32_mmap os m n q = (Some a, m') \<Longrightarrow> page32 a = a \<and> (\<forall>p \<in> pages32 a (unat n). p_prot m p = None)
      \<and> p_prot m' = (\<lambda>p. if p \<in> pages32 a (unat n) then Some q else p_prot m p)
      \<and> (\<forall>x. x \<notin> range_addrs a (unat n) \<longrightarrow> p_mem m' x = p_mem m x)"
    and munmap: "os32_munmap os m a n = (r, m') \<Longrightarrow> (\<forall>x. x \<notin> range_addrs a (unat n) \<longrightarrow> p_mem m' x = p_mem m x)"
    and name: "os32_name os m a n nm = (r, m') \<Longrightarrow> p_mem m' = p_mem m \<and> p_prot m' = p_prot m"
begin

lemma protect_mem: "Util_Protect os a n q m = (r, m') \<Longrightarrow> p_mem m' = p_mem m"
  using mprotect by (simp add: Util_Protect_def Let_def)

lemma protect_prot:
  assumes "Util_Protect os a (of_nat n) q m = (0, m')" and "0 < n" and "n \<le> 2 ^ 16"
  shows "p_prot m' = (\<lambda>p. if p \<in> pages32 a n then Some q else p_prot m p)"
  using mprotect[of m _ _ q 0 m'] assms(1) protect_pages[OF assms(2,3), of a] by (simp add: Util_Protect_def Let_def)

lemma disguise: "DisguisePage os a n m = (b, m') \<Longrightarrow> p_mem m' = p_mem m \<and> p_prot m' = p_prot m"
  using name[of m a n] by (auto simp: DisguisePage_def Let_def split: if_splits prod.splits)

end

text \<open>Where in addition the protection of mapped pages can always be changed.\<close>

locale linux32_live = linux32 +
  assumes mprotect_succeeds: "mapped32 m a (unat n) \<Longrightarrow> fst (os32_mprotect os m a n q) = 0"
begin

lemma protect_succeeds:
  assumes "mapped32 m a n" and "0 < n" and "n \<le> 2 ^ 16"
  shows "fst (Util_Protect os a (of_nat n) q m) = 0"
  using assms(1) mprotect_succeeds protect_pages[OF assms(2,3), of a] by (simp add: Util_Protect_def mapped32_def Let_def)

text \<open>Writing to mapped memory succeeds; the bytes are those the source has, unless the write overlaps it.\<close>

lemma write_succeeds:
  assumes "mapped32 m a n" and "0 < n" and "n \<le> 2 ^ 16"
    and "\<And>m'. p_mem m' = p_mem m \<Longrightarrow> (\<And>p. p \<notin> pages32 a n \<Longrightarrow> p_prot m' p = p_prot m p) \<Longrightarrow> buf m' = Inr bytes" and "length bytes = n"
  shows "\<exists>m'. Util_Write os a buf n m = Inr (0, m') \<and> p_mem m' = mem_write (p_mem m) a bytes"
proof -
  obtain m1 where m1: "Util_Protect os a (of_nat n) (PROT_READ OR PROT_WRITE) m = (0, m1)"
    using protect_succeeds[OF assms(1-3)] by (metis prod.collapse)
  note pm = protect_mem[OF m1] and pp = protect_prot[OF m1 assms(2,3)]
  have "permits PROT_WRITE m1 a n"
    by (auto simp: permits_iff pp pages32_def prot_defs)
  moreover have "buf m1 = Inr bytes"
    using assms(4)[of m1] pm pp by simp
  moreover obtain r2 m2 where m2: "Util_Protect os a (of_nat n) (PROT_READ OR PROT_EXEC) (m1\<lparr>p_mem := mem_write (p_mem m1) a bytes\<rparr>) = (r2, m2)"
    by (metis prod.collapse)
  ultimately show ?thesis
    using m1 assms(5) protect_mem[OF m2] pm by (simp add: Util_Write_def store32_def)
qed

end

section \<open>Aligned addresses\<close>

lemma aligned4: "(a :: u32) AND 3 = 0 \<longleftrightarrow> 4 dvd unat a"
proof -
  have "a AND 3 = take_bit 2 a"
    by (simp add: take_bit_eq_mask mask_eq_exp_minus_1)
  then have "unat (a AND 3) = unat a mod 4"
    by (simp only: unsigned_take_bit_eq) (simp add: take_bit_eq_mod)
  then show ?thesis
    by (metis dvd_eq_mod_eq_0 unat_eq_zero)
qed

lemma aligned4_floor: "(a :: u32) AND 3 = 0 \<Longrightarrow> ALIGN_FLOOR a 4 = a"
  unfolding aligned4 using ALIGN_FLOOR_unat[of 2 a] by (simp add: word_unat_eq_iff)

lemma aligned4_add: "(a :: u32) AND 3 = 0 \<Longrightarrow> 4 dvd k \<Longrightarrow> (a + of_nat k) AND 3 = 0"
  unfolding aligned4 unat_add_of_nat by (subst dvd_mod_iff) auto

lemma page_aligned4: "page32 a = a \<Longrightarrow> a AND 3 = 0"
proof -
  assume "page32 a = a"
  then have "unat a = unat a div 4096 * 4096"
    using unat_page32[of a] by simp
  moreover have "4 dvd x * 4096" for x :: nat
    by (rule dvd_mult) simp
  ultimately show ?thesis
    unfolding aligned4 by metis
qed

section \<open>The table\<close>

lemma FindSlot_append:
  "FindSlot t (xs @ [s]) =
     (case FindSlot t xs of Some i \<Rightarrow> Some i | None \<Rightarrow> if hs_target s = t then Some (length xs) else None)"
  unfolding FindSlot_def by (induction xs) (auto split: option.splits)

lemma swap_remove_last [simp]: "swap_remove (length xs) (xs @ [x]) = xs"
  by (simp add: swap_remove_def)

section \<open>Hooks in ARM state\<close>

text \<open>The code a hook in ARM state writes, to the target and behind the copied instructions.\<close>

definition arm_jump :: "u32 \<Rightarrow> u8 list" where
  "arm_jump v = le_bytes 4 (0xE51FF004 :: u32) @ le_bytes 4 v"

lemma length_arm_jump [simp]: "length (arm_jump v) = 8"
  by (simp add: arm_jump_def)

lemma arm_jump_loads:
  assumes "bytes_at m a (arm_jump v)" and "a AND 3 = 0"
  shows "a32_ldr_pc m a = Some v"
proof -
  have "mem_read m (a + of_nat 0) 4 = take 4 (drop 0 (arm_jump v))" "mem_read m (a + of_nat 4) 4 = take 4 (drop 4 (arm_jump v))"
    using bytes_at_read[OF assms(1), of 0 4] bytes_at_read[OF assms(1), of 4 4] by simp_all
  then have "mem_read m a 4 = le_bytes 4 (0xE51FF004 :: u32)" "mem_read m (a + 4) 4 = le_bytes 4 v"
    by (simp_all add: arm_jump_def del: le_bytes.simps)
  moreover have "ALIGN_FLOOR (a + 8) 4 = a + 8"
    using aligned4_floor aligned4_add[OF assms(2), of 8] by simp
  ultimately show ?thesis
    by (simp add: a32_ldr_pc_def add.commute del: le_bytes.simps)
qed

context linux32
begin

lemma redirect_ok:
  assumes "redirect os target fn replace tramp head m st = Inr (DOBBY_OK, st1)" and "length head = 8"
  shows "p_mem (v_mach st1) = mem_write (p_mem m) fn head
    \<and> p_prot (v_mach st1) = (\<lambda>p. if p \<in> pages32 fn 8 then Some 7 else p_prot m p)
    \<and> v_slots st1 = v_slots st @ [\<lparr>hs_target = target, hs_replace = replace, hs_trampoline = tramp, hs_head_len = 8\<rparr>]
    \<and> (\<exists>w. v_integrity st1 = SnapshotIntegrity target w (v_integrity st)
        \<and> w = le_word (mem_read (p_mem (v_mach st1)) tramp 4))"
proof -
  obtain r m1 where m1: "Util_Protect os fn 8 7 m = (r, m1)"
    by (metis prod.collapse)
  have w: "mem_write (mem_write (p_mem m1) fn (take 4 head)) (fn + 4) (drop 4 head) = mem_write (p_mem m1) fn head"
    using mem_write_append[of "p_mem m1" fn "take 4 head" "drop 4 head"] assms(2) by simp
  have r: "r = 0"
    using assms(1) m1 by (auto simp: redirect_def prot_defs split: if_splits)
  then have "p_prot m1 = (\<lambda>p. if p \<in> pages32 fn 8 then Some 7 else p_prot m p)"
    using protect_prot[of fn 8 7 m m1] m1 by simp
  then show ?thesis
    using assms(1) m1 r w protect_mem[OF m1]
    by (auto simp: redirect_def prot_defs sbind_eq_Inr store32_eq_Inr load32_eq_Inr)
qed

lemma arm_hook_state:
  assumes "Hooker_Hook os target replace want st = Inr (DOBBY_OK, orig, st1)" and "target AND 3 = 0" and "mapped32 (v_mach st) target 8"
  obtains tramp m where "page32 tramp = tramp" "\<forall>p \<in> pages32 tramp 0x1000. p_prot (v_mach st) p = None"
    "orig = (if want then Some tramp else None)" "FindSlot target (v_slots st) = None" "length (v_slots st) < 128"
    "v_slots st1 = v_slots st @ [\<lparr>hs_target = target, hs_replace = replace, hs_trampoline = tramp, hs_head_len = 8\<rparr>]"
    "p_prot (v_mach st1) = (\<lambda>p. if p \<in> pages32 target 8 \<union> pages32 tramp 0x1000 then Some 7 else p_prot (v_mach st) p)"
    "p_mem (v_mach st1) = mem_write (mem_write m tramp (mem_read m target 8 @ arm_jump (target + 8))) target (arm_jump replace)"
    "\<forall>x. x \<notin> range_addrs tramp 0x1000 \<longrightarrow> m x = p_mem (v_mach st) x"
proof -
  have even: "target AND 1 = 0"
    using assms(2) and.assoc[of target 3 1] by simp
  have h: "hook_arm os target replace want st = Inr (DOBBY_OK, orig, st1)" "FindSlot target (v_slots st) = None" "length (v_slots st) < 128"
    using assms(1) even by (auto simp: Hooker_Hook_def split: if_splits)
  obtain tramp m1 where m1: "os32_mmap os (v_mach st) 0x1000 7 = (Some tramp, m1)"
    using h(1) by (auto simp: hook_arm_def with_trampoline_def prot_defs split: prod.splits option.splits)
  obtain b m2 where m2: "DisguisePage os tramp 0x1000 m1 = (b, m2)"
    by (metis prod.collapse)
  let ?head = "mem_read (p_mem m2) target 8" and ?tail = "arm_jump (target + 8)"
  let ?m3 = "m2\<lparr>p_mem := mem_write (p_mem m2) tramp (?head @ ?tail)\<rparr>"
  have w: "mem_write (mem_write (mem_write (p_mem m2) tramp ?head) (tramp + 8) (le_bytes 4 (0xE51FF004 :: u32))) (tramp + 12) (le_bytes 4 (target + 8))
      = mem_write (p_mem m2) tramp (?head @ ?tail)"
    by (simp only: arm_jump_def mem_write_append) (simp add: add.assoc)
  have "redirect os target target replace tramp (arm_jump replace) ?m3 st = Inr (DOBBY_OK, st1)" and o: "orig = (if want then Some tramp else None)"
    using h(1) m1 m2 w
    by (auto simp: hook_arm_def with_trampoline_def prot_defs sbind_eq_Inr store32_eq_Inr load32_eq_Inr arm_jump_def)
  note r = redirect_ok[OF this(1) length_arm_jump]
  note mm = mmap_some[OF m1] and nm = disguise[OF m2]
  show thesis
    by (rule that[of tramp "p_mem m2"]) (use r mm nm o h(2,3) in auto)
qed

end

text \<open>The trampoline lies apart from everything that was mapped before.\<close>

lemma fresh_apart:
  assumes "\<forall>p \<in> pages32 tramp n. p_prot m p = None" and "p_prot m (page32 x) \<noteq> None"
  shows "x \<notin> range_addrs tramp n"
  using assms by (auto simp: pages32_def)

context linux32
begin

lemma arm_hook_works:
  assumes "Hooker_Hook os target replace want st = Inr (DOBBY_OK, orig, st1)" and "target AND 3 = 0" and "mapped32 (v_mach st) target 8"
  obtains tramp where "orig = (if want then Some tramp else None)"
    "a32_ldr_pc (p_mem (v_mach st1)) target = Some replace" "a32_ldr_pc (p_mem (v_mach st1)) (tramp + 8) = Some (target + 8)"
    "mem_read (p_mem (v_mach st1)) tramp 8 = mem_read (p_mem (v_mach st)) target 8"
    "\<forall>p \<in> pages32 tramp 0x1000. p_prot (v_mach st) p = None \<and> p_prot (v_mach st1) p = Some 7"
    "\<forall>x. p_prot (v_mach st) (page32 x) \<noteq> None \<and> x \<notin> range_addrs target 8 \<longrightarrow> p_mem (v_mach st1) x = p_mem (v_mach st) x"
    "FindSlot target (v_slots st) = None" "mapped32 (v_mach st1) target 8"
    "v_slots st1 = v_slots st @ [\<lparr>hs_target = target, hs_replace = replace, hs_trampoline = tramp, hs_head_len = 8\<rparr>]"
proof -
  obtain tramp m where t: "page32 tramp = tramp" "\<forall>p \<in> pages32 tramp 0x1000. p_prot (v_mach st) p = None"
    "orig = (if want then Some tramp else None)" "FindSlot target (v_slots st) = None" "length (v_slots st) < 128"
    "v_slots st1 = v_slots st @ [\<lparr>hs_target = target, hs_replace = replace, hs_trampoline = tramp, hs_head_len = 8\<rparr>]"
    "p_prot (v_mach st1) = (\<lambda>p. if p \<in> pages32 target 8 \<union> pages32 tramp 0x1000 then Some 7 else p_prot (v_mach st) p)"
    "p_mem (v_mach st1) = mem_write (mem_write m tramp (mem_read m target 8 @ arm_jump (target + 8))) target (arm_jump replace)"
    "\<forall>x. x \<notin> range_addrs tramp 0x1000 \<longrightarrow> m x = p_mem (v_mach st) x"
    using arm_hook_state[OF assms] .
  let ?code = "mem_read m target 8 @ arm_jump (target + 8)" and ?M = "p_mem (v_mach st1)"
  have apart: "x \<notin> range_addrs tramp 0x1000" if "p_prot (v_mach st) (page32 x) \<noteq> None" for x
    using fresh_apart[OF t(2) that] .
  have apart': "x \<notin> range_addrs tramp 0x1000" if "x \<in> range_addrs target 8" for x
    using apart assms(3) that by (simp add: mapped32_addr)
  have sub: "range_addrs tramp 16 \<subseteq> range_addrs tramp 0x1000"
    by (rule range_addrs_mono) simp
  have head: "mem_read m target 8 = mem_read (p_mem (v_mach st)) target 8"
    by (rule mem_read_cong) (use apart' t(9) in simp)
  have "bytes_at (mem_write m tramp ?code) tramp ?code"
    by (rule mem_write_bytes_at) simp
  then have code: "bytes_at ?M tramp ?code"
    unfolding t(8) by (rule bytes_at_cong) (use apart' sub in \<open>auto intro!: mem_write_outside\<close>)
  have "bytes_at ?M target (arm_jump replace)"
    unfolding t(8) by (rule mem_write_bytes_at) simp
  then have a: "a32_ldr_pc ?M target = Some replace"
    using arm_jump_loads assms(2) by blast
  have "mem_read ?M (tramp + of_nat 8) 8 = arm_jump (target + 8)"
    using bytes_at_read[OF code, of 8 8] by simp
  then have b: "a32_ldr_pc ?M (tramp + 8) = Some (target + 8)"
    using arm_jump_loads[of ?M "tramp + 8" "target + 8"] aligned4_add[OF page_aligned4[OF t(1)], of 8] by (simp add: bytes_at_def)
  have c: "mem_read ?M tramp 8 = mem_read (p_mem (v_mach st)) target 8"
    using bytes_at_read[OF code, of 0 8] head by simp
  have d: "?M x = p_mem (v_mach st) x" if "p_prot (v_mach st) (page32 x) \<noteq> None" "x \<notin> range_addrs target 8" for x
  proof -
    have "x \<notin> range_addrs tramp 0x1000" by (rule apart[OF that(1)])
    moreover from this have "x \<notin> range_addrs tramp (length ?code)" using sub by auto
    ultimately show ?thesis
      unfolding t(8) using that(2) t(9) by (simp add: mem_write_outside)
  qed
  show thesis
    by (rule that[OF t(3) a b c]) (use t(2,4,6,7) d in \<open>auto simp: mapped32_def\<close>)
qed

end

context linux32_live
begin

lemma arm_unhook_restores:
  assumes "Hooker_Hook os target replace want st = Inr (DOBBY_OK, orig, st1)" and "target AND 3 = 0" and "mapped32 (v_mach st) target 8"
  shows "\<exists>st2. Hooker_Unhook os target st1 = Inr (DOBBY_OK, st2) \<and> v_slots st2 = v_slots st
    \<and> (\<forall>x. p_prot (v_mach st) (page32 x) \<noteq> None \<longrightarrow> p_mem (v_mach st2) x = p_mem (v_mach st) x)"
proof -
  obtain tramp where t:
    "mem_read (p_mem (v_mach st1)) tramp 8 = mem_read (p_mem (v_mach st)) target 8"
    "\<forall>p \<in> pages32 tramp 0x1000. p_prot (v_mach st) p = None \<and> p_prot (v_mach st1) p = Some 7"
    "\<forall>x. p_prot (v_mach st) (page32 x) \<noteq> None \<and> x \<notin> range_addrs target 8 \<longrightarrow> p_mem (v_mach st1) x = p_mem (v_mach st) x"
    "FindSlot target (v_slots st) = None" "mapped32 (v_mach st1) target 8"
    "v_slots st1 = v_slots st @ [\<lparr>hs_target = target, hs_replace = replace, hs_trampoline = tramp, hs_head_len = 8\<rparr>]"
    using arm_hook_works[OF assms] by metis
  let ?head = "mem_read (p_mem (v_mach st)) target 8"
  have fn: "target AND NOT 1 = target"
  proof -
    have "(target AND NOT 1) OR (target AND 1) = target"
      by (simp flip: bit.conj_disj_distrib)
    then show ?thesis
      using assms(2) and.assoc[of target 3 1] by simp
  qed
  have "range_addrs tramp 8 \<subseteq> range_addrs tramp 0x1000"
    by (rule range_addrs_mono) simp
  then have pg: "page32 x \<in> pages32 tramp 0x1000" if "x \<in> range_addrs tramp 8" for x
    using that by (auto simp: pages32_def)
  moreover have "p \<notin> pages32 target 8" if "p \<in> pages32 tramp 0x1000" for p
    using t(2) that assms(3) by (auto simp: mapped32_def)
  ultimately have buf: "load32 m' tramp 8 = Inr ?head" if "p_mem m' = p_mem (v_mach st1)" "\<And>p. p \<notin> pages32 target 8 \<Longrightarrow> p_prot m' p = p_prot (v_mach st1) p" for m'
    using that t(1,2) by (auto simp: load32_eq_Inr permits_iff prot_defs)
  obtain m2 where m2: "Util_Write os target (\<lambda>m. load32 m tramp 8) 8 (v_mach st1) = Inr (0, m2)" "p_mem m2 = mem_write (p_mem (v_mach st1)) target ?head"
    using write_succeeds[OF t(5), of "\<lambda>m. load32 m tramp 8" ?head] buf by auto
  obtain r m3 where m3: "os32_munmap os m2 tramp 0x1000 = (r, m3)"
    by (metis prod.collapse)
  have "p_mem m3 x = p_mem (v_mach st) x" if x: "p_prot (v_mach st) (page32 x) \<noteq> None" for x
  proof -
    have "x \<notin> range_addrs tramp 0x1000"
      using fresh_apart[OF _ x] t(2) by blast
    then have "p_mem m3 x = p_mem m2 x"
      using munmap[OF m3] by simp
    also have "\<dots> = p_mem (v_mach st) x"
      using mem_write_inside[of x target ?head "p_mem (v_mach st1)" "p_mem (v_mach st)"] t(3) x m2(2)
      by (cases "x \<in> range_addrs target 8") (simp_all add: mem_write_outside mem_write_read_same)
    finally show ?thesis .
  qed
  then show ?thesis
    using m2(1) m3 t(4,6) fn by (simp add: Hooker_Unhook_def FindSlot_append)
qed

end

section \<open>Departures\<close>

lemma VerifyIntegrity_new:
  "addr \<notin> fst ` set g \<Longrightarrow> VerifyIntegrity addr (g @ [(addr, w)]) m = sbind (load32 m addr 4) (\<lambda>now. Inr (le_word now = w))"
  by (induction g) auto

context linux32
begin

text \<open>The head a hook in Thumb state writes loads register 0 where it should load the program counter.\<close>

lemma thumb_hook_head:
  assumes "Hooker_Hook os target replace want st = Inr (DOBBY_OK, orig, st1)" and "target AND 1 = 1"
  shows "t32_ldr_literal (le_word (mem_read (p_mem (v_mach st1)) (target - 1) 2)) (le_word (mem_read (p_mem (v_mach st1)) (target + 1) 2)) = Some (0, 0)"
proof -
  let ?h = "le_bytes 2 (0xF8DF :: u16) @ le_bytes 2 (0 :: u16) @ le_bytes 4 (replace OR 1)"
  obtain tramp m st2 where r: "redirect os target (target - 1) replace tramp ?h m st = Inr (DOBBY_OK, st2)" and "v_mach st1 = v_mach st2"
    using assms
    by (auto simp: Hooker_Hook_def hook_thumb_def with_trampoline_def sbind_eq_Inr Let_def split_beta split: if_splits option.splits)
  then have "p_mem (v_mach st1) = mem_write (p_mem m) (target - 1) ?h"
    using redirect_ok[OF r] by simp
  then have b: "bytes_at (p_mem (v_mach st1)) (target - 1) ?h"
    using mem_write_bytes_at[of ?h "p_mem m" "target - 1"] by simp
  have "target - 1 + of_nat 2 = target + 1" by simp
  then have "mem_read (p_mem (v_mach st1)) (target - 1) 2 = le_bytes 2 (0xF8DF :: u16)"
      "mem_read (p_mem (v_mach st1)) (target + 1) 2 = le_bytes 2 (0 :: u16)"
    using bytes_at_read[OF b, of 0 2] bytes_at_read[OF b, of 2 2] by (simp_all add: add.commute del: le_bytes.simps)
  then show ?thesis
    by (simp add: t32_ldr_literal_def del: le_bytes.simps)
qed

text \<open>The snapshot holds the first word of the original code, so a hook that is in place is taken for a broken one.\<close>

lemma arm_hook_unverified:
  assumes "Hooker_Hook os target replace want st = Inr (DOBBY_OK, orig, st1)" and "target AND 3 = 0" and "mapped32 (v_mach st) target 8"
    and "length (v_integrity st) < 64" and "target \<notin> fst ` set (v_integrity st)"
  shows "VerifyIntegrity target (v_integrity st1) (v_mach st1) = Inr (le_word (mem_read (p_mem (v_mach st)) target 4) = (0xE51FF004 :: u32))"
proof -
  have even: "target AND 1 = 0"
    using assms(2) and.assoc[of target 3 1] by simp
  obtain tramp where t: "a32_ldr_pc (p_mem (v_mach st1)) target = Some replace"
    "mem_read (p_mem (v_mach st1)) tramp 8 = mem_read (p_mem (v_mach st)) target 8"
    "v_slots st1 = v_slots st @ [\<lparr>hs_target = target, hs_replace = replace, hs_trampoline = tramp, hs_head_len = 8\<rparr>]"
    using arm_hook_works[OF assms(1-3)] by metis
  obtain tramp' m st2 where r: "redirect os target target replace tramp' (arm_jump replace) m st = Inr (DOBBY_OK, st2)" and st: "st1 = st2"
    using assms(1) even
    by (auto simp: Hooker_Hook_def hook_arm_def arm_jump_def with_trampoline_def sbind_eq_Inr split: if_splits prod.splits option.splits)
  note ro = redirect_ok[OF r length_arm_jump, folded st]
  have eq: "tramp' = tramp" using ro t(3) by simp
  have "bytes_at (p_mem (v_mach st1)) target (arm_jump replace)"
    using ro mem_write_bytes_at[of "arm_jump replace" "p_mem m" target] by simp
  then have now: "mem_read (p_mem (v_mach st1)) target 4 = le_bytes 4 (0xE51FF004 :: u32)"
    using bytes_at_read[of _ target "arm_jump replace" 0 4] by (simp add: arm_jump_def del: le_bytes.simps)
  have "mem_read (p_mem (v_mach st1)) tramp 4 = mem_read (p_mem (v_mach st)) target 4"
    using t(2) mem_read_drop[of 0 4 8 "p_mem (v_mach st1)" tramp] mem_read_drop[of 0 4 8 "p_mem (v_mach st)" target] by simp
  then have i: "v_integrity st1 = v_integrity st @ [(target, le_word (mem_read (p_mem (v_mach st)) target 4))]"
    using ro eq assms(4) by (auto simp: SnapshotIntegrity_def)
  have "range_addrs target 4 \<subseteq> range_addrs target 8"
    by (rule range_addrs_mono) simp
  then have "permits PROT_READ (v_mach st1) target 4"
    using ro by (auto simp: permits_iff pages32_def prot_defs)
  then show ?thesis
    unfolding i VerifyIntegrity_new[OF assms(5)] using now by (auto simp: load32_def simp del: le_bytes.simps)
qed

end

section \<open>A small system\<close>

text \<open>One system that keeps the laws: it has one page to give away, at \<open>0x10000\<close>.\<close>

definition small32 :: "unit os32" where
  "small32 =
     \<lparr>os32_mprotect = (\<lambda>m a n q. if mapped32 m a (unat n)
        then (0, m\<lparr>p_prot := \<lambda>p. if p \<in> pages32 a (unat n) then Some q else p_prot m p\<rparr>) else (-1, m)),
      os32_mmap = (\<lambda>m n q. if n = 0x1000 \<and> p_prot m 0x10000 = None then (Some 0x10000, m\<lparr>p_prot := (p_prot m)(0x10000 \<mapsto> q)\<rparr>) else (None, m)),
      os32_munmap = (\<lambda>m a n. (0, m\<lparr>p_prot := \<lambda>p. if p \<in> pages32 a (unat n) then None else p_prot m p\<rparr>)),
      os32_name = (\<lambda>m a n nm. (0, m))\<rparr>"

lemma small32_page: "pages32 0x10000 0x1000 = {0x10000}"
  by (subst pages32_eq) (simp_all add: page32_def ALIGN_FLOOR_def)

interpretation small32: linux32_live small32
proof (unfold_locales, goal_cases)
  case (3 m n q a m')
  then show ?case
    using small32_page by (auto simp: small32_def page32_def ALIGN_FLOOR_def split: if_splits)
qed (auto simp: small32_def split: if_splits)

text \<open>A process of that system: one page of code, all zero, and no hooks yet.\<close>

definition small32_start :: "unit hooker" where
  "small32_start =
     \<lparr>v_mach = \<lparr>p_mem = (\<lambda>_. 0), p_prot = [0x8000 \<mapsto> 5], p_kernel = ()\<rparr>, v_slots = [], v_integrity = [],
      v_event_cb = False, v_events = []\<rparr>"

lemma permits_pages: "permits perm m a n \<longleftrightarrow> (\<forall>p \<in> pages32 a n. \<exists>q. p_prot m p = Some q \<and> q AND perm \<noteq> 0)"
  by (simp add: permits_iff pages32_def)

lemma small32_pages:
  "pages32 0x10000 8 = {0x10000}" "pages32 0x10000 4 = {0x10000}" "pages32 0x10008 4 = {0x10000}" "pages32 0x1000C 4 = {0x10000}"
  "pages32 0x8000 8 = {0x8000}" "pages32 0x8000 4 = {0x8000}" "pages32 0x8004 4 = {0x8000}" "pages32 0x8000 0x1000 = {0x8000}"
  by (subst pages32_eq; simp add: page32_def ALIGN_FLOOR_def)+

lemma small32_mapped: "mapped32 (v_mach small32_start) 0x8000 8"
  by (simp add: mapped32_def small32_pages small32_start_def)

lemma small32_hook:
  "\<exists>st1. Hooker_Hook small32 0x8000 0x9000 True small32_start = Inr (DOBBY_OK, Some 0x10000, st1)"
  by (simp add: Hooker_Hook_def hook_arm_def with_trampoline_def redirect_def small32_def small32_start_def DisguisePage_def FindSlot_def
      load32_def store32_def permits_pages small32_pages Util_Protect_def mapped32_def prot_defs Let_def)

lemma small32_relocate: "RelocateThumb (mem_read (\<lambda>_. 0) 0x8000 8) 0x8004 0x10004 = (True, replicate 8 0)"
  by code_simp

lemma small32_thumb_hook:
  "\<exists>orig st1. Hooker_Hook small32 0x8001 0x9001 False small32_start = Inr (DOBBY_OK, orig, st1)"
  by (simp add: Hooker_Hook_def hook_thumb_def with_trampoline_def redirect_def small32_def small32_start_def DisguisePage_def FindSlot_def
      load32_def store32_def permits_pages small32_pages small32_relocate Util_Protect_def mapped32_def prot_defs Let_def split_beta)

section \<open>Properties\<close>



text \<open>
  C38.  A hook in Thumb state does not jump.  When \<^verbatim>\<open>Hooker::Hook\<close> succeeds on a target with bit 0 set,
  the instruction it has written there loads register 0 from the literal, not the program counter, so
  execution runs on into the literal instead of going to the replacement.
\<close>

theorem thumb_hook_does_not_jump:
  assumes "linux32 os" and "target AND 1 = 1" and "Hooker_Hook os target replace want st = Inr (DOBBY_OK, orig, st1)"
  shows "t32_ldr_literal (le_word (mem_read (p_mem (v_mach st1)) (target - 1) 2)) (le_word (mem_read (p_mem (v_mach st1)) (target + 1) 2)) = Some (0, 0)"
  by (rule linux32.thumb_hook_head[OF assms(1,3,2)])

theorem thumb_hook_does_not_jump_witness:
  "\<exists>orig st1. Hooker_Hook small32 0x8001 0x9001 False small32_start = Inr (DOBBY_OK, orig, st1)
    \<and> t32_ldr_literal (le_word (mem_read (p_mem (v_mach st1)) 0x8000 2)) (le_word (mem_read (p_mem (v_mach st1)) 0x8002 2)) = Some (0, 0)"
proof -
  obtain orig st1 where h: "Hooker_Hook small32 0x8001 0x9001 False small32_start = Inr (DOBBY_OK, orig, st1)"
    using small32_thumb_hook by blast
  show ?thesis
    using thumb_hook_does_not_jump[OF small32.linux32_axioms _ h] h by auto
qed

text \<open>
  C39.  A hook that is in place does not pass its own check.  After \<^verbatim>\<open>Hooker::Hook\<close> succeeds in ARM state on a target
  that has no snapshot yet, \<^verbatim>\<open>Stealth::VerifyIntegrity\<close> compares the jump now at the target with the first
  word of the original code: it reports the hook as removed unless the original code began with that jump.
\<close>

theorem hook_fails_own_verification:
  assumes "linux32 os" and "target AND 3 = 0" and "mapped32 (v_mach st) target 8"
    and "Hooker_Hook os target replace want st = Inr (DOBBY_OK, orig, st1)"
    and "length (v_integrity st) < 64" and "target \<notin> fst ` set (v_integrity st)"
  shows "VerifyIntegrity target (v_integrity st1) (v_mach st1) = Inr (le_word (mem_read (p_mem (v_mach st)) target 4) = (0xE51FF004 :: u32))"
  by (rule linux32.arm_hook_unverified[OF assms(1,4,2,3,5,6)])

theorem hook_fails_own_verification_witness:
  "\<exists>st1. Hooker_Hook small32 0x8000 0x9000 True small32_start = Inr (DOBBY_OK, Some 0x10000, st1)
    \<and> VerifyIntegrity 0x8000 (v_integrity st1) (v_mach st1) = Inr False"
proof -
  obtain st1 where h: "Hooker_Hook small32 0x8000 0x9000 True small32_start = Inr (DOBBY_OK, Some 0x10000, st1)"
    using small32_hook by blast
  have "mem_read (p_mem (v_mach small32_start)) 0x8000 4 = [0, 0, 0, 0]"
    by (simp add: small32_start_def numeral_eq_Suc)
  then show ?thesis
    using hook_fails_own_verification[OF small32.linux32_axioms _ small32_mapped h] h
    by (simp add: small32_start_def)
qed

end
