(* ===== verification/Wait_Hooks.thy ===== *)
theory Wait_Hooks
  imports Arm32_Hooker_Proofs "HOL-Library.Multiset" "HOL-Library.Sublist"
begin

text \<open>
  \<^verbatim>\<open>src/src/waiter.cpp\<close>: hooks on libraries that are not loaded yet, and the lookups of
  \<^verbatim>\<open>src/src/symbols.cpp\<close> it uses.  The queue is guarded by a mutex, so submitting, cancelling and one round
  of the worker are single steps.  The xDL library and \<^verbatim>\<open>/proc/self/maps\<close> are parameters, and the
  monotonic clock is an argument.  The calls made to user callbacks are kept in order; what a callback does is
  not modelled.
\<close>

section \<open>Lookups\<close>

text \<open>A null handle or address is 0.  The lines of the map are those \<^verbatim>\<open>fgets\<close> returns; none when it cannot be opened.\<close>

record 'k linker32 =
  xdl_open :: "'k mach32 \<Rightarrow> string \<Rightarrow> u32"
  xdl_sym :: "'k mach32 \<Rightarrow> u32 \<Rightarrow> string \<Rightarrow> u32"
  xdl_dsym :: "'k mach32 \<Rightarrow> u32 \<Rightarrow> string \<Rightarrow> u32"
  self_maps :: "'k mach32 \<Rightarrow> string list"

definition Symbols_Find :: "'k linker32 \<Rightarrow> 'k mach32 \<Rightarrow> string \<Rightarrow> string \<Rightarrow> u32" where
  "Symbols_Find l m lib name =
     (let h = xdl_open l m lib
      in if h = 0 then 0
         else let p = xdl_sym l m h name in if p = 0 then xdl_dsym l m h name else p)"

text \<open>The C library: \<^verbatim>\<open>strtoul\<close> with base 16 on a line that starts with a digit, and the rest of a line from its last slash.\<close>

definition hex_digit :: "char \<Rightarrow> nat option" where
  "hex_digit c =
     (let n = of_char c :: nat
      in if 48 \<le> n \<and> n \<le> 57 then Some (n - 48) else if 97 \<le> n \<and> n \<le> 102 then Some (n - 87)
         else if 65 \<le> n \<and> n \<le> 70 then Some (n - 55) else None)"

fun strtoul16 :: "nat \<Rightarrow> string \<Rightarrow> u32" where
  "strtoul16 acc [] = of_nat (min acc (2 ^ 32 - 1))"
| "strtoul16 acc (c # cs) =
     (case hex_digit c of None \<Rightarrow> of_nat (min acc (2 ^ 32 - 1)) | Some d \<Rightarrow> strtoul16 (16 * acc + d) cs)"

definition from_last_slash :: "string \<Rightarrow> string option" where
  "from_last_slash line =
     (if CHR ''/'' \<in> set line then Some (CHR ''/'' # rev (takeWhile (\<lambda>c. c \<noteq> CHR ''/'') (rev line))) else None)"

fun Symbols_Base :: "string list \<Rightarrow> string \<Rightarrow> u32" where
  "Symbols_Base [] lib = 0"
| "Symbols_Base (line # lines) lib =
     (case from_last_slash line of
        None \<Rightarrow> Symbols_Base lines lib
      | Some nm \<Rightarrow> if CHR ''-'' \<notin> set line \<or> \<not> sublist lib nm then Symbols_Base lines lib else strtoul16 0 line)"

section \<open>Tasks\<close>

text \<open>
  \<^verbatim>\<open>origin\<close> is what the variable it points to holds, none for a null pointer; \<open>wt_cb\<close> says whether there is a
  callback.
\<close>

record WaitTask =
  wt_lib :: string
  wt_symbol :: string
  wt_offset :: u32
  wt_use_offset :: bool
  wt_replace :: u32
  wt_origin :: "u32 option"
  wt_flags :: u32
  wt_timeout_ms :: u32
  wt_cb :: bool
  wt_user_data :: u32
  wt_start_ms :: u64
  wt_done :: bool

text \<open>A call of a callback: status, library, symbol, resolved address, user data.\<close>

type_synonym wait_call = "int \<times> string \<times> string \<times> u32 \<times> u32"

definition tell :: "int \<Rightarrow> WaitTask \<Rightarrow> u32 \<Rightarrow> wait_call list \<Rightarrow> wait_call list" where
  "tell status t resolved calls =
     (if wt_cb t then calls @ [(status, wt_lib t, wt_symbol t, resolved, wt_user_data t)] else calls)"

record 'k waiter =
  w_hooker :: "'k hooker"
  w_tasks :: "WaitTask list"
  w_calls :: "wait_call list"

definition try_install ::
  "'k linker32 \<Rightarrow> 'k os32 \<Rightarrow> WaitTask \<Rightarrow> 'k waiter \<Rightarrow> (bool \<times> WaitTask \<times> 'k waiter) result" where
  "try_install l os t w =
     (let m = v_mach (w_hooker w);
          addr = (if \<not> wt_use_offset t then Symbols_Find l m (wt_lib t) (wt_symbol t)
                 else let base = Symbols_Base (self_maps l m) (wt_lib t) in if base \<noteq> 0 then base + wt_offset t else 0)
      in if addr = 0 then Inr (False, t, w)
         else sbind (Hooker_Hook os addr (wt_replace t) (wt_origin t \<noteq> None) (w_hooker w)) (\<lambda>(_, orig, h).
           let t = (case orig of None \<Rightarrow> t | Some p \<Rightarrow> t\<lparr>wt_origin := Some p\<rparr>);
               ev = \<lparr>ev_target = addr, ev_replace = wt_replace t, ev_origin = (case wt_origin t of None \<Rightarrow> 0 | Some p \<Rightarrow> p),
                     ev_lib = Some (wt_lib t), ev_symbol = Some (wt_symbol t), ev_status = 1\<rparr>;
               h = h\<lparr>v_events := EmitEvent (v_event_cb h) ev (v_events h)\<rparr>;
               t = t\<lparr>wt_done := True\<rparr>
           in Inr (True, t, w\<lparr>w_hooker := h, w_calls := tell 1 t addr (w_calls w)\<rparr>)))"

text \<open>One round of the worker over the tasks; the tasks that remain are returned.\<close>

fun worker_pass ::
  "'k linker32 \<Rightarrow> 'k os32 \<Rightarrow> u64 \<Rightarrow> WaitTask list \<Rightarrow> 'k waiter \<Rightarrow> (WaitTask list \<times> 'k waiter) result" where
  "worker_pass l os now [] w = Inr ([], w)"
| "worker_pass l os now (t # ts) w =
     (if wt_done t then worker_pass l os now ts w
      else if wt_timeout_ms t \<noteq> 0 \<and> now - wt_start_ms t > ucast (wt_timeout_ms t)
           then worker_pass l os now ts (w\<lparr>w_calls := tell (-2) t 0 (w_calls w)\<rparr>)
      else sbind (try_install l os t w) (\<lambda>(_, t, w).
           if wt_done t then worker_pass l os now ts w
           else sbind (worker_pass l os now ts w) (\<lambda>(ts, w). Inr (t # ts, w))))"

definition worker_round :: "'k linker32 \<Rightarrow> 'k os32 \<Rightarrow> u64 \<Rightarrow> 'k waiter \<Rightarrow> 'k waiter result" where
  "worker_round l os now w = sbind (worker_pass l os now (w_tasks w) w) (\<lambda>(ts, w). Inr (w\<lparr>w_tasks := ts\<rparr>))"

definition wait_task ::
  "string \<Rightarrow> string option \<Rightarrow> u32 \<Rightarrow> bool \<Rightarrow> u32 \<Rightarrow> u32 option \<Rightarrow> u32 \<Rightarrow> u32 \<Rightarrow> bool \<Rightarrow> u32 \<Rightarrow> u64 \<Rightarrow> WaitTask" where
  "wait_task lib symbol offset use_offset replace origin flags timeout_ms cb user_data now =
     \<lparr>wt_lib = lib, wt_symbol = (case symbol of None \<Rightarrow> [] | Some s \<Rightarrow> s), wt_offset = offset, wt_use_offset = use_offset,
      wt_replace = replace, wt_origin = origin, wt_flags = flags, wt_timeout_ms = timeout_ms, wt_cb = cb,
      wt_user_data = user_data, wt_start_ms = now, wt_done = False\<rparr>"

definition Waiter_Submit ::
  "'k linker32 \<Rightarrow> 'k os32 \<Rightarrow> string option \<Rightarrow> string option \<Rightarrow> u32 \<Rightarrow> bool \<Rightarrow> u32 \<Rightarrow> u32 option \<Rightarrow> u32 \<Rightarrow> u32 \<Rightarrow>
     bool \<Rightarrow> u32 \<Rightarrow> u64 \<Rightarrow> 'k waiter \<Rightarrow> (int \<times> 'k waiter) result" where
  "Waiter_Submit l os lib symbol offset use_offset replace origin flags timeout_ms cb user_data now w =
     (case lib of
        None \<Rightarrow> Inr (-4, w)
      | Some lib \<Rightarrow>
          if replace = 0 then Inr (-4, w)
          else let t = wait_task lib symbol offset use_offset replace origin flags timeout_ms cb user_data now
               in sbind (try_install l os t w) (\<lambda>(installed, t, w).
                    if installed then Inr (1, w) else Inr (0, w\<lparr>w_tasks := w_tasks w @ [t]\<rparr>)))"

definition Waiter_Cancel :: "string \<Rightarrow> string option \<Rightarrow> 'k waiter \<Rightarrow> int \<times> 'k waiter" where
  "Waiter_Cancel lib symbol w =
     (let match = (\<lambda>t. wt_lib t = lib \<and> (case symbol of None \<Rightarrow> True | Some s \<Rightarrow> wt_symbol t = s));
          gone = filter match (w_tasks w)
      in (int (length gone), w\<lparr>w_tasks := filter (\<lambda>t. \<not> match t) (w_tasks w),
                                w_calls := fold (\<lambda>t. tell (-3) t 0) gone (w_calls w)\<rparr>))"

definition Waiter_PendingCount :: "'k waiter \<Rightarrow> int" where
  "Waiter_PendingCount w = int (length (w_tasks w))"

section \<open>Runs\<close>

text \<open>
  \<open>wait_run l os w sub w'\<close>: from \<open>w\<close> submissions, cancellations and rounds of the worker led to \<open>w'\<close>; \<open>sub\<close>
  are the tasks of the submissions that were accepted.
\<close>

inductive wait_run :: "'k linker32 \<Rightarrow> 'k os32 \<Rightarrow> 'k waiter \<Rightarrow> WaitTask list \<Rightarrow> 'k waiter \<Rightarrow> bool" for l os w where
  run_start: "wait_run l os w [] w"
| run_submit: "wait_run l os w sub w1 \<Longrightarrow>
    Waiter_Submit l os (Some lib) symbol offset use_offset replace origin flags timeout_ms cb user_data now w1 = Inr (status, w2) \<Longrightarrow>
    replace \<noteq> 0 \<Longrightarrow>
    wait_run l os w (sub @ [wait_task lib symbol offset use_offset replace origin flags timeout_ms cb user_data now]) w2"
| run_cancel: "wait_run l os w sub w1 \<Longrightarrow> Waiter_Cancel lib symbol w1 = (n, w2) \<Longrightarrow> wait_run l os w sub w2"
| run_worker: "wait_run l os w sub w1 \<Longrightarrow> worker_round l os now w1 = Inr w2 \<Longrightarrow> wait_run l os w sub w2"

section \<open>Every task is reported once\<close>

text \<open>What a callback is told of a task, whatever the status; and what has been told.\<close>

definition about :: "WaitTask \<Rightarrow> string \<times> string \<times> u32" where
  "about t = (wt_lib t, wt_symbol t, wt_user_data t)"

definition due :: "WaitTask \<Rightarrow> (string \<times> string \<times> u32) multiset" where
  "due t = (if wt_cb t then {#about t#} else {#})"

definition awaited :: "WaitTask list \<Rightarrow> (string \<times> string \<times> u32) multiset" where
  "awaited ts = mset (map about (filter wt_cb ts))"

definition told :: "wait_call list \<Rightarrow> (string \<times> string \<times> u32) multiset" where
  "told calls = mset (map (\<lambda>(_, lib, symbol, _, user_data). (lib, symbol, user_data)) calls)"

lemma awaited_simps [simp]:
  "awaited [] = {#}" "awaited (t # ts) = due t + awaited ts" "awaited (ts @ us) = awaited ts + awaited us"
  by (simp_all add: awaited_def due_def)

lemma told_tell [simp]: "told (tell status t resolved calls) = told calls + due t"
  by (simp add: told_def tell_def due_def about_def)

lemma told_fold [simp]: "told (fold (\<lambda>t. tell status t 0) ts calls) = told calls + awaited ts"
  by (induction ts arbitrary: calls) (simp_all add: add.assoc)

lemma awaited_partition: "awaited (filter P ts) + awaited (filter (\<lambda>t. \<not> P t) ts) = awaited ts"
  by (induction ts) (auto simp: add_ac)

lemma try_install_reports:
  assumes "try_install l os t w = Inr (installed, t', w')" and "\<not> wt_done t"
  shows "w_tasks w' = w_tasks w \<and> wt_done t' = installed
    \<and> (if installed then told (w_calls w') = told (w_calls w) + due t else t' = t \<and> w' = w)"
proof -
  have "due (t\<lparr>wt_origin := v, wt_done := b\<rparr>) = due t" "due (t\<lparr>wt_done := b\<rparr>) = due t" for v b
    by (simp_all add: due_def about_def)
  then show ?thesis
    using assms
    by (auto simp: try_install_def Let_def sbind_eq_Inr split: if_splits option.splits)
qed

lemma worker_pass_reports:
  assumes "worker_pass l os now ts w = Inr (ts', w')" and "\<forall>t \<in> set ts. \<not> wt_done t"
  shows "w_tasks w' = w_tasks w \<and> (\<forall>t \<in> set ts'. \<not> wt_done t) \<and> set ts' \<subseteq> set ts
    \<and> awaited ts' + told (w_calls w') = awaited ts + told (w_calls w)"
  using assms
proof (induction ts arbitrary: w ts' w')
  case Nil
  then show ?case by simp
next
  case (Cons t ts)
  have nd: "\<not> wt_done t" "\<forall>t \<in> set ts. \<not> wt_done t"
    using Cons.prems(2) by simp_all
  show ?case
  proof (cases "wt_timeout_ms t \<noteq> 0 \<and> now - wt_start_ms t > ucast (wt_timeout_ms t)")
    case True
    then have "worker_pass l os now ts (w\<lparr>w_calls := tell (-2) t 0 (w_calls w)\<rparr>) = Inr (ts', w')"
      using Cons.prems(1) nd by simp
    from Cons.IH[OF this nd(2)] show ?thesis
      by (auto simp: add_ac)
  next
    case False
    then obtain installed t1 w1 where t: "try_install l os t w = Inr (installed, t1, w1)"
      using Cons.prems(1) nd by (auto simp: sbind_eq_Inr)
    note r = try_install_reports[OF t nd(1)]
    show ?thesis
    proof (cases installed)
      case True
      then have "worker_pass l os now ts w1 = Inr (ts', w')"
        using Cons.prems(1) nd False t r by auto
      from Cons.IH[OF this nd(2)] show ?thesis
        using r True by (auto simp: add_ac)
    next
      case ni: False
      then obtain us where us: "worker_pass l os now ts w = Inr (us, w')" "ts' = t # us"
        using Cons.prems(1) nd False t r by (auto simp: sbind_eq_Inr)
      from Cons.IH[OF us(1) nd(2)] show ?thesis
        using us(2) nd(1) by (auto simp: add_ac)
    qed
  qed
qed

lemma wait_run_reports:
  assumes "wait_run l os w sub w'" and "w_tasks w = []" and "w_calls w = []"
  shows "(\<forall>t \<in> set (w_tasks w'). \<not> wt_done t) \<and> awaited sub = awaited (w_tasks w') + told (w_calls w')"
  using assms
proof (induction rule: wait_run.induct)
  case run_start
  then show ?case by (simp add: told_def)
next
  case (run_submit sub w1 lib symbol offset use_offset replace origin flags timeout_ms cb user_data now status w2)
  let ?t = "wait_task lib symbol offset use_offset replace origin flags timeout_ms cb user_data now"
  obtain installed t w3 where t: "try_install l os ?t w1 = Inr (installed, t, w3)"
      and w2: "w2 = (if installed then w3 else w3\<lparr>w_tasks := w_tasks w3 @ [t]\<rparr>)"
    using run_submit.hyps by (fastforce simp: Waiter_Submit_def sbind_eq_Inr split: if_splits)
  have "\<not> wt_done ?t" by (simp add: wait_task_def)
  from try_install_reports[OF t this] show ?case
    using run_submit.IH run_submit.prems w2 by (auto simp: add_ac wait_task_def split: if_splits)
next
  case (run_cancel sub w1 lib symbol n w2)
  let ?P = "\<lambda>t. wt_lib t = lib \<and> (case symbol of None \<Rightarrow> True | Some s \<Rightarrow> wt_symbol t = s)"
  have "w2 = w1\<lparr>w_tasks := filter (\<lambda>t. \<not> ?P t) (w_tasks w1), w_calls := fold (\<lambda>t. tell (-3) t 0) (filter ?P (w_tasks w1)) (w_calls w1)\<rparr>"
    using run_cancel.hyps(2) by (simp add: Waiter_Cancel_def Let_def)
  then show ?case
    using run_cancel.IH run_cancel.prems awaited_partition[of ?P "w_tasks w1"] by (simp add: add_ac)
next
  case (run_worker sub w1 now w2)
  then obtain ts w3 where p: "worker_pass l os now (w_tasks w1) w1 = Inr (ts, w3)" "w2 = w3\<lparr>w_tasks := ts\<rparr>"
    by (auto simp: worker_round_def sbind_eq_Inr)
  from worker_pass_reports[OF p(1)] show ?case
    using run_worker.IH run_worker.prems p(2) by auto
qed

text \<open>A round leaves no task whose time is up.\<close>

lemma worker_pass_expires:
  assumes "worker_pass l os now ts w = Inr (ts', w')" and "\<forall>t \<in> set ts. \<not> wt_done t" and "t \<in> set ts'"
  shows "wt_timeout_ms t = 0 \<or> now - wt_start_ms t \<le> ucast (wt_timeout_ms t)"
  using assms
proof (induction ts arbitrary: w ts' w')
  case Nil
  then show ?case by simp
next
  case (Cons u ts)
  have nd: "\<not> wt_done u" "\<forall>t \<in> set ts. \<not> wt_done t"
    using Cons.prems(2) by simp_all
  show ?case
  proof (cases "wt_timeout_ms u \<noteq> 0 \<and> now - wt_start_ms u > ucast (wt_timeout_ms u)")
    case True
    then show ?thesis
      using Cons.IH[OF _ nd(2) Cons.prems(3)] Cons.prems(1) nd(1) by simp
  next
    case False
    then obtain installed t1 w1 where t: "try_install l os u w = Inr (installed, t1, w1)"
      using Cons.prems(1) nd by (auto simp: sbind_eq_Inr)
    note r = try_install_reports[OF t nd(1)]
    show ?thesis
    proof (cases installed)
      case True
      then show ?thesis
        using Cons.IH[OF _ nd(2) Cons.prems(3)] Cons.prems(1) nd(1) False t r by auto
    next
      case ni: False
      then obtain us where us: "worker_pass l os now ts w = Inr (us, w')" "ts' = u # us"
        using Cons.prems(1) nd False t r by (auto simp: sbind_eq_Inr)
      then show ?thesis
        using Cons.IH[OF us(1) nd(2)] Cons.prems(3) False by (auto simp: not_less)
    qed
  qed
qed

text \<open>
  C12.  Every accepted task is reported exactly once.  Whatever submissions, cancellations and rounds of the
  worker there were, the callbacks owed to the tasks that were accepted are those owed to the tasks still
  pending and those already made, each counted as often as it occurs; and after a further round no task is
  pending whose time is up.
\<close>

theorem wait_tasks_reported_once:
  assumes "wait_run l os w sub w'" and "w_tasks w = []" and "w_calls w = []"
  shows "awaited sub = awaited (w_tasks w') + told (w_calls w')
    \<and> (\<forall>now w2. worker_round l os now w' = Inr w2 \<longrightarrow>
         (\<forall>t \<in> set (w_tasks w2). wt_timeout_ms t = 0 \<or> now - wt_start_ms t \<le> ucast (wt_timeout_ms t)))"
  using wait_run_reports[OF assms] worker_pass_expires by (fastforce simp: worker_round_def sbind_eq_Inr)

text \<open>A process in which no library is found: a task with a time limit is reported as timed out.\<close>

definition no_libraries :: "unit linker32" where
  "no_libraries = \<lparr>xdl_open = (\<lambda>_ _. 0), xdl_sym = (\<lambda>_ _ _. 0), xdl_dsym = (\<lambda>_ _ _. 0), self_maps = (\<lambda>_. [])\<rparr>"

definition idle_waiter :: "unit waiter" where
  "idle_waiter = \<lparr>w_hooker = small32_start, w_tasks = [], w_calls = []\<rparr>"

definition waiting_task :: WaitTask where
  "waiting_task = wait_task ''libx.so'' (Some ''f'') 0 False 0x9000 None 0 1000 True 7 0"

theorem wait_tasks_reported_once_witness:
  "\<exists>w'. wait_run no_libraries small32 idle_waiter [waiting_task] w' \<and> w_tasks w' = []
    \<and> w_calls w' = [(-2, ''libx.so'', ''f'', 0, 7)] \<and> awaited [waiting_task] = told (w_calls w')"
proof -
  let ?w1 = "idle_waiter\<lparr>w_tasks := [waiting_task]\<rparr>"
  let ?w2 = "idle_waiter\<lparr>w_calls := [(-2, ''libx.so'', ''f'', 0, 7)]\<rparr>"
  have "Waiter_Submit no_libraries small32 (Some ''libx.so'') (Some ''f'') 0 False 0x9000 None 0 1000 True 7 0 idle_waiter = Inr (0, ?w1)"
    by (simp add: Waiter_Submit_def try_install_def wait_task_def Symbols_Find_def no_libraries_def idle_waiter_def waiting_task_def)
  then have "wait_run no_libraries small32 idle_waiter [waiting_task] ?w1"
    using run_submit[OF run_start] by (force simp: waiting_task_def)
  moreover have "worker_round no_libraries small32 2000 ?w1 = Inr ?w2"
    by (simp add: worker_round_def waiting_task_def wait_task_def tell_def idle_waiter_def)
  ultimately have r: "wait_run no_libraries small32 idle_waiter [waiting_task] ?w2"
    by (rule run_worker)
  show ?thesis
    using wait_tasks_reported_once[OF r] r by (intro exI[of _ ?w2]) (auto simp: idle_waiter_def)
qed

end
