(* ===== verification/Arm32_Sites.thy ===== *)
theory Arm32_Sites
  imports Arm32_Hooker_Proofs
begin

text \<open>
  Single call sites, \<^verbatim>\<open>src/src/callsite.cpp\<close>, and guarded slots, \<^verbatim>\<open>src/src/guard_slot.cpp\<close>.  The guards are
  under a mutex, so one round of their worker is one step.
\<close>

section \<open>Call sites\<close>

record CsRec =
  cs_site :: u32
  cs_orig_callee :: u32
  cs_stub :: u32

record 'k callsites =
  c_mach :: "'k mach32"
  c_sites :: "CsRec list"

text \<open>Two halfwords read as unsigned integers.\<close>

definition load_halves :: "'k mach32 \<Rightarrow> u32 \<Rightarrow> (u32 \<times> u32) result" where
  "load_halves m a = sbind (load32 m a 2) (\<lambda>h. sbind (load32 m (a + 2) 2) (\<lambda>h2. Inr (le_word h, le_word h2)))"

definition encode_thumb_bl :: "bool \<Rightarrow> u32 \<Rightarrow> u32 \<times> u32" where
  "encode_thumb_bl is_blx off =
     (let S = drop_bit 24 off AND 1;
          I1 = drop_bit 23 off AND 1; I2 = drop_bit 22 off AND 1;
          imm10 = drop_bit 12 off AND 0x3FF; imm11 = drop_bit 1 off AND 0x7FF;
          J1 = 1 - (I1 XOR S); J2 = 1 - (I2 XOR S)
      in (0xF000 OR push_bit 10 S OR imm10, (if is_blx then 0xC000 else 0xD000) OR push_bit 13 J1 OR push_bit 11 J2 OR imm11))"

definition rewrite_thumb_bl :: "u32 \<Rightarrow> u32 \<Rightarrow> 'k mach32 \<Rightarrow> (bool \<times> 'k mach32) result" where
  "rewrite_thumb_bl site new_callee m =
     (let base = (if site AND 1 \<noteq> 0 then site - 1 else site)
      in sbind (load_halves m base) (\<lambda>(hw, hw2).
         if hw AND 0xF800 \<noteq> 0xF000 then Inr (False, m)
         else if hw2 AND 0x2800 \<noteq> 0 \<and> hw2 AND 0x2800 \<noteq> 0x2800 then Inr (False, m)
         else let is_blx = (hw2 AND 0x2800 = 0x2800);
                  off = new_callee - (base + 4);
                  off = (if is_blx then off AND NOT 3 else off)
              in if sint off > 0x7FFFFF \<or> sint off < - 0x800000 then Inr (False, m)
                 else let (h, h2) = encode_thumb_bl is_blx off
                      in sbind (store32 m base (le_bytes 2 h)) (\<lambda>m.
                         sbind (store32 m (base + 2) (le_bytes 2 h2)) (\<lambda>m. Inr (True, m)))))"

text \<open>The result: status, what is stored through \<^verbatim>\<open>orig_callee_out\<close> (when it is, and it is not null), and the state.\<close>

definition CallSite_Hook ::
  "'k os32 \<Rightarrow> u32 \<Rightarrow> bool \<Rightarrow> u32 \<Rightarrow> 'k callsites \<Rightarrow> (DobbyStatus \<times> u32 option \<times> 'k callsites) result" where
  "CallSite_Hook os site want_callee new_callee st =
     (if site = 0 \<or> new_callee = 0 then Inr (DOBBY_ERR_INVALID, None, st)
      else if site AND 1 = 0 then Inr (DOBBY_ERR_UNSUPPORTED, None, st)
      else let base = site - 1
           in sbind (load_halves (c_mach st) base) (\<lambda>(hw, hw2).
              if hw AND 0xF800 \<noteq> 0xF000 then Inr (DOBBY_ERR_UNSUPPORTED, None, st)
              else let is_blx = (hw2 AND 0x2800 = 0x2800);
                       callee = base + 4 + thumb_bl_offset hw hw2;
                       callee = (if is_blx then callee AND NOT 3 else callee);
                       out = (if want_callee then Some callee else None)
                   in if length (c_sites st) \<ge> 32 then Inr (DOBBY_ERR_FAILED, out, st)
                      else let (r, m) = Util_Protect os site 4 (PROT_READ OR PROT_WRITE OR PROT_EXEC) (c_mach st)
                           in if r \<noteq> 0 then Inr (DOBBY_ERR_FAILED, out, st\<lparr>c_mach := m\<rparr>)
                              else sbind (rewrite_thumb_bl site new_callee m) (\<lambda>(ok, m).
                                if \<not> ok then Inr (DOBBY_ERR_FAILED, out, st\<lparr>c_mach := m\<rparr>)
                                else Inr (DOBBY_OK, out, st\<lparr>c_mach := m, c_sites := c_sites st @
                                       [\<lparr>cs_site = site, cs_orig_callee = callee, cs_stub = 0\<rparr>]\<rparr>))))"

definition CallSite_Unhook :: "u32 \<Rightarrow> 'k callsites \<Rightarrow> (DobbyStatus \<times> 'k callsites) result" where
  "CallSite_Unhook site st =
     (case find_pos (\<lambda>r. cs_site r = site) (c_sites st) of
        None \<Rightarrow> Inr (DOBBY_ERR_NOT_FOUND, st)
      | Some i \<Rightarrow> sbind (rewrite_thumb_bl site (cs_orig_callee (c_sites st ! i)) (c_mach st)) (\<lambda>(_, m).
          Inr (DOBBY_OK, st\<lparr>c_mach := m, c_sites := swap_remove i (c_sites st)\<rparr>)))"

definition CallSite_OrigCallee :: "u32 \<Rightarrow> 'k callsites \<Rightarrow> u32" where
  "CallSite_OrigCallee site st =
     (case find_pos (\<lambda>r. cs_site r = site) (c_sites st) of None \<Rightarrow> 0 | Some i \<Rightarrow> cs_orig_callee (c_sites st ! i))"

section \<open>Guarded slots\<close>

text \<open>A guard: the slot, the value it should hold, and whether the guard is on.\<close>

type_synonym guard = "u32 \<times> u32 \<times> bool"

definition GuardSlot_Add :: "u32 \<Rightarrow> u32 \<Rightarrow> guard list \<Rightarrow> DobbyStatus \<times> guard list" where
  "GuardSlot_Add slot expected_value gs = (DOBBY_OK, gs @ [(slot, expected_value, True)])"

fun GuardSlot_Remove :: "u32 \<Rightarrow> guard list \<Rightarrow> DobbyStatus \<times> guard list" where
  "GuardSlot_Remove slot [] = (DOBBY_ERR_NOT_FOUND, [])"
| "GuardSlot_Remove slot (g # gs) =
     (if fst g = slot then (DOBBY_OK, gs) else case GuardSlot_Remove slot gs of (r, gs) \<Rightarrow> (r, g # gs))"

fun guard_round :: "guard list \<Rightarrow> 'k mach32 \<Rightarrow> 'k mach32 result" where
  "guard_round [] m = Inr m"
| "guard_round ((slot, expected, enabled) # gs) m =
     (if \<not> enabled then guard_round gs m
      else sbind (load32 m slot 4) (\<lambda>cur.
           sbind (if le_word cur \<noteq> expected then store32 m slot (le_bytes 4 expected) else Inr m) (guard_round gs)))"

section \<open>What a round of the guards does\<close>

lemma guard_round_mem:
  assumes "guard_round gs m = Inr m'" and "\<forall>slot e. (slot, e, True) \<in> set gs \<longrightarrow> x \<notin> range_addrs slot 4"
  shows "p_mem m' x = p_mem m x"
  using assms
proof (induction gs m rule: guard_round.induct)
  case (2 slot expected enabled gs m)
  show ?case
  proof (cases enabled)
    case True
    then obtain cur m1 where step: "load32 m slot 4 = Inr cur" "guard_round gs m1 = Inr m'"
        "(if le_word cur \<noteq> expected then store32 m slot (le_bytes 4 expected) else Inr m) = Inr m1"
      using 2(3) by (auto simp: sbind_eq_Inr)
    have "p_mem m1 x = p_mem m x"
      using step(3) 2(4) True by (auto simp: store32_eq_Inr mem_write_outside simp del: le_bytes.simps split: if_splits)
    then show ?thesis
      using 2(2)[of cur m1] 2(4) True step by auto
  qed (use 2 in auto)
qed simp

text \<open>After a round every guarded slot holds its value, where the slots do not overlap.\<close>

lemma guard_round_restores:
  assumes "guard_round gs m = Inr m'" and "(slot, expected, True) \<in> set gs"
    and "\<forall>(s, e, on) \<in> set gs. s = slot \<and> e = expected \<or> range_addrs s 4 \<inter> range_addrs slot 4 = {}"
  shows "le_word (mem_read (p_mem m') slot 4) = expected"
  using assms
proof (induction gs m rule: guard_round.induct)
  case (2 s e on gs m)
  show ?case
  proof (cases "(slot, expected, True) \<in> set gs")
    case True
    then show ?thesis
      using 2 by (cases on) (auto simp: sbind_eq_Inr)
  next
    case False
    then have head: "s = slot" "e = expected" on
      using 2(4) by auto
    then obtain m1 where m1: "guard_round gs m1 = Inr m'"
        "p_mem m1 = (if le_word (mem_read (p_mem m) slot 4) \<noteq> expected then mem_write (p_mem m) slot (le_bytes 4 expected) else p_mem m)"
      using 2(3) by (auto simp: sbind_eq_Inr load32_eq_Inr store32_eq_Inr split: if_splits)
    have "le_word (mem_read (p_mem m1) slot 4) = expected"
      using m1(2) mem_read_write_same[of "le_bytes 4 expected" "p_mem m" slot] by (auto simp del: le_bytes.simps)
    moreover have "p_mem m' x = p_mem m1 x" if "x \<in> range_addrs slot 4" for x
    proof -
      have "x \<notin> range_addrs s' 4" if "(s', e', True) \<in> set gs" for s' e'
        using 2(5) False that \<open>x \<in> range_addrs slot 4\<close> by fastforce
      then show ?thesis
        using guard_round_mem[OF m1(1)] by blast
    qed
    then have "mem_read (p_mem m') slot 4 = mem_read (p_mem m1) slot 4"
      by (rule mem_read_cong)
    ultimately show ?thesis by simp
  qed
qed simp

section \<open>Departures of call sites\<close>

lemma low_bit_cases: "(w :: u32) AND 1 = 0 \<or> w AND 1 = 1"
  by (cases "even w") (simp_all add: and_one_eq mod_2_eq_odd)

text \<open>The two halfwords that are written fit in 16 bits; those for a \<^verbatim>\<open>BLX\<close> are read as one.\<close>

lemma thumb_J_bit: "1 - ((v AND 1) XOR (w AND 1)) \<in> {0, 1 :: u32}"
  using low_bit_cases[of v] low_bit_cases[of w] by auto

lemma encode_fits:
  assumes "encode_thumb_bl is_blx off = (h, h2)"
  shows "le_word (le_bytes 2 h) = h" "le_word (le_bytes 2 h2) = h2"
    "is_blx \<Longrightarrow> \<exists>o1. t32_bl h h2 = Some (True, o1)"
proof -
  define J1 where "J1 = 1 - ((drop_bit 23 off AND 1) XOR (drop_bit 24 off AND 1))"
  define J2 where "J2 = 1 - ((drop_bit 22 off AND 1) XOR (drop_bit 24 off AND 1))"
  have J: "J1 \<in> {0, 1}" "J2 \<in> {0, 1}"
    unfolding J1_def J2_def by (rule thumb_J_bit)+
  have h: "h = 0xF000 OR push_bit 10 (drop_bit 24 off AND 1) OR (drop_bit 12 off AND 0x3FF)"
    and h2: "h2 = (if is_blx then 0xC000 else 0xD000) OR push_bit 13 J1 OR push_bit 11 J2 OR (drop_bit 1 off AND 0x7FF)"
    using assms by (simp_all only: encode_thumb_bl_def Let_def J1_def J2_def prod.inject)
  have "take_bit 16 h = h"
    unfolding h by (simp add: take_bit_eq_mask mask_eq_exp_minus_1 bit.conj_disj_distrib2 and.assoc)
  moreover have "take_bit 16 h2 = h2"
    unfolding h2 using J by (auto simp: take_bit_eq_mask mask_eq_exp_minus_1 bit.conj_disj_distrib2 and.assoc)
  ultimately show "le_word (le_bytes 2 h) = h" "le_word (le_bytes 2 h2) = h2"
    using le_word_le_bytes[of 2 h] le_word_le_bytes[of 2 h2] by (simp_all del: le_bytes.simps)
  assume b: is_blx
  have "h AND 0xF800 = 0xF000"
    unfolding h by (simp add: bit.conj_disj_distrib2 and.assoc)
  moreover have "h2 AND 0xC000 = 0xC000"
    unfolding h2 using J b by (auto simp: bit.conj_disj_distrib2 and.assoc)
  moreover have "\<not> bit h2 12"
    unfolding h2 using J b by (auto simp: bit_simps)
  ultimately show "\<exists>o1. t32_bl h h2 = Some (True, o1)"
    by (simp add: t32_bl_def Let_def)
qed

lemma rewrite_blx:
  assumes "rewrite_thumb_bl site new_callee m = Inr (True, m')" and "site AND 1 = 1"
    and "load_halves m (site - 1) = Inr (hw, hw2)" and "hw2 AND 0x2800 = 0x2800"
  shows "\<exists>off h h2. encode_thumb_bl True off = (h, h2) \<and> p_prot m' = p_prot m
    \<and> p_mem m' = mem_write (p_mem m) (site - 1) (le_bytes 2 h @ le_bytes 2 h2)"
proof -
  let ?off = "(new_callee - (site - 1 + 4)) AND NOT 3"
  obtain h h2 where h: "encode_thumb_bl True ?off = (h, h2)"
    by (cases "encode_thumb_bl True ?off")
  have "p_mem m' = mem_write (mem_write (p_mem m) (site - 1) (le_bytes 2 h)) (site - 1 + 2) (le_bytes 2 h2) \<and> p_prot m' = p_prot m"
    using assms h by (auto simp: rewrite_thumb_bl_def Let_def sbind_eq_Inr store32_eq_Inr simp del: le_bytes.simps split: if_splits)
  then show ?thesis
    using h mem_write_append[of "p_mem m" "site - 1" "le_bytes 2 h" "le_bytes 2 h2"]
    by (intro exI[of _ ?off] exI[of _ h] exI[of _ h2]) (simp del: le_bytes.simps)
qed

lemma load_halves_eq:
  "load_halves m a = Inr (hw, hw2) \<Longrightarrow> hw = le_word (mem_read (p_mem m) a 2) \<and> hw2 = le_word (mem_read (p_mem m) (a + 2) 2)"
  by (auto simp: load_halves_def sbind_eq_Inr load32_eq_Inr)

context linux32
begin

lemma call_site_exchange:
  assumes "CallSite_Hook os site want_callee new_callee st = Inr (DOBBY_OK, callee, st1)"
    and "le_word (mem_read (p_mem (c_mach st)) (site + 1) 2) AND 0x2800 = (0x2800 :: u32)"
  shows "\<exists>off. t32_bl (le_word (mem_read (p_mem (c_mach st1)) (site - 1) 2)) (le_word (mem_read (p_mem (c_mach st1)) (site + 1) 2)) = Some (True, off)"
proof -
  have odd: "site AND 1 = 1"
    using assms(1) low_bit_cases[of site] by (auto simp: CallSite_Hook_def split: if_splits)
  have next_half: "site - 1 + 2 = site + 1" by simp
  obtain r m1 where m1: "Util_Protect os site 4 7 (c_mach st) = (r, m1)"
    by (metis prod.collapse)
  then have w: "rewrite_thumb_bl site new_callee m1 = Inr (True, c_mach st1)"
    using assms(1) odd
    by (auto simp: CallSite_Hook_def prot_defs Let_def sbind_eq_Inr split: if_splits)
  then obtain hw hw2 where lh: "load_halves m1 (site - 1) = Inr (hw, hw2)"
    using odd by (auto simp: rewrite_thumb_bl_def Let_def sbind_eq_Inr)
  have "hw2 AND 0x2800 = 0x2800"
    using load_halves_eq[OF lh] assms(2) protect_mem[OF m1] unfolding next_half by simp
  then obtain off h h2 where e: "encode_thumb_bl True off = (h, h2)"
      "p_mem (c_mach st1) = mem_write (p_mem m1) (site - 1) (le_bytes 2 h @ le_bytes 2 h2)"
    using rewrite_blx[OF w odd lh] by blast
  have b: "bytes_at (p_mem (c_mach st1)) (site - 1) (le_bytes 2 h @ le_bytes 2 h2)"
    unfolding e(2) by (rule mem_write_bytes_at) simp
  have "mem_read (p_mem (c_mach st1)) (site - 1) 2 = le_bytes 2 h" "mem_read (p_mem (c_mach st1)) (site - 1 + of_nat 2) 2 = le_bytes 2 h2"
    using bytes_at_read[OF b, of 0 2] bytes_at_read[OF b, of 2 2] by (simp_all del: le_bytes.simps)
  then show ?thesis
    using encode_fits[OF e(1)] by (simp add: add.commute del: le_bytes.simps)
qed

end

text \<open>
  C40.  Hooking a call changes its instruction set.  Both bits tested by \<^verbatim>\<open>CallSite::Hook\<close> to tell a
  \<^verbatim>\<open>BLX\<close> from a \<^verbatim>\<open>BL\<close> belong to the offset and are set in every call of a nearby function.  When such a call
  is hooked the instruction written is a \<^verbatim>\<open>BLX\<close>, which enters the new callee in ARM state, also where the
  call was a \<^verbatim>\<open>BL\<close>.
\<close>

theorem call_site_becomes_exchange:
  assumes "linux32 os" and "CallSite_Hook os site want_callee new_callee st = Inr (DOBBY_OK, callee, st1)"
    and "le_word (mem_read (p_mem (c_mach st)) (site + 1) 2) AND 0x2800 = (0x2800 :: u32)"
  shows "\<exists>off. t32_bl (le_word (mem_read (p_mem (c_mach st1)) (site - 1) 2)) (le_word (mem_read (p_mem (c_mach st1)) (site + 1) 2)) = Some (True, off)"
  by (rule linux32.call_site_exchange[OF assms])

text \<open>A page with a call 256 bytes ahead at its start, \<^verbatim>\<open>BL\<close> with both bits set.\<close>

definition small32_call :: "unit callsites" where
  "small32_call =
     \<lparr>c_mach = \<lparr>p_mem = mem_write (\<lambda>_. 0) 0x8000 [0x00, 0xF0, 0x80, 0xF8], p_prot = [0x8000 \<mapsto> 5], p_kernel = ()\<rparr>, c_sites = []\<rparr>"

lemma small32_call_pages: "pages32 0x8000 2 = {0x8000}" "pages32 0x8002 2 = {0x8000}" "pages32 0x8001 4 = {0x8000}"
  by (subst pages32_eq; simp add: page32_def ALIGN_FLOOR_def)+

lemma small32_call_halves:
  "mem_read (p_mem (c_mach small32_call)) 0x8000 2 = [0x00, 0xF0]" "mem_read (p_mem (c_mach small32_call)) 0x8002 2 = [0x80, 0xF8]"
proof -
  have "bytes_at (p_mem (c_mach small32_call)) 0x8000 [0x00, 0xF0, 0x80, 0xF8]"
    unfolding small32_call_def by (simp only: callsites.simps mach32.simps) (rule mem_write_bytes_at, simp)
  note bytes_at_read[OF this, of 0 2] bytes_at_read[OF this, of 2 2]
  then show "mem_read (p_mem (c_mach small32_call)) 0x8000 2 = [0x00, 0xF0]" "mem_read (p_mem (c_mach small32_call)) 0x8002 2 = [0x80, 0xF8]"
    by simp_all
qed

lemma small32_call_hook:
  "\<exists>st1. CallSite_Hook small32 0x8001 True 0x9000 small32_call = Inr (DOBBY_OK, Some 0x8104, st1)"
proof -
  let ?m = "c_mach small32_call"
  let ?m1 = "?m\<lparr>p_prot := \<lambda>p. if p = 0x8000 then Some 7 else p_prot ?m p\<rparr>"
  have p: "p_prot ?m 0x8000 = Some 5" "c_sites small32_call = []" by (simp_all add: small32_call_def)
  have l: "load_halves ?m 0x8000 = Inr (0xF000, 0xF880)" "load_halves ?m1 0x8000 = Inr (0xF000, 0xF880)"
    by (simp_all add: load_halves_def load32_def permits_pages small32_call_pages small32_call_halves p prot_defs)
  have pr: "Util_Protect small32 0x8001 4 7 ?m = (0, ?m1)"
    by (simp add: Util_Protect_def small32_def mapped32_def small32_pages p)
  have "\<exists>m2. rewrite_thumb_bl 0x8001 0x9000 ?m1 = Inr (True, m2)"
    by (simp add: rewrite_thumb_bl_def l store32_def permits_pages small32_call_pages prot_defs split_beta del: le_bytes.simps)
  then show ?thesis
    using pr by (auto simp: CallSite_Hook_def l thumb_bl_offset_def prot_defs p(2))
qed

theorem call_site_becomes_exchange_witness:
  "\<exists>st1 off. CallSite_Hook small32 0x8001 True 0x9000 small32_call = Inr (DOBBY_OK, Some 0x8104, st1)
    \<and> t32_bl (le_word (mem_read (p_mem (c_mach small32_call)) 0x8000 2)) (le_word (mem_read (p_mem (c_mach small32_call)) 0x8002 2)) = Some (False, 0x100)
    \<and> t32_bl (le_word (mem_read (p_mem (c_mach st1)) 0x8000 2)) (le_word (mem_read (p_mem (c_mach st1)) 0x8002 2)) = Some (True, off)"
proof -
  obtain st1 where h: "CallSite_Hook small32 0x8001 True 0x9000 small32_call = Inr (DOBBY_OK, Some 0x8104, st1)"
    using small32_call_hook by blast
  show ?thesis
    using call_site_becomes_exchange[OF small32.linux32_axioms h] h by (auto simp: small32_call_halves t32_bl_def)
qed

end
