(* ===== verification/Library_Init.thy ===== *)
theory Library_Init
  imports Arm32_Hooker_Proofs
begin

text \<open>
  Starting the library: \<^verbatim>\<open>DobbyInit\<close>, \<^verbatim>\<open>DobbyShutdown\<close> and \<^verbatim>\<open>DobbyHook\<close> of \<^verbatim>\<open>src/src/main.cpp\<close> and
  \<^verbatim>\<open>LinkerMonitor::Start\<close> of \<^verbatim>\<open>src/src/linker_monitor.cpp\<close>, which call each other.  \<^verbatim>\<open>DobbyInit\<close> has
  fuel that bounds how deep its calls are nested; a call that does not return at that depth is none.  The
  dynamic linker is a parameter.  What the threads do that are started is not modelled here.
\<close>

section \<open>The library and its start\<close>

text \<open>
  The static variables: \<^verbatim>\<open>g_init\<close>, the flags of the four services, and the hooks.  \<^verbatim>\<open>dlopen\<close> and
  \<^verbatim>\<open>dlsym\<close> give 0 for a null pointer.
\<close>

record 'k library =
  l_init :: bool
  l_plt_started :: bool
  l_worker_started :: bool
  l_monitor_started :: bool
  l_guard_started :: bool
  l_hooker :: "'k hooker"

record 'k loader32 =
  ld_dlopen :: "'k mach32 \<Rightarrow> string \<Rightarrow> u32"
  ld_dlsym :: "'k mach32 \<Rightarrow> u32 \<Rightarrow> string \<Rightarrow> u32"

type_synonym ('k, 'a) call = "'k library \<Rightarrow> ('a \<times> 'k library) result option"

text \<open>\<open>init\<close> is the call of \<^verbatim>\<open>DobbyInit\<close> that is made when the library is not initialised.\<close>

definition DobbyHook_v2 ::
  "('k, DobbyStatus) call \<Rightarrow> 'k os32 \<Rightarrow> u32 \<Rightarrow> u32 \<Rightarrow> bool \<Rightarrow> ('k, DobbyStatus \<times> u32 option) call" where
  "DobbyHook_v2 init os target replace want_origin st =
     map_option (\<lambda>r. sbind r (\<lambda>(_, st).
         sbind (Hooker_Hook os target replace want_origin (l_hooker st)) (\<lambda>(rc, orig, h). Inr ((rc, orig), st\<lparr>l_hooker := h\<rparr>))))
       (if \<not> l_init st then init st else Some (Inr (DOBBY_OK, st)))"

text \<open>\<open>fake\<close> is the address of \<^verbatim>\<open>fake_dlopen_ext\<close>.\<close>

definition LinkerMonitor_Start ::
  "('k, DobbyStatus) call \<Rightarrow> 'k loader32 \<Rightarrow> 'k os32 \<Rightarrow> u32 \<Rightarrow> ('k, bool) call" where
  "LinkerMonitor_Start init ld os fake st =
     (if l_monitor_started st then Some (Inr (True, st))
      else let m = v_mach (l_hooker st);
               libc = ld_dlopen ld m ''libc.so'';
               addr = ld_dlsym ld m libc ''android_dlopen_ext''
           in if libc = 0 then Some (Inr (False, st))
              else if addr \<noteq> 0
                   then map_option (\<lambda>r. sbind r (\<lambda>((rc, _), st).
                            let st = (if rc = DOBBY_OK then st\<lparr>l_monitor_started := True\<rparr> else st)
                            in Inr (l_monitor_started st, st)))
                          (DobbyHook_v2 init os addr fake True st)
              else Some (Inr (False, st)))"

fun DobbyInit :: "'k loader32 \<Rightarrow> 'k os32 \<Rightarrow> u32 \<Rightarrow> nat \<Rightarrow> ('k, DobbyStatus) call" where
  "DobbyInit ld os fake 0 st = None"
| "DobbyInit ld os fake (Suc n) st =
     (if l_init st then Some (Inr (DOBBY_OK, st))
      else let st = st\<lparr>l_plt_started := True, l_worker_started := True\<rparr>
           in map_option (\<lambda>r. sbind r (\<lambda>(_, st). Inr (DOBBY_OK, st\<lparr>l_guard_started := True, l_init := True\<rparr>)))
                (LinkerMonitor_Start (DobbyInit ld os fake n) ld os fake st))"

definition DobbyShutdown :: "'k library \<Rightarrow> 'k library" where
  "DobbyShutdown st = st\<lparr>l_init := False\<rparr>"

section \<open>When it returns\<close>

text \<open>The linker exports the function the monitor hooks.\<close>

definition monitored :: "'k loader32 \<Rightarrow> 'k library \<Rightarrow> bool" where
  "monitored ld st \<longleftrightarrow>
     (let m = v_mach (l_hooker st); libc = ld_dlopen ld m ''libc.so''
      in libc \<noteq> 0 \<and> ld_dlsym ld m libc ''android_dlopen_ext'' \<noteq> 0)"

lemma init_loops:
  assumes "monitored ld st" and "\<not> l_init st" and "\<not> l_monitor_started st"
  shows "DobbyInit ld os fake n st = None"
  using assms
proof (induction n arbitrary: st)
  case (Suc n)
  let ?st = "st\<lparr>l_plt_started := True, l_worker_started := True\<rparr>"
  have "DobbyInit ld os fake n ?st = None"
    by (rule Suc.IH) (use Suc.prems in \<open>simp_all add: monitored_def\<close>)
  then show ?case
    using Suc.prems by (simp add: LinkerMonitor_Start_def DobbyHook_v2_def monitored_def Let_def)
qed simp

lemma init_unmonitored:
  assumes "\<not> monitored ld st" and "\<not> l_init st" and "\<not> l_monitor_started st"
  shows "DobbyInit ld os fake (Suc n) st =
    Some (Inr (DOBBY_OK, st\<lparr>l_init := True, l_plt_started := True, l_worker_started := True, l_guard_started := True\<rparr>))"
  using assms by (auto simp: LinkerMonitor_Start_def monitored_def Let_def)

text \<open>Once the monitor runs the library can be shut down and started again.\<close>

lemma init_after_shutdown:
  assumes "l_monitor_started st"
  shows "DobbyInit ld os fake (Suc n) (DobbyShutdown st) =
    Some (Inr (DOBBY_OK, st\<lparr>l_init := True, l_plt_started := True, l_worker_started := True, l_guard_started := True\<rparr>))"
  using assms by (simp add: DobbyShutdown_def LinkerMonitor_Start_def)

text \<open>
  C13.  The library cannot be started where the linker exports the function its monitor hooks.  The monitor
  hooks it through \<^verbatim>\<open>DobbyHook\<close> while \<^verbatim>\<open>g_init\<close> is still false, and \<^verbatim>\<open>DobbyHook\<close> initialises the library
  first: neither \<^verbatim>\<open>DobbyInit\<close> nor the first \<^verbatim>\<open>DobbyHook\<close> returns, however deep the calls may nest.  Where
  the function is not found, \<^verbatim>\<open>DobbyInit\<close> returns with every service but the monitor started.
\<close>

theorem init_never_returns:
  assumes "\<not> l_init st" and "\<not> l_monitor_started st"
  shows "if monitored ld st
    then \<forall>n. DobbyInit ld os fake n st = None
      \<and> (\<forall>target replace want. DobbyHook_v2 (DobbyInit ld os fake n) os target replace want st = None)
    else \<forall>n. DobbyInit ld os fake (Suc n) st =
      Some (Inr (DOBBY_OK, st\<lparr>l_init := True, l_plt_started := True, l_worker_started := True, l_guard_started := True\<rparr>))"
  using init_loops[OF _ assms] init_unmonitored[OF _ assms] assms(1) by (simp add: DobbyHook_v2_def)

text \<open>A process whose linker exports the function at the start of its page of code, and one whose linker does not.\<close>

definition small32_library :: "unit library" where
  "small32_library =
     \<lparr>l_init = False, l_plt_started = False, l_worker_started = False, l_monitor_started = False, l_guard_started = False,
      l_hooker = small32_start\<rparr>"

definition exporting :: "u32 \<Rightarrow> unit loader32" where
  "exporting a = \<lparr>ld_dlopen = (\<lambda>_ _. 1), ld_dlsym = (\<lambda>_ _ _. a)\<rparr>"

theorem init_never_returns_witness:
  "(\<forall>n. DobbyInit (exporting 0x8000) small32 0x9000 n small32_library = None)
   \<and> (\<exists>st. DobbyInit (exporting 0) small32 0x9000 1 small32_library = Some (Inr (DOBBY_OK, st)) \<and> l_guard_started st)"
  using init_never_returns[of small32_library "exporting 0x8000" small32 "0x9000"]
    init_never_returns[of small32_library "exporting 0" small32 "0x9000"]
  by (auto simp: small32_library_def exporting_def monitored_def simp del: DobbyInit.simps)

end
