(* ===== verification/Spec2Isabelle.thy ===== *)
theory Spec2Isabelle
  imports Mem_Range Code_Mem_Buffer Code_Patch X86_Relocation_Proofs Arm64_Relocation_Proofs Memory_Allocator_Proofs
    Arm64_Trampoline Near_Allocator_Proofs Dobby_Process_Proofs Hook_Session Wait_Hooks Arm32_Sites Library_Init
begin

text \<open>
  Verification of the Dobby hooking library.

  \<^bold>\<open>The program.\<close>  The repository holds two libraries that redirect functions of the process they run in.
  \<^item> The tree under \<^verbatim>\<open>src/source\<close> is the engine for several architectures.  \<^verbatim>\<open>DobbyHookEx\<close> registers an
    entry in the \<^verbatim>\<open>Interceptor\<close> and routes it: a trampoline that jumps to the replacement is generated, the
    instructions it overwrites are relocated to a block of the \<^verbatim>\<open>MemoryAllocator\<close>, and \<^verbatim>\<open>DobbyCodePatch\<close> writes
    the trampoline over the target.  Destroying the entry writes the original bytes again and frees the blocks.
  \<^item> The files of \<^verbatim>\<open>src/src\<close> are a library for 32-bit ARM with its own hooking code, and the only ones that
    \<^verbatim>\<open>CMakeLists.txt\<close> builds: inline hooks, hooks that wait for a library to be loaded, single call sites,
    guarded slots, and the functions that start them.

  \<^bold>\<open>The model.\<close>  Machine integers are words of their width, structures are records, and code that can stop has
  the result type of \<open>Dobby_Prelude\<close>: assertion failures, \<^verbatim>\<open>UNIMPLEMENTED\<close>, and accesses outside a buffer or to a page
  without permission.  State is passed explicitly, mutexes make each operation a single step, and what the code
  calls outside the repository (the kernel, the heap, the dynamic linker, xDL, user callbacks) is a parameter.
  What is relied on of a parameter is a hypothesis or an assumption of a locale.

  \<^bold>\<open>The theories of the engine.\<close>
  \<^item> \<open>Dobby_Prelude\<close>: types, results, the macros of \<^verbatim>\<open>utility_macro.h\<close>, little-endian bytes, byte memory.
  \<^item> \<open>Mem_Range\<close>, \<open>Code_Mem_Buffer\<close>: \<^verbatim>\<open>MemRange\<close> and \<^verbatim>\<open>CodeMemBuffer\<close>.  The locale \<open>code_sink\<close> is what an
    emitter may rely on; the buffer is its interpretation.
  \<^item> \<open>Code_Patch\<close>: \<^verbatim>\<open>code-patch-tool-posix.cc\<close>, with the parser of \<^verbatim>\<open>/proc/self/maps\<close>.  A patch is all or
    nothing, keeps the page protections, succeeds where the kernel grants the calls, and ends.
  \<^item> \<open>X86_Opcode_Tables\<close>, \<open>X86_Decode\<close>, \<open>X86_Decode_Proofs\<close>: the decoder of \<^verbatim>\<open>x86_insn_decode\<close>, all tables
    included.  The bounds of its reads and of the length, the prefix loop in closed form, the place of a
    RIP-relative displacement, and the instructions it measures wrongly.
  \<^item> \<open>Code_Builder\<close>, \<open>X86_Relocation\<close>, \<open>X86_Relocation_Proofs\<close>: the x86-64 relocator, with
    \<^verbatim>\<open>AssemblerCodeBuilder.h\<close>.  Relocated branches, calls, conditional branches and RIP-relative operands reach
    what the originals reached, and the code ends with a jump behind the original.
  \<^item> \<open>Arm64_Constants\<close>, \<open>Arm64_Codec\<close>, \<open>Arm64_Assembler\<close>, \<open>Arm64_Relocation\<close>: the A64 encodings, immediate
    codec, assembler with labels and literals, and relocator.  \<open>Arm64_Semantics\<close> executes A64 instructions and is
    written from the architecture, not from the code.  \<open>Arm64_Relocation_Proofs\<close>: the relocated code simulates
    the original, instruction by instruction; when relocation stops; where it departs from the original.
  \<^item> \<open>Linear_Allocator\<close>, \<open>Memory_Allocator\<close>, \<open>Memory_Allocator_Proofs\<close>: the bump allocator and
    \<^verbatim>\<open>MemoryAllocator\<close>.  Blocks never overlap, pages do not leak, and the operations refine an abstract pool.
  \<^item> \<open>Near_Allocator\<close>, \<open>Near_Allocator_Proofs\<close>: \<^verbatim>\<open>NearMemoryAllocator\<close>.  The search finds the first run, and
    blocks are in the range asked for up to the alignment of their address.
  \<^item> \<open>Trampolines\<close>, \<open>Arm64_Trampoline\<close>: the trampoline objects and the far and near forms of \<^verbatim>\<open>trampoline_arm64.cc\<close>
    and \<^verbatim>\<open>near_trampoline_arm64.cc\<close>, executed in the A64 semantics.
  \<^item> \<open>Hook_Routing\<close>: \<^verbatim>\<open>Interceptor.h\<close>, \<^verbatim>\<open>InterceptRouting.h\<close> and \<^verbatim>\<open>InlineHookRouting.h\<close>.  \<open>Hook_Routing_Proofs\<close>
    proves what hooking and unhooking do for every engine with the laws of \<open>hook_environment\<close>, and that hooking
    succeeds with those of \<open>hook_environment_live\<close>.
  \<^item> \<open>Dobby_Process\<close> builds that engine from the components above over the system calls of \<^verbatim>\<open>platform-posix.cc\<close>;
    \<open>Dobby_Process_Proofs\<close> shows that it keeps the laws for every system of the locale \<open>dobby_system\<close>, and
    interprets the locales on a concrete system.  \<open>Hook_Session\<close> follows several hooks one after another.
  \<^item> This theory states the resulting properties of \<^verbatim>\<open>DobbyHookEx\<close> on the composed system.

  \<^bold>\<open>The theories of the 32-bit library.\<close>
  \<^item> \<open>Arm32_Process\<close>: the process, and \<^verbatim>\<open>util.cpp\<close>, \<^verbatim>\<open>stealth.cpp\<close>, \<^verbatim>\<open>events.cpp\<close>.
  \<^item> \<open>Arm32_Hooker\<close>, \<open>Arm32_Hooker_Proofs\<close>: \<^verbatim>\<open>hooker.cpp\<close>.  In ARM state hooking works and unhooking undoes it;
    in Thumb state the code that is written does not jump; a hook does not pass the library's own verification.
  \<^item> \<open>Wait_Hooks\<close>: \<^verbatim>\<open>waiter.cpp\<close> and \<^verbatim>\<open>symbols.cpp\<close>.  Every task is reported once over any run.
  \<^item> \<open>Arm32_Sites\<close>: \<^verbatim>\<open>callsite.cpp\<close> and \<^verbatim>\<open>guard_slot.cpp\<close>.  A short call is rewritten as an exchange; a round of
    the guards restores their slots.
  \<^item> \<open>Library_Init\<close>: the start of the library in \<^verbatim>\<open>main.cpp\<close> and \<^verbatim>\<open>linker_monitor.cpp\<close>, which need not return.

  \<^bold>\<open>Loops and bounds.\<close>  Loops that may run forever are partial functions in the option type, and that they
  return is proved: the growth of a code buffer below \<open>2 ^ 31\<close> bytes, the page loop of \<^verbatim>\<open>DobbyCodePatch\<close> for page sizes below \<open>2 ^ 63\<close>, the A64 relocation loop for
  blocks of at most \<open>2 ^ 32 - 4\<close> bytes, the x86 retry loop where the allocator refuses sizes above a limit, and the
  near allocator.  All other loops are total functions.  Only \<open>DobbyInit\<close> has fuel, the depth of its own nested
  calls; the property about it holds for every depth.  Page sizes are powers of two, as the system reports them.

  \<^bold>\<open>Not modelled.\<close>
  \<^item> The closure bridges and the instrument routing on top of them: assembly that saves all registers, vector
    registers included, around user code.
  \<^item> The ARM and IA-32 relocators, assemblers and trampolines of \<^verbatim>\<open>src/source\<close>, and the x86-64 assembler and
    trampoline: the composed system is the 64-bit ARM build.  \<^verbatim>\<open>InstructionRelocationX86.cc\<close> does not fit the headers.
  \<^item> The Darwin and Windows back ends, threads, the instruction cache, and the parser of the process layout, which is a
    parameter of the near allocator.
  \<^item> Of \<^verbatim>\<open>src/src\<close>: PLT hooks and constructor arrays, which walk ELF structures of the dynamic linker; breakpoints,
    which run in a signal handler; instrumentation, whose dispatcher is missing from the repository; and functions
    that only pass their arguments on.
  \<^item> The plug-ins, the Substrate interface, the deprecated decoder, logging, and bundled third-party code.
\<close>

section \<open>Hooks on the composed system\<close>




text \<open>
  C4.  A hook that is asked for gets installed.  Where the system grants the calls the library makes, a target
  that is not hooked yet, lies in readable code and holds no literal load that the relocator refuses is hooked:
  \<^verbatim>\<open>DobbyHookEx\<close> returns 0 and the hook is in place.
\<close>

theorem hook_gets_installed:
  assumes "dobby_system_live sys P good prog locked room" and "process_inv P good prog (hk_env st)" and "\<not> ps_fault (hk_env st)"
    and "a \<noteq> 0" and "to \<noteq> 0" and "find_entry a (hk_entries st) = None" and "arm_thumb_fix_addr a = a"
    and "range_addrs a 16 \<subseteq> prog" and "unat a + 16 < 2 ^ 64"
    and "ALIGN_FLOOR to 0x1000 - ALIGN_FLOOR a 0x1000 \<noteq> 0x100000000" and "relocatable (hook_mem st) a 4"
    and "code_readable P prog (hk_env st)" and "room (ps_machine (hk_env st))"
  shows "\<exists>orig h st' e. DobbyHookEx (process_engine sys P) False a to oo oh st = Some (Inr (0, orig, h, st'))
    \<and> \<not> ps_fault (hk_env st') \<and> hk_entries st' = hk_entries st @ [e]
    \<and> hook_installed prog a to (hook_mem st) (hook_blocks st) (hook_mem st') (hook_blocks st') e"
  using dobby_system_live.hook_works[OF assms] by meson

theorem hook_gets_installed_witness:
  "\<exists>orig h st' e. DobbyHookEx (process_engine small_system 0x1000) False 0x1100 0x9000 True False small_start = Some (Inr (0, orig, h, st'))
    \<and> \<not> ps_fault (hk_env st') \<and> hk_entries st' = [e]
    \<and> hook_installed small_prog 0x1100 0x9000 (hook_mem small_start) (hook_blocks small_start) (hook_mem st') (hook_blocks st') e"
  using hook_gets_installed[OF small.dobby_system_live_axioms, of small_start "0x1100" "0x9000" True False]
    small_process_inv small_process_ready small_target
  by (simp add: small_start_def small_process_def ALIGN_FLOOR_def)

text \<open>
  C2.  Hooking and unhooking is a round trip.  After a successful hook, taking its entry off the registry and
  destroying it gives back the registry, the blocks of the allocator and every byte of the program and of those
  blocks.
\<close>

theorem unhook_undoes_hook:
  assumes "dobby_system_live sys P good prog locked room" and "process_inv P good prog (hk_env st)" and "\<not> ps_fault (hk_env st)"
    and "a \<noteq> 0" and "to \<noteq> 0" and "find_entry a (hk_entries st) = None" and "arm_thumb_fix_addr a = a"
    and "range_addrs a 16 \<subseteq> prog" and "unat a + 16 < 2 ^ 64"
    and "ALIGN_FLOOR to 0x1000 - ALIGN_FLOOR a 0x1000 \<noteq> 0x100000000" and "relocatable (hook_mem st) a 4"
    and "code_readable P prog (hk_env st)" and "room (ps_machine (hk_env st))"
  shows "\<exists>orig h st' e. DobbyHookEx (process_engine sys P) False a to oo oh st = Some (Inr (0, orig, h, st'))
    \<and> remove_entry a (hk_entries st') = (Some e, hk_entries st)
    \<and> (let (hs, s) = delete_entry (process_engine sys P) e (hk_handles st') (hk_env st')
       in \<not> ps_fault s \<and> live (ps_alloc s) = hook_blocks st
          \<and> (\<forall>x \<in> prog \<union> in_blocks (hook_blocks st). m_mem (ps_machine s) x = hook_mem st x))"
proof -
  obtain orig h st' e where c: "DobbyHookEx (process_engine sys P) False a to oo oh st = Some (Inr (0, orig, h, st'))"
      "process_inv P good prog (hk_env st')" "\<not> ps_fault (hk_env st')" "code_readable P prog (hk_env st')"
      "hk_entries st' = hk_entries st @ [e]" "hook_installed prog a to (hook_mem st) (hook_blocks st) (hook_mem st') (hook_blocks st') e"
    using dobby_system_live.hook_works[OF assms, of oo oh] by meson
  obtain hs s where d: "delete_entry (process_engine sys P) e (hk_handles st') (hk_env st') = (hs, s)"
    by fastforce
  show ?thesis
    using dobby_system_live.hook_unhook[OF assms(1,2) c(2-4) assms(4,8,9,6) c(5,6) d] c(1) d by (intro exI conjI) auto
qed

theorem unhook_undoes_hook_witness:
  "\<exists>orig h st' e. DobbyHookEx (process_engine small_system 0x1000) False 0x1100 0x9000 True True small_start = Some (Inr (0, orig, h, st'))
    \<and> remove_entry 0x1100 (hk_entries st') = (Some e, [])
    \<and> (let (hs, s) = delete_entry (process_engine small_system 0x1000) e (hk_handles st') (hk_env st')
       in \<not> ps_fault s \<and> live (ps_alloc s) = hook_blocks small_start
          \<and> (\<forall>x \<in> small_prog \<union> in_blocks (hook_blocks small_start). m_mem (ps_machine s) x = hook_mem small_start x))"
  using unhook_undoes_hook[OF small.dobby_system_live_axioms, of small_start "0x1100" "0x9000" True True]
    small_process_inv small_process_ready small_target
  by (simp add: small_start_def small_process_def ALIGN_FLOOR_def)



end
